(* ===== verification/Prelude.thy ===== *)
theory Prelude
  imports Complex_Main "HOL-Library.Product_Lexorder" "HOL-Library.List_Lexorder"
    "HOL-Library.Char_ord" "HOL-Library.Multiset"
begin

section \<open>Prelude\<close>

text \<open>
  What every component of the development shares.

  \<^item> The names of the model's basic types. A Python \<open>UUID\<close> is its 128-bit integer
    (\<open>UUID.int\<close>), a \<open>nat\<close>: PostgreSQL and the code order UUIDs by exactly that number.
    A \<open>datetime\<close> and a \<open>timedelta\<close> are integers (microseconds). A Python \<open>float\<close> amount
    of dollars is a rational: rounding, infinities and NaN are not modelled.
  \<^item> Python exceptions as values (\<open>py_error\<close>); a fallible function returns
    \<open>py_error + 'a\<close>. The constant part of an exception's message is kept, the values
    interpolated into it are not.
  \<^item> A database table is the list of its rows. \<open>row_get\<close>, \<open>row_update\<close>, \<open>row_delete\<close>
    and \<open>row_insert\<close> are SELECT by key, UPDATE ... WHERE, DELETE ... WHERE and INSERT
    with a primary-key check; their laws are what the components' proofs rest on.
  \<^item> Locales for contracts that several components share: status machines given by a
    transition table, invariants of step relations, and replay-safe reducers.
\<close>

named_theorems row_simps \<open>rewrite rules for the row operations of a table\<close>
named_theorems result_simps \<open>rewrite rules for the error monad\<close>

type_synonym uuid = nat
type_synonym time = int
type_synonym usd = rat

subsection \<open>Exceptions as values\<close>

datatype py_error =
    ValueError string
  | LookupError string
  | PermissionError string
  | RuntimeError string
  | TypeError string
  | KeyError
  | IndexError
  | IntegrityError
  | ValidationError string
  | InvalidStateTransition
  | StaleStateError
  | TaskBudgetExhausted string
  | AssertionError string
  | ToolRegistrationError string
  | ToolGatewayError string
  | ToolIdempotencyConflict string
  | ToolClaimInProgress
  | ApprovalRequired uuid
  | ApprovalBindingError string
  | ApprovalExpired
  | ApprovalNotGranted
  | WorkflowCancelled string
  | GraphInterrupt
  | ArtifactPathError string
  | ArtifactIntegrityError string
  | FileNotFoundError
  | RepairIntegrityError string
  | HTTPException int

type_synonym 'a result = "py_error + 'a"

text \<open>Sequencing two fallible computations: the first exception propagates.\<close>

definition bnd :: "'e + 'a \<Rightarrow> ('a \<Rightarrow> 'e + 'b) \<Rightarrow> 'e + 'b" where
  "bnd r f = (case r of Inl e \<Rightarrow> Inl e | Inr a \<Rightarrow> f a)"

lemma bnd_Inl [simp, result_simps]: "bnd (Inl e) f = Inl e"
  by (simp add: bnd_def)

lemma bnd_Inr [simp, result_simps]: "bnd (Inr a) f = f a"
  by (simp add: bnd_def)

lemma bnd_eq_Inr [result_simps]: "bnd r f = Inr b \<longleftrightarrow> (\<exists>a. r = Inr a \<and> f a = Inr b)"
  by (cases r) auto

lemma bnd_eq_Inl: "bnd r f = Inl e \<longleftrightarrow> r = Inl e \<or> (\<exists>a. r = Inr a \<and> f a = Inl e)"
  by (cases r) auto

lemma bnd_InrE:
  assumes "bnd r f = Inr b"
  obtains a where "r = Inr a" and "f a = Inr b"
  using assms by (auto simp: bnd_eq_Inr)

text \<open>\<open>guard\<close> is \<open>if not ok: raise e\<close>.\<close>

definition guard :: "bool \<Rightarrow> py_error \<Rightarrow> unit result" where
  "guard ok e = (if ok then Inr () else Inl e)"

lemma guard_simps [simp, result_simps]:
  "guard True e = Inr ()" "guard False e = Inl e"
  by (simp_all add: guard_def)

lemma guard_eq_Inr [simp, result_simps]: "guard ok e = Inr u \<longleftrightarrow> ok"
  by (simp add: guard_def)

text \<open>A Python \<open>for\<close> loop whose body may raise, threading a state through the elements.\<close>

fun for_each :: "'x list \<Rightarrow> ('x \<Rightarrow> 's \<Rightarrow> 'e + 's) \<Rightarrow> 's \<Rightarrow> 'e + 's" where
  "for_each [] body s = Inr s"
| "for_each (x # xs) body s = bnd (body x s) (for_each xs body)"

lemma for_each_append:
  "for_each (xs @ ys) body s = bnd (for_each xs body s) (for_each ys body)"
  by (induction xs arbitrary: s) (auto simp: bnd_def split: sum.splits)

lemma for_each_inv:
  assumes "for_each xs body s = Inr t" and "P s"
    and "\<And>x s t. x \<in> set xs \<Longrightarrow> P s \<Longrightarrow> body x s = Inr t \<Longrightarrow> P t"
  shows "P t"
  using assms
proof (induction xs arbitrary: s)
  case Nil
  then show ?case by simp
next
  case (Cons x xs)
  from Cons.prems(1) obtain u where u: "body x s = Inr u" "for_each xs body u = Inr t"
    by (auto elim: bnd_InrE)
  have "P u" by (rule Cons.prems(3)[OF _ Cons.prems(2) u(1)]) simp
  moreover have "P t" if "x \<in> set xs" "P s" "body x s = Inr t" for x s t
    using that Cons.prems(3)[of x s t] by simp
  ultimately show ?case by (rule Cons.IH[OF u(2)])
qed

text \<open>An invariant that also describes the elements still to come.\<close>

lemma for_each_rest:
  assumes "for_each xs body s = Inr t" and "P xs s"
    and "\<And>x xs s t. P (x # xs) s \<Longrightarrow> body x s = Inr t \<Longrightarrow> P xs t"
  shows "P [] t"
  using assms(1,2)
proof (induction xs arbitrary: s)
  case Nil
  then show ?case by simp
next
  case (Cons x xs)
  from Cons.prems(1) obtain u where u: "body x s = Inr u" "for_each xs body u = Inr t"
    by (auto elim: bnd_InrE)
  show ?case by (rule Cons.IH[OF u(2) assms(3)[OF Cons.prems(2) u(1)]])
qed

text \<open>Python's slice \<open>text[:n]\<close> for a bound that is not negative; short texts are not scanned for the bound.\<close>

definition clip :: "int \<Rightarrow> 'a list \<Rightarrow> 'a list" where
  "clip n xs = (if int (length xs) \<le> n then xs else take (nat n) xs)"

lemma clip_take: "0 \<le> n \<Longrightarrow> clip n xs = take (nat n) xs"
  by (simp add: clip_def)

subsection \<open>Tables\<close>

definition row_get :: "('r \<Rightarrow> 'k) \<Rightarrow> 'k \<Rightarrow> 'r list \<Rightarrow> 'r option" where
  "row_get key k rows = find (\<lambda>r. key r = k) rows"

definition row_update :: "('r \<Rightarrow> bool) \<Rightarrow> ('r \<Rightarrow> 'r) \<Rightarrow> 'r list \<Rightarrow> 'r list" where
  "row_update p f rows = map (\<lambda>r. if p r then f r else r) rows"

definition row_delete :: "('r \<Rightarrow> bool) \<Rightarrow> 'r list \<Rightarrow> 'r list" where
  "row_delete p rows = filter (\<lambda>r. \<not> p r) rows"

definition row_insert :: "('r \<Rightarrow> 'k) \<Rightarrow> 'r \<Rightarrow> 'r list \<Rightarrow> 'r list result" where
  "row_insert key r rows =
     (if key r \<in> key ` set rows then Inl IntegrityError else Inr (rows @ [r]))"

text \<open>A table respects its primary (or unique) key.\<close>

definition keyed :: "('r \<Rightarrow> 'k) \<Rightarrow> 'r list \<Rightarrow> bool" where
  "keyed key rows \<longleftrightarrow> distinct (map key rows)"

lemma row_get_Nil [simp, row_simps]: "row_get key k [] = None"
  by (simp add: row_get_def)

lemma row_get_Cons [simp, row_simps]:
  "row_get key k (r # rows) = (if key r = k then Some r else row_get key k rows)"
  by (simp add: row_get_def)

lemma row_get_append:
  "row_get key k (rs @ ss) = (case row_get key k rs of None \<Rightarrow> row_get key k ss | Some r \<Rightarrow> Some r)"
  by (induction rs) auto

lemma row_get_None [row_simps]: "row_get key k rows = None \<longleftrightarrow> k \<notin> key ` set rows"
  by (induction rows) auto

lemma row_get_Some:
  assumes "row_get key k rows = Some r"
  shows "r \<in> set rows" "key r = k"
  using assms by (induction rows) (auto split: if_splits)

lemma row_get_SomeD: "row_get key k rows = Some r \<Longrightarrow> r \<in> set rows \<and> key r = k"
  by (blast dest: row_get_Some)

lemma keyed_row_get:
  assumes "keyed key rows" "r \<in> set rows"
  shows "row_get key (key r) rows = Some r"
  using assms unfolding keyed_def by (induction rows) auto

lemma keyed_unique: "keyed key rows \<Longrightarrow> r \<in> set rows \<Longrightarrow> r' \<in> set rows \<Longrightarrow> key r = key r' \<Longrightarrow> r = r'"
  unfolding keyed_def by (auto simp: distinct_map inj_on_def)

lemma row_update_Nil [simp, row_simps]: "row_update p f [] = []"
  by (simp add: row_update_def)

lemma row_update_Cons [simp, row_simps]:
  "row_update p f (r # rows) = (if p r then f r else r) # row_update p f rows"
  by (simp add: row_update_def)

lemma set_row_update: "set (row_update p f rows) = (\<lambda>r. if p r then f r else r) ` set rows"
  by (simp add: row_update_def)

lemma length_row_update [simp]: "length (row_update p f rows) = length rows"
  by (simp add: row_update_def)

lemma row_update_none: "(\<And>r. r \<in> set rows \<Longrightarrow> \<not> p r) \<Longrightarrow> row_update p f rows = rows"
  by (induction rows) auto

lemma map_row_update:
  "(\<And>r. p r \<Longrightarrow> key (f r) = key r) \<Longrightarrow> map key (row_update p f rows) = map key rows"
  by (simp add: row_update_def)

lemma keyed_row_update [intro]:
  "keyed key rows \<Longrightarrow> (\<And>r. p r \<Longrightarrow> key (f r) = key r) \<Longrightarrow> keyed key (row_update p f rows)"
  by (simp add: keyed_def map_row_update)

lemma row_get_update:
  assumes "\<And>r. p r \<Longrightarrow> key (f r) = key r"
  shows "row_get key k (row_update p f rows) = map_option (\<lambda>r. if p r then f r else r) (row_get key k rows)"
  using assms by (induction rows) auto

lemma row_get_update_same:
  assumes "\<And>r. key (f r) = key r"
  shows "row_get key k (row_update (\<lambda>r. key r = k) f rows) = map_option f (row_get key k rows)"
  using assms by (induction rows) auto

lemma row_get_update_other:
  assumes "\<And>r. p r \<Longrightarrow> key (f r) = key r" and "\<And>r. p r \<Longrightarrow> key r \<noteq> k"
  shows "row_get key k (row_update p f rows) = row_get key k rows"
  using assms by (induction rows) auto

lemma row_delete_Nil [simp, row_simps]: "row_delete p [] = []"
  by (simp add: row_delete_def)

lemma row_delete_Cons [simp, row_simps]:
  "row_delete p (r # rows) = (if p r then row_delete p rows else r # row_delete p rows)"
  by (simp add: row_delete_def)

lemma set_row_delete [simp]: "set (row_delete p rows) = {r \<in> set rows. \<not> p r}"
  by (auto simp: row_delete_def)

lemma row_delete_none: "(\<And>r. r \<in> set rows \<Longrightarrow> \<not> p r) \<Longrightarrow> row_delete p rows = rows"
  by (induction rows) auto

lemma keyed_row_delete [intro]: "keyed key rows \<Longrightarrow> keyed key (row_delete p rows)"
  unfolding keyed_def row_delete_def by (rule distinct_map_filter)

lemma row_get_delete_same [simp]: "row_get key k (row_delete (\<lambda>r. key r = k) rows) = None"
  by (induction rows) auto

lemma row_get_delete_other:
  "k \<noteq> k' \<Longrightarrow> row_get key k (row_delete (\<lambda>r. key r = k') rows) = row_get key k rows"
  by (induction rows) auto

lemma row_insert_Inr [row_simps]:
  "row_insert key r rows = Inr rows' \<longleftrightarrow> key r \<notin> key ` set rows \<and> rows' = rows @ [r]"
  by (auto simp: row_insert_def)

lemma row_insert_keyed: "row_insert key r rows = Inr rows' \<Longrightarrow> keyed key rows \<Longrightarrow> keyed key rows'"
  by (auto simp: row_simps keyed_def)

lemma keyed_Nil [simp]: "keyed key []"
  by (simp add: keyed_def)

subsection \<open>Sums over rows\<close>

definition sum_where :: "('r \<Rightarrow> bool) \<Rightarrow> ('r \<Rightarrow> 'n::monoid_add) \<Rightarrow> 'r list \<Rightarrow> 'n" where
  "sum_where p w rows = sum_list (map w (filter p rows))"

lemma sum_where_simps [simp, row_simps]:
  "sum_where p w [] = 0"
  "sum_where p w (r # rows) = (if p r then w r + sum_where p w rows else sum_where p w rows)"
  "sum_where p w (rs @ ss) = sum_where p w rs + sum_where p w ss"
  by (simp_all add: sum_where_def)

lemma sum_where_nonneg:
  fixes w :: "'r \<Rightarrow> int"
  shows "(\<And>r. r \<in> set rows \<Longrightarrow> p r \<Longrightarrow> 0 \<le> w r) \<Longrightarrow> 0 \<le> sum_where p w rows"
  by (induction rows) auto

lemma sum_where_cong:
  "(\<And>r. r \<in> set rows \<Longrightarrow> p r = q r) \<Longrightarrow> sum_where p w rows = sum_where q w rows"
  by (induction rows) auto

lemma sum_where_mono:
  fixes w :: "'r \<Rightarrow> int"
  assumes "\<And>r. r \<in> set rows \<Longrightarrow> p r \<Longrightarrow> q r" and "\<And>r. r \<in> set rows \<Longrightarrow> 0 \<le> w r"
  shows "sum_where p w rows \<le> sum_where q w rows"
  using assms
proof (induction rows)
  case Nil
  then show ?case by simp
next
  case (Cons r rows)
  have "sum_where p w rows \<le> sum_where q w rows" and "0 \<le> w r"
    using Cons.prems by (auto intro: Cons.IH)
  then show ?case using Cons.prems(1)[of r] by auto
qed

subsection \<open>Python's \<open>dict.fromkeys\<close>: duplicates dropped, first occurrences kept in order\<close>

fun uniq_onto :: "'a list \<Rightarrow> 'a list \<Rightarrow> 'a list" where
  "uniq_onto acc [] = acc"
| "uniq_onto acc (x # xs) = (if x \<in> set acc then uniq_onto acc xs else uniq_onto (acc @ [x]) xs)"

lemma uniq_onto_distinct: "distinct acc \<Longrightarrow> distinct (uniq_onto acc xs)"
  by (induction acc xs rule: uniq_onto.induct) auto

lemma set_uniq_onto [simp]: "set (uniq_onto acc xs) = set acc \<union> set xs"
  by (induction acc xs rule: uniq_onto.induct) auto

lemma uniq_onto_prefix: "\<exists>zs. uniq_onto acc xs = acc @ zs"
proof (induction acc xs rule: uniq_onto.induct)
  case (1 acc)
  then show ?case by simp
next
  case (2 acc x xs)
  then show ?case by (cases "x \<in> set acc") (simp, force)
qed

lemma uniq_onto_subset: "set xs \<subseteq> set acc \<Longrightarrow> uniq_onto acc xs = acc"
  by (induction acc xs rule: uniq_onto.induct) auto

lemma uniq_onto_append: "uniq_onto acc (xs @ ys) = uniq_onto (uniq_onto acc xs) ys"
  by (induction acc xs rule: uniq_onto.induct) auto

definition fromkeys :: "'a list \<Rightarrow> 'a list" where
  "fromkeys xs = uniq_onto [] xs"

lemma fromkeys_distinct [simp]: "distinct (fromkeys xs)"
  by (simp add: fromkeys_def uniq_onto_distinct)

lemma set_fromkeys [simp]: "set (fromkeys xs) = set xs"
  by (simp add: fromkeys_def)

subsection \<open>Python's dicts, where their order matters\<close>

text \<open>Assigning to a key of a dict keeps its position, or appends it.\<close>

definition dict_set :: "'k \<Rightarrow> 'v \<Rightarrow> ('k \<times> 'v) list \<Rightarrow> ('k \<times> 'v) list" where
  "dict_set k v d = (if k \<in> fst ` set d then map (\<lambda>(k', v'). if k' = k then (k', v) else (k', v')) d else d @ [(k, v)])"

text \<open>\<open>left | right\<close>: keys of \<open>left\<close> keep their place, values of \<open>right\<close> win.\<close>

definition dict_union :: "('k \<times> 'v) list \<Rightarrow> ('k \<times> 'v) list \<Rightarrow> ('k \<times> 'v) list" where
  "dict_union left right = foldl (\<lambda>d (k, v). dict_set k v d) left right"

lemma map_of_dict_set [simp]: "map_of (dict_set k v d) = (map_of d)(k \<mapsto> v)"
proof (cases "k \<in> fst ` set d")
  case True
  let ?set = "map (\<lambda>(k', v'). if k' = k then (k', v) else (k', v'))"
  have "map_of (?set d) x = map_of d x" if "x \<noteq> k" for x
    using that by (induction d) (simp_all add: case_prod_beta)
  moreover have "map_of (?set d) k = Some v"
    using True by (induction d) (auto simp: case_prod_beta)
  ultimately show ?thesis using True by (auto simp: dict_set_def fun_eq_iff)
next
  case False
  then have "map_of d k = None" by (simp add: map_of_eq_None_iff)
  then show ?thesis using False by (auto simp: dict_set_def fun_eq_iff map_add_def split: option.splits)
qed

lemma keys_dict_set: "map fst (dict_set k v d) = uniq_onto (map fst d) [k]"
proof -
  have "map fst (map (\<lambda>(k', v'). if k' = k then (k', v) else (k', v')) d) = map fst d" by (induction d) auto
  then show ?thesis by (simp add: dict_set_def)
qed

lemma fst_dict_set [simp]: "fst ` set (dict_set k v d) = insert k (fst ` set d)"
proof -
  have "set (map fst (dict_set k v d)) = insert k (set (map fst d))" unfolding keys_dict_set by auto
  then show ?thesis by simp
qed

lemma keys_dict_union: "map fst (dict_union left right) = uniq_onto (map fst left) (map fst right)"
  unfolding dict_union_def
proof (induction right arbitrary: left)
  case (Cons e right)
  then show ?case by (cases e) (simp add: keys_dict_set)
qed simp

lemma dict_union_known:
  assumes "fst ` set right \<subseteq> fst ` set left"
  shows "dict_union left right = map (\<lambda>(k, v'). (k, case map_of (rev right) k of None \<Rightarrow> v' | Some v \<Rightarrow> v)) left"
  using assms unfolding dict_union_def
proof (induction right arbitrary: left)
  case Nil
  then show ?case by (simp add: case_prod_beta)
next
  case (Cons e right)
  obtain k v where e: "e = (k, v)" by fastforce
  then have "fst ` set right \<subseteq> fst ` set (dict_set k v left)" using Cons.prems by auto
  from Cons.IH[OF this] show ?case
    using Cons.prems by (auto simp: e dict_set_def map_add_def split: option.splits)
qed

lemma dict_union_last:
  "(k, v') \<in> set (dict_union left right) \<Longrightarrow> map_of (rev right) k = Some v \<Longrightarrow> v' = v"
proof (induction right arbitrary: v v' rule: rev_induct)
  case (snoc e right)
  obtain a b where e: "e = (a, b)" by fastforce
  have "(k, v') \<in> set (dict_set a b (dict_union left right))" using snoc.prems(1) by (simp add: e dict_union_def)
  then show ?case using snoc.prems(2) snoc.IH[of v' v] by (force simp: e dict_set_def split: if_splits)
qed simp

lemma dict_union_replay: "dict_union (dict_union left right) right = dict_union left right"
proof -
  let ?d = "dict_union left right"
  have "fst ` set right \<subseteq> fst ` set ?d"
    using keys_dict_union[of left right] by (metis Un_upper2 list.set_map set_uniq_onto)
  then have "dict_union ?d right = map (\<lambda>(k, v'). (k, case map_of (rev right) k of None \<Rightarrow> v' | Some v \<Rightarrow> v)) ?d"
    by (rule dict_union_known)
  also have "\<dots> = ?d" by (rule map_idI) (auto dest: dict_union_last split: option.splits)
  finally show ?thesis .
qed

subsection \<open>Contracts shared by the components\<close>

text \<open>
  A status machine is a table of legal transitions. \<open>status_path\<close> is a run through it.
\<close>

inductive status_path :: "('s \<Rightarrow> 's set) \<Rightarrow> 's \<Rightarrow> 's \<Rightarrow> bool" for table where
  stay: "status_path table s s"
| move: "status_path table s t \<Longrightarrow> u \<in> table t \<Longrightarrow> status_path table s u"

locale status_machine =
  fixes table :: "'s \<Rightarrow> 's set"
    and terminal :: "'s set"
  assumes terminal_iff: "s \<in> terminal \<longleftrightarrow> table s = {}"
    and irreflexive: "s \<notin> table s"
begin

lemma terminal_absorbing:
  assumes "status_path table s t" and "s \<in> terminal"
  shows "t = s"
  using assms by (induction rule: status_path.induct) (auto simp: terminal_iff)

lemma nonterminal_moves: "s \<notin> terminal \<Longrightarrow> \<exists>t. t \<in> table s \<and> t \<noteq> s"
  using terminal_iff irreflexive by (metis all_not_in_conv)

end

text \<open>
  An invariant of a step relation: it holds in the initial states and every step keeps
  it, so it holds in every state a run reaches.
\<close>

inductive reaches :: "('s \<Rightarrow> 's \<Rightarrow> bool) \<Rightarrow> 's \<Rightarrow> 's \<Rightarrow> bool" for step where
  here: "reaches step s s"
| further: "reaches step s t \<Longrightarrow> step t u \<Longrightarrow> reaches step s u"

locale step_invariant =
  fixes step :: "'s \<Rightarrow> 's \<Rightarrow> bool"
    and inv :: "'s \<Rightarrow> bool"
  assumes step_keeps: "step s t \<Longrightarrow> inv s \<Longrightarrow> inv t"
begin

lemma reaches_keeps: "reaches step s t \<Longrightarrow> inv s \<Longrightarrow> inv t"
  by (induction rule: reaches.induct) (auto intro: step_keeps)

end

text \<open>
  A LangGraph channel reducer merges an update into the channel's value. A graph node may
  be replayed after a crash, so merging an update a second time must not change the value.
\<close>

locale replay_reducer =
  fixes merge :: "'v \<Rightarrow> 'u \<Rightarrow> 'v"
  assumes replay: "merge (merge v u) u = merge v u"
begin

lemma replays_absorbed: "foldl merge (merge v u) (replicate n u) = merge v u"
  by (induction n arbitrary: v) (auto simp: replay)

end

end
