(* ===== verification/Domain.thy ===== *)
theory Domain
  imports Prelude
begin

section \<open>Domain vocabulary\<close>

text \<open>
  \<open>src/domain/enums.py\<close>, \<open>src/domain/events.py\<close>, \<open>src/domain/task_policy.py\<close> and the
  risk ordering of \<open>src/policies/risk/policy_engine.py\<close>: the enumerations with the
  source's member names, the three transition tables as functions from a state to the set
  of its successors, the \<open>require_\<close> guards that every state change goes through, and the
  static grants of each task type. The three tables are interpreted as status machines.
\<close>

subsection \<open>Enumerations\<close>

datatype TaskType = RESEARCH | IMPLEMENTATION | TEST | REFACTOR | DOCUMENTATION | VALIDATION

datatype TaskStatus =
  PENDING | READY | LEASED | RUNNING | BLOCKED | COMPLETED | FAILED | CANCELLED

datatype GraphExecutionState =
    NOT_STARTED | RUNNING | WAITING_FOR_TOOL | WAITING_FOR_APPROVAL | WAITING_FOR_MEMORY
  | PAUSED | COMPLETED | FAILED | CANCELLED | NEEDS_RECONCILIATION

datatype RiskLevel = LOW | MEDIUM | HIGH | CRITICAL

datatype ArtifactState = PENDING | VALID | CORRUPT | QUARANTINED

datatype ApprovalStatus = PENDING | APPROVED | REJECTED | EXPIRED | CANCELLED

datatype RetryCategory =
  TRANSIENT | PERMANENT | POLICY | BUDGET | CANCELLATION | UNCERTAIN_SIDE_EFFECT

datatype RunStatus =
    PENDING | PLANNING | EXECUTING | WAITING_FOR_APPROVAL | WAITING_FOR_MEMORY
  | COMPLETED | FAILED | CANCELLED

subsection \<open>Transition tables\<close>

fun TASK_TRANSITIONS :: "TaskStatus \<Rightarrow> TaskStatus set" where
  "TASK_TRANSITIONS TaskStatus.PENDING = {TaskStatus.READY, TaskStatus.CANCELLED}"
| "TASK_TRANSITIONS TaskStatus.READY =
     {TaskStatus.LEASED, TaskStatus.BLOCKED, TaskStatus.FAILED, TaskStatus.CANCELLED}"
| "TASK_TRANSITIONS TaskStatus.LEASED =
     {TaskStatus.RUNNING, TaskStatus.READY, TaskStatus.FAILED, TaskStatus.CANCELLED}"
| "TASK_TRANSITIONS TaskStatus.RUNNING =
     {TaskStatus.READY, TaskStatus.BLOCKED, TaskStatus.COMPLETED, TaskStatus.FAILED,
      TaskStatus.CANCELLED}"
| "TASK_TRANSITIONS TaskStatus.BLOCKED =
     {TaskStatus.READY, TaskStatus.FAILED, TaskStatus.CANCELLED}"
| "TASK_TRANSITIONS TaskStatus.COMPLETED = {}"
| "TASK_TRANSITIONS TaskStatus.FAILED = {}"
| "TASK_TRANSITIONS TaskStatus.CANCELLED = {}"

fun GRAPH_EXECUTION_TRANSITIONS :: "GraphExecutionState \<Rightarrow> GraphExecutionState set" where
  "GRAPH_EXECUTION_TRANSITIONS NOT_STARTED =
     {GraphExecutionState.RUNNING, GraphExecutionState.CANCELLED}"
| "GRAPH_EXECUTION_TRANSITIONS GraphExecutionState.RUNNING =
     {WAITING_FOR_TOOL, GraphExecutionState.WAITING_FOR_APPROVAL,
      GraphExecutionState.WAITING_FOR_MEMORY, PAUSED, GraphExecutionState.COMPLETED,
      GraphExecutionState.FAILED, GraphExecutionState.CANCELLED, NEEDS_RECONCILIATION}"
| "GRAPH_EXECUTION_TRANSITIONS WAITING_FOR_TOOL =
     {GraphExecutionState.RUNNING, GraphExecutionState.FAILED, GraphExecutionState.CANCELLED,
      NEEDS_RECONCILIATION}"
| "GRAPH_EXECUTION_TRANSITIONS GraphExecutionState.WAITING_FOR_APPROVAL =
     {GraphExecutionState.RUNNING, GraphExecutionState.FAILED, GraphExecutionState.CANCELLED}"
| "GRAPH_EXECUTION_TRANSITIONS GraphExecutionState.WAITING_FOR_MEMORY =
     {GraphExecutionState.RUNNING, GraphExecutionState.FAILED, GraphExecutionState.CANCELLED}"
| "GRAPH_EXECUTION_TRANSITIONS PAUSED =
     {GraphExecutionState.RUNNING, GraphExecutionState.FAILED, GraphExecutionState.CANCELLED}"
| "GRAPH_EXECUTION_TRANSITIONS GraphExecutionState.COMPLETED = {}"
| "GRAPH_EXECUTION_TRANSITIONS GraphExecutionState.FAILED = {}"
| "GRAPH_EXECUTION_TRANSITIONS GraphExecutionState.CANCELLED = {}"
| "GRAPH_EXECUTION_TRANSITIONS NEEDS_RECONCILIATION =
     {GraphExecutionState.RUNNING, GraphExecutionState.COMPLETED, GraphExecutionState.FAILED,
      GraphExecutionState.CANCELLED}"

definition RUN_TERMINAL_STATES :: "RunStatus set" where
  "RUN_TERMINAL_STATES = {RunStatus.COMPLETED, RunStatus.FAILED, RunStatus.CANCELLED}"

fun RUN_TRANSITIONS :: "RunStatus \<Rightarrow> RunStatus set" where
  "RUN_TRANSITIONS RunStatus.PENDING = {PLANNING, RunStatus.CANCELLED}"
| "RUN_TRANSITIONS PLANNING = {EXECUTING, RunStatus.FAILED, RunStatus.CANCELLED}"
| "RUN_TRANSITIONS EXECUTING =
     {RunStatus.WAITING_FOR_APPROVAL, RunStatus.WAITING_FOR_MEMORY, RunStatus.COMPLETED,
      RunStatus.FAILED, RunStatus.CANCELLED}"
| "RUN_TRANSITIONS RunStatus.WAITING_FOR_APPROVAL =
     {RunStatus.WAITING_FOR_MEMORY, RunStatus.COMPLETED, RunStatus.FAILED, RunStatus.CANCELLED}"
| "RUN_TRANSITIONS RunStatus.WAITING_FOR_MEMORY =
     {RunStatus.COMPLETED, RunStatus.FAILED, RunStatus.CANCELLED}"
| "RUN_TRANSITIONS RunStatus.COMPLETED = {}"
| "RUN_TRANSITIONS RunStatus.FAILED = {}"
| "RUN_TRANSITIONS RunStatus.CANCELLED = {}"

definition require_task_transition :: "TaskStatus \<Rightarrow> TaskStatus \<Rightarrow> unit result" where
  "require_task_transition current target =
     guard (target \<in> TASK_TRANSITIONS current) InvalidStateTransition"

definition require_graph_transition ::
  "GraphExecutionState \<Rightarrow> GraphExecutionState \<Rightarrow> unit result" where
  "require_graph_transition current target =
     guard (target \<in> GRAPH_EXECUTION_TRANSITIONS current) InvalidStateTransition"

definition require_run_transition :: "RunStatus \<Rightarrow> RunStatus \<Rightarrow> unit result" where
  "require_run_transition current target =
     guard (target \<in> RUN_TRANSITIONS current) InvalidStateTransition"

text \<open>Microseconds; the source returns the same duration in seconds.\<close>

definition duration_seconds :: "time \<Rightarrow> time \<Rightarrow> time" where
  "duration_seconds entered_at exited_at = max 0 (exited_at - entered_at)"

subsection \<open>Static execution grants of a task type\<close>

fun TASK_CAPABILITY_NAMES :: "TaskType \<Rightarrow> string list" where
  "TASK_CAPABILITY_NAMES RESEARCH = [''research'', ''researcher'', ''analysis'']"
| "TASK_CAPABILITY_NAMES IMPLEMENTATION = [''implementation'', ''coder'']"
| "TASK_CAPABILITY_NAMES TEST = [''test'', ''testing'', ''tester'']"
| "TASK_CAPABILITY_NAMES REFACTOR = [''refactor'', ''refactoring'']"
| "TASK_CAPABILITY_NAMES DOCUMENTATION = [''documentation'']"
| "TASK_CAPABILITY_NAMES VALIDATION = [''validation'']"

fun TASK_REQUIRED_TOOLS :: "TaskType \<Rightarrow> string set" where
  "TASK_REQUIRED_TOOLS RESEARCH = {''read_file'', ''search_code''}"
| "TASK_REQUIRED_TOOLS IMPLEMENTATION = {''read_file'', ''apply_patch'', ''run_tests''}"
| "TASK_REQUIRED_TOOLS TEST = {''read_file'', ''apply_patch'', ''run_tests''}"
| "TASK_REQUIRED_TOOLS REFACTOR = {''read_file'', ''apply_patch'', ''run_tests''}"
| "TASK_REQUIRED_TOOLS DOCUMENTATION = {''read_file'', ''apply_patch'', ''run_tests''}"
| "TASK_REQUIRED_TOOLS VALIDATION = {''read_file'', ''run_tests''}"

text \<open>The insertion order of the dictionary \<open>TASK_CAPABILITY_NAMES\<close>.\<close>

definition task_type_order :: "TaskType list" where
  "task_type_order = [RESEARCH, IMPLEMENTATION, TEST, REFACTOR, DOCUMENTATION, VALIDATION]"

definition task_minimum_risk :: "TaskType \<Rightarrow> RiskLevel" where
  "task_minimum_risk task_type = (if task_type = RESEARCH then LOW else MEDIUM)"

definition grants_of_task_type :: "TaskType \<Rightarrow> string set" where
  "grants_of_task_type task_type =
     (if task_type = RESEARCH then {''repository-read''}
      else if task_type = VALIDATION then {''repository-read'', ''verification''}
      else {''repository-read'', ''repository-write'', ''verification''})"

definition capabilities_for_assignment :: "string \<Rightarrow> string set" where
  "capabilities_for_assignment assignment =
     (case find (\<lambda>task_type. assignment \<in> set (TASK_CAPABILITY_NAMES task_type)) task_type_order of
        Some task_type \<Rightarrow> grants_of_task_type task_type
      | None \<Rightarrow> {assignment})"

text \<open>The contract the planner is shown, one row per task type in dictionary order.\<close>

definition planner_execution_contract ::
  "(TaskType \<times> string \<times> string list \<times> RiskLevel) list" where
  "planner_execution_contract =
     map (\<lambda>task_type. (task_type, hd (TASK_CAPABILITY_NAMES task_type),
            sorted_list_of_set (TASK_REQUIRED_TOOLS task_type), task_minimum_risk task_type))
       task_type_order"

subsection \<open>The order on risk levels\<close>

fun RISK_ORDER :: "RiskLevel \<Rightarrow> nat" where
  "RISK_ORDER LOW = 0"
| "RISK_ORDER MEDIUM = 1"
| "RISK_ORDER HIGH = 2"
| "RISK_ORDER CRITICAL = 3"

lemma RISK_ORDER_inj: "RISK_ORDER a = RISK_ORDER b \<longleftrightarrow> a = b"
  by (cases a; cases b) auto

instantiation RiskLevel :: linorder
begin

definition less_eq_RiskLevel :: "RiskLevel \<Rightarrow> RiskLevel \<Rightarrow> bool" where
  "less_eq_RiskLevel a b \<longleftrightarrow> RISK_ORDER a \<le> RISK_ORDER b"

definition less_RiskLevel :: "RiskLevel \<Rightarrow> RiskLevel \<Rightarrow> bool" where
  "less_RiskLevel a b \<longleftrightarrow> RISK_ORDER a < RISK_ORDER b"

instance
  by standard (auto simp: less_eq_RiskLevel_def less_RiskLevel_def RISK_ORDER_inj)

end

definition risk_exceeds :: "RiskLevel \<Rightarrow> RiskLevel \<Rightarrow> bool" where
  "risk_exceeds level max_level \<longleftrightarrow> RISK_ORDER max_level < RISK_ORDER level"

text \<open>\<open>max(levels, key=...)\<close> keeps the first of equal maxima.\<close>

fun maximum_risk :: "RiskLevel \<Rightarrow> RiskLevel list \<Rightarrow> RiskLevel" where
  "maximum_risk best [] = best"
| "maximum_risk best (level # levels) =
     maximum_risk (if RISK_ORDER best < RISK_ORDER level then level else best) levels"

lemma risk_exceeds_less: "risk_exceeds a b \<longleftrightarrow> b < a"
  by (simp add: risk_exceeds_def less_RiskLevel_def)

lemma maximum_risk_Max: "maximum_risk best levels = Max (set (best # levels))"
proof (induction best levels rule: maximum_risk.induct)
  case (1 best)
  then show ?case by simp
next
  case (2 best level levels)
  have pick: "(if RISK_ORDER best < RISK_ORDER level then level else best) = max best level"
    by (auto simp: max_def less_eq_RiskLevel_def RISK_ORDER_inj[symmetric] not_less)
  show ?case using 2 unfolding maximum_risk.simps pick
    by (cases levels) (simp_all add: max.assoc)
qed

lemma maximum_risk_ge: "level \<in> set (best # levels) \<Longrightarrow> level \<le> maximum_risk best levels"
  unfolding maximum_risk_Max by (rule Max_ge) simp_all

lemma maximum_risk_mem: "maximum_risk best levels \<in> set (best # levels)"
  unfolding maximum_risk_Max by (rule Max_in) simp_all

lemma RiskLevel_bounds [simp]: "LOW \<le> level" "level \<le> CRITICAL"
  by (cases level; simp add: less_eq_RiskLevel_def)+

subsection \<open>The three tables are status machines\<close>

definition task_terminal :: "TaskStatus set" where
  "task_terminal = {TaskStatus.COMPLETED, TaskStatus.FAILED, TaskStatus.CANCELLED}"

definition graph_terminal :: "GraphExecutionState set" where
  "graph_terminal =
     {GraphExecutionState.COMPLETED, GraphExecutionState.FAILED, GraphExecutionState.CANCELLED}"

interpretation task_machine: status_machine TASK_TRANSITIONS task_terminal
proof
  show "(s \<in> task_terminal) = (TASK_TRANSITIONS s = {})" for s
    by (cases s) (auto simp: task_terminal_def)
  show "s \<notin> TASK_TRANSITIONS s" for s
    by (cases s) auto
qed

interpretation graph_machine: status_machine GRAPH_EXECUTION_TRANSITIONS graph_terminal
proof
  show "(s \<in> graph_terminal) = (GRAPH_EXECUTION_TRANSITIONS s = {})" for s
    by (cases s) (auto simp: graph_terminal_def)
  show "s \<notin> GRAPH_EXECUTION_TRANSITIONS s" for s
    by (cases s) auto
qed

interpretation run_machine: status_machine RUN_TRANSITIONS RUN_TERMINAL_STATES
proof
  show "(s \<in> RUN_TERMINAL_STATES) = (RUN_TRANSITIONS s = {})" for s
    by (cases s) (auto simp: RUN_TERMINAL_STATES_def)
  show "s \<notin> RUN_TRANSITIONS s" for s
    by (cases s) auto
qed

subsection \<open>Properties of the tables\<close>

lemma task_running_from: "TaskStatus.RUNNING \<in> TASK_TRANSITIONS s \<longleftrightarrow> s = TaskStatus.LEASED"
  by (cases s) auto

lemma task_completed_from: "TaskStatus.COMPLETED \<in> TASK_TRANSITIONS s \<longleftrightarrow> s = TaskStatus.RUNNING"
  by (cases s) auto

lemma task_leased_from: "TaskStatus.LEASED \<in> TASK_TRANSITIONS s \<longleftrightarrow> s = TaskStatus.READY"
  by (cases s) auto

lemmas task_predecessors = task_running_from task_completed_from task_leased_from

lemma history_snoc:
  assumes "successively (\<lambda>s t. t \<in> table s) (h @ [t])" and "hd (h @ [t]) = start" and "start \<noteq> t"
    and "\<And>s. t \<in> table s \<Longrightarrow> s = p"
  obtains h' where "h = h' @ [p]" "successively (\<lambda>s t. t \<in> table s) (h' @ [p])"
    "hd (h' @ [p]) = start"
  using assms by (cases h rule: rev_cases) (auto simp: successively_append_iff hd_append)

text \<open>
  A task that is COMPLETED went through READY, LEASED and RUNNING, in this
  order and immediately before. Whatever history of legal transitions takes a task from
  PENDING to COMPLETED ends in exactly these four states, so no task completes without
  having been admitted and leased.
\<close>

theorem completed_only_after_lease:
  assumes "successively (\<lambda>s t. t \<in> TASK_TRANSITIONS s) history"
    and "history \<noteq> []" and "hd history = TaskStatus.PENDING"
    and "last history = TaskStatus.COMPLETED"
  shows "\<exists>before. history =
    before @ [TaskStatus.READY, TaskStatus.LEASED, TaskStatus.RUNNING, TaskStatus.COMPLETED]"
proof -
  let ?ok = "successively (\<lambda>s t. t \<in> TASK_TRANSITIONS s)"
  obtain h1 where h1: "history = h1 @ [TaskStatus.COMPLETED]"
    using assms(2,4) by (metis append_butlast_last_id)
  have step1: "?ok (h1 @ [TaskStatus.COMPLETED])" "hd (h1 @ [TaskStatus.COMPLETED]) = TaskStatus.PENDING"
    using assms(1,3) by (simp_all add: h1)
  obtain h2 where h2: "h1 = h2 @ [TaskStatus.RUNNING]" "?ok (h2 @ [TaskStatus.RUNNING])"
    "hd (h2 @ [TaskStatus.RUNNING]) = TaskStatus.PENDING"
    by (rule history_snoc[OF step1]) (auto simp: task_predecessors)
  obtain h3 where h3: "h2 = h3 @ [TaskStatus.LEASED]" "?ok (h3 @ [TaskStatus.LEASED])"
    "hd (h3 @ [TaskStatus.LEASED]) = TaskStatus.PENDING"
    by (rule history_snoc[OF h2(2,3)]) (auto simp: task_predecessors)
  obtain h4 where h4: "h3 = h4 @ [TaskStatus.READY]"
    by (rule history_snoc[OF h3(2,3)]) (auto simp: task_predecessors)
  have "history =
    h4 @ [TaskStatus.READY, TaskStatus.LEASED, TaskStatus.RUNNING, TaskStatus.COMPLETED]"
    by (simp add: h1 h2(1) h3(1) h4)
  then show ?thesis ..
qed

theorem completed_only_after_lease_witness:
  "\<exists>before. [TaskStatus.PENDING, TaskStatus.READY, TaskStatus.LEASED, TaskStatus.READY,
     TaskStatus.LEASED, TaskStatus.RUNNING, TaskStatus.COMPLETED] =
   before @ [TaskStatus.READY, TaskStatus.LEASED, TaskStatus.RUNNING, TaskStatus.COMPLETED]"
  by (rule completed_only_after_lease) simp_all

text \<open>
  The terminal states of tasks, graph executions and runs are absorbing, and
  only they are: no sequence of legal transitions leaves one, and every other state has a
  legal successor different from itself.
\<close>

theorem terminal_states_absorbing:
  "(s \<in> task_terminal \<longrightarrow> status_path TASK_TRANSITIONS s t \<longrightarrow> t = s) \<and>
   (g \<in> graph_terminal \<longrightarrow> status_path GRAPH_EXECUTION_TRANSITIONS g h \<longrightarrow> h = g) \<and>
   (r \<in> RUN_TERMINAL_STATES \<longrightarrow> status_path RUN_TRANSITIONS r q \<longrightarrow> q = r) \<and>
   (s \<notin> task_terminal \<longrightarrow> (\<exists>t'. t' \<in> TASK_TRANSITIONS s \<and> t' \<noteq> s)) \<and>
   (g \<notin> graph_terminal \<longrightarrow> (\<exists>h'. h' \<in> GRAPH_EXECUTION_TRANSITIONS g \<and> h' \<noteq> g)) \<and>
   (r \<notin> RUN_TERMINAL_STATES \<longrightarrow> (\<exists>q'. q' \<in> RUN_TRANSITIONS r \<and> q' \<noteq> r))"
  using task_machine.terminal_absorbing graph_machine.terminal_absorbing
    run_machine.terminal_absorbing task_machine.nonterminal_moves
    graph_machine.nonterminal_moves run_machine.nonterminal_moves
  by blast

theorem terminal_states_absorbing_witness:
  "{t. status_path TASK_TRANSITIONS TaskStatus.FAILED t} = {TaskStatus.FAILED} \<and>
   {h. status_path GRAPH_EXECUTION_TRANSITIONS GraphExecutionState.COMPLETED h} =
     {GraphExecutionState.COMPLETED} \<and>
   (\<exists>q'. q' \<in> RUN_TRANSITIONS PLANNING \<and> q' \<noteq> PLANNING)"
proof -
  have "t = TaskStatus.FAILED" if "status_path TASK_TRANSITIONS TaskStatus.FAILED t" for t
    using that terminal_states_absorbing[of TaskStatus.FAILED t] by (simp add: task_terminal_def)
  moreover have "h = GraphExecutionState.COMPLETED"
    if "status_path GRAPH_EXECUTION_TRANSITIONS GraphExecutionState.COMPLETED h" for h
    using that terminal_states_absorbing[of _ _ GraphExecutionState.COMPLETED h]
    by (simp add: graph_terminal_def)
  moreover have "\<exists>q'. q' \<in> RUN_TRANSITIONS PLANNING \<and> q' \<noteq> PLANNING"
    using terminal_states_absorbing[of _ _ _ _ PLANNING] by (simp add: RUN_TERMINAL_STATES_def)
  ultimately show ?thesis by (auto intro: status_path.stay)
qed

end
