(* ===== verification/Posix_Paths.thy ===== *)
theory Posix_Paths
  imports Domain "HOL-Library.Sublist"
begin

section \<open>Strings, POSIX paths and the risk policy\<close>

text \<open>
  The parts of Python's \<open>str\<close>, \<open>pathlib.PurePosixPath\<close> and \<open>posixpath\<close> that the code uses,
  the repository-relative path check of \<open>src/planning/validator.py\<close>, the lexical part of
  \<open>normalize_worktree_path\<close> of \<open>src/tools/registry.py\<close>, and the risk policy of
  \<open>src/policies/risk/policy_engine.py\<close>. Strings are lists of 8-bit characters;
  \<open>casefold\<close> is modelled on ASCII letters.
\<close>

subsection \<open>String operations\<close>

definition replace_char :: "char \<Rightarrow> char \<Rightarrow> string \<Rightarrow> string" where
  "replace_char a b s = map (\<lambda>c. if c = a then b else c) s"

fun split_on :: "char \<Rightarrow> string \<Rightarrow> string list" where
  "split_on c [] = [[]]"
| "split_on c (x # xs) =
     (if x = c then [] # split_on c xs
      else case split_on c xs of [] \<Rightarrow> [[x]] | w # ws \<Rightarrow> (x # w) # ws)"

fun join_with :: "char \<Rightarrow> string list \<Rightarrow> string" where
  "join_with c [] = []"
| "join_with c [w] = w"
| "join_with c (w # v # ws) = w @ c # join_with c (v # ws)"

definition strip_char :: "char \<Rightarrow> string \<Rightarrow> string" where
  "strip_char c s = rev (dropWhile (\<lambda>x. x = c) (rev (dropWhile (\<lambda>x. x = c) s)))"

definition casefold_char :: "char \<Rightarrow> char" where
  "casefold_char c = (if of_char c \<ge> (65::nat) \<and> of_char c \<le> (90::nat)
     then char_of (of_char c + 32 :: nat) else c)"

definition casefold :: "string \<Rightarrow> string" where
  "casefold s = map casefold_char s"

definition contains :: "string \<Rightarrow> string \<Rightarrow> bool" where
  "contains needle s \<longleftrightarrow> sublist needle s"

abbreviation slash :: char where "slash \<equiv> CHR ''/''"
abbreviation backslash :: char where "backslash \<equiv> CHR 0x5C"

lemma split_on_not_Nil [simp]: "split_on c s \<noteq> []"
  by (induction s) (auto split: list.splits)

lemma join_split [simp]: "join_with c (split_on c s) = s"
proof (induction s)
  case Nil
  then show ?case by simp
next
  case (Cons x xs)
  obtain w ws where "split_on c xs = w # ws" by (cases "split_on c xs") simp_all
  then show ?case using Cons by (cases ws) auto
qed

lemma split_on_free: "w \<in> set (split_on c s) \<Longrightarrow> c \<notin> set w"
  by (induction s arbitrary: w) (auto split: list.splits if_splits)

lemma split_join:
  "ws \<noteq> [] \<Longrightarrow> (\<And>w. w \<in> set ws \<Longrightarrow> c \<notin> set w) \<Longrightarrow> split_on c (join_with c ws) = ws"
proof (induction c ws rule: join_with.induct)
  case (1 c)
  then show ?case by simp
next
  case (2 c w)
  then have "c \<notin> set w" by simp
  then show ?case by (induction w) auto
next
  case (3 c w v ws)
  then have tail: "split_on c (join_with c (v # ws)) = v # ws" and w: "c \<notin> set w" by auto
  show ?case using w by (induction w) (auto simp: tail)
qed

lemma replace_char_free [simp]: "a \<noteq> b \<Longrightarrow> a \<notin> set (replace_char a b s)"
  by (auto simp: replace_char_def)

subsection \<open>\<open>PurePosixPath\<close> and \<open>posixpath.normpath\<close>\<close>

definition path_root :: "string \<Rightarrow> string" where
  "path_root s = (if prefix [slash, slash] s \<and> \<not> prefix [slash, slash, slash] s then [slash, slash]
     else if prefix [slash] s then [slash] else [])"

definition path_is_absolute :: "string \<Rightarrow> bool" where
  "path_is_absolute s \<longleftrightarrow> path_root s \<noteq> []"

definition is_name :: "string \<Rightarrow> bool" where
  "is_name w \<longleftrightarrow> w \<noteq> '''' \<and> w \<noteq> ''.''"

definition path_parts :: "string \<Rightarrow> string list" where
  "path_parts s = (if path_root s = [] then [] else [path_root s]) @ filter is_name (split_on slash s)"

definition normpath_step :: "bool \<Rightarrow> string list \<Rightarrow> string \<Rightarrow> string list" where
  "normpath_step absolute comps part =
     (if part = '''' \<or> part = ''.'' then comps
      else if part \<noteq> ''..'' \<or> (\<not> absolute \<and> comps = []) \<or> (comps \<noteq> [] \<and> last comps = ''..'')
      then comps @ [part]
      else if comps \<noteq> [] then butlast comps
      else comps)"

definition normpath :: "string \<Rightarrow> string" where
  "normpath s =
     (if s = '''' then ''.''
      else let path = path_root s @
             join_with slash (foldl (normpath_step (path_is_absolute s)) [] (split_on slash s))
        in if path = '''' then ''.'' else path)"

lemma path_root_relative: "\<not> path_is_absolute s \<longleftrightarrow> \<not> prefix [slash] s"
  by (cases s) (auto simp: path_is_absolute_def path_root_def)

lemma path_parts_relative: "\<not> path_is_absolute s \<Longrightarrow> path_parts s = filter is_name (split_on slash s)"
  by (simp add: path_parts_def path_is_absolute_def)

subsection \<open>What a path denotes\<close>

text \<open>
  The lexical meaning of a path: starting in directory \<open>cwd\<close> (or in the root, for an absolute
  path), a component \<open>..\<close> goes to the parent, the empty component and \<open>.\<close> stay, and any
  other component descends. Symbolic links are not followed.
\<close>

definition walk_step :: "string list \<Rightarrow> string \<Rightarrow> string list" where
  "walk_step dir part =
     (if part = '''' \<or> part = ''.'' then dir
      else if part = ''..'' then butlast dir
      else dir @ [part])"

definition walk :: "string list \<Rightarrow> string \<Rightarrow> nat \<Rightarrow> string list" where
  "walk cwd s n =
     foldl walk_step (if path_is_absolute s then [] else cwd) (take n (split_on slash s))"

lemma walk_names:
  "''..'' \<notin> set comps \<Longrightarrow> foldl walk_step dir comps = dir @ filter is_name comps"
  by (induction comps arbitrary: dir) (auto simp: walk_step_def is_name_def)

subsection \<open>The repository-relative check of the plan validator\<close>

text \<open>
  \<open>path.parts[0]\<close> raises \<open>IndexError\<close> when the path has no parts; the conjunction evaluates
  it only when the other three conditions hold.
\<close>

definition is_repository_relative :: "string \<Rightarrow> bool result" where
  "is_repository_relative raw =
     (let normalized = replace_char backslash slash raw;
          parts = path_parts normalized
      in if normalized = '''' \<or> path_is_absolute normalized \<or> ''..'' \<in> set parts then Inr False
         else case parts of [] \<Rightarrow> Inl IndexError
              | first # _ \<Rightarrow> Inr (CHR '':'' \<notin> set first))"

text \<open>The lexical checks of \<open>normalize_worktree_path\<close>; what follows them asks the file system.\<close>

definition normalize_worktree_path :: "string \<Rightarrow> string result" where
  "normalize_worktree_path raw =
     (let normalized = replace_char backslash slash raw;
          parts = path_parts normalized
      in if normalized = '''' \<or> CHR 0x00 \<in> set normalized \<or> path_is_absolute normalized \<or>
            ''..'' \<in> set parts \<or> (parts \<noteq> [] \<and> CHR '':'' \<in> set (hd parts))
         then Inl (ValueError ''path escapes the managed worktree'')
         else Inr (if parts = [] then ''.'' else join_with slash parts))"

lemma is_repository_relative_True:
  assumes "is_repository_relative raw = Inr True"
  defines "s \<equiv> replace_char backslash slash raw"
  shows "\<not> path_is_absolute s" "''..'' \<notin> set (split_on slash s)" "path_parts s \<noteq> []"
    "CHR '':'' \<notin> set (hd (path_parts s))"
proof -
  have facts: "\<not> path_is_absolute s \<and> ''..'' \<notin> set (path_parts s) \<and> path_parts s \<noteq> []
    \<and> CHR '':'' \<notin> set (hd (path_parts s))"
    using assms by (auto simp: is_repository_relative_def Let_def split: if_splits list.splits)
  then show "\<not> path_is_absolute s" "path_parts s \<noteq> []" "CHR '':'' \<notin> set (hd (path_parts s))"
    by simp_all
  show "''..'' \<notin> set (split_on slash s)"
    using facts by (auto simp: path_parts_relative is_name_def)
qed

lemma relative_walk_inside:
  assumes "\<not> path_is_absolute s" and "''..'' \<notin> set (split_on slash s)"
  shows "walk cwd s n = cwd @ filter is_name (take n (split_on slash s))"
  using assms by (auto simp: walk_def dest: in_set_takeD intro!: walk_names)

text \<open>
  Property C21: a path the validator accepts never leaves the repository. Followed component by
  component from any repository root, after every number of components the walk is at the root
  or below it, and at the end strictly below it.
\<close>

theorem repository_relative_never_escapes:
  assumes "is_repository_relative raw = Inr True"
  shows "prefix repo (walk repo (replace_char backslash slash raw) n) \<and>
    strict_prefix repo
      (walk repo (replace_char backslash slash raw)
        (length (split_on slash (replace_char backslash slash raw))))"
proof -
  let ?s = "replace_char backslash slash raw"
  note facts = is_repository_relative_True[OF assms]
  have walk: "walk repo ?s n = repo @ filter is_name (take n (split_on slash ?s))" for n
    by (rule relative_walk_inside[OF facts(1,2)])
  have "filter is_name (split_on slash ?s) \<noteq> []"
    using facts(3) by (simp add: path_parts_relative facts(1))
  then show ?thesis by (simp add: walk strict_prefix_def)
qed

theorem repository_relative_never_escapes_witness:
  "is_repository_relative ''src/./app.py'' = Inr True \<and>
   strict_prefix [''repo''] (walk [''repo''] (replace_char backslash slash ''src/./app.py'') 3)"
proof -
  have ok: "is_repository_relative ''src/./app.py'' = Inr True" by code_simp
  have "length (split_on slash (replace_char backslash slash ''src/./app.py'')) = 3" by code_simp
  with ok show ?thesis
    using repository_relative_never_escapes[OF ok, of "[''repo'']" 0] by simp
qed

lemma split_join_names:
  assumes "ws \<noteq> []" and "\<And>w. w \<in> set ws \<Longrightarrow> is_name w \<and> slash \<notin> set w"
  shows "filter is_name (split_on slash (join_with slash ws)) = ws"
proof -
  have "split_on slash (join_with slash ws) = ws" using assms by (intro split_join) auto
  then show ?thesis using assms(2) by (simp add: filter_id_conv)
qed

lemma set_join_with: "set (join_with c ws) \<subseteq> insert c (\<Union> (set ` set ws))"
  by (induction c ws rule: join_with.induct) auto

lemma set_split_on: "w \<in> set (split_on c s) \<Longrightarrow> set w \<subseteq> set s"
proof (induction s arbitrary: w)
  case Nil
  then show ?case by simp
next
  case (Cons x xs)
  obtain v vs where v: "split_on c xs = v # vs" by (cases "split_on c xs") simp_all
  then have "\<forall>u \<in> set (v # vs). set u \<subseteq> set xs" using Cons.IH by simp
  then show ?case using Cons.prems v by (auto split: if_splits)
qed

lemma join_names_relative:
  assumes "ws \<noteq> []" and "\<And>w. w \<in> set ws \<Longrightarrow> is_name w \<and> slash \<notin> set w"
  shows "join_with slash ws \<noteq> ''''" "\<not> path_is_absolute (join_with slash ws)"
    "path_parts (join_with slash ws) = ws"
proof -
  obtain w vs where w: "ws = w # vs" using assms(1) by (cases ws) simp_all
  have "is_name w \<and> slash \<notin> set w" by (rule assms(2)) (simp add: w)
  with w obtain c w' where ws: "ws = (c # w') # vs" "c \<noteq> slash"
    by (cases w) (auto simp: is_name_def)
  then obtain rest where "join_with slash ws = c # rest" by (cases vs) auto
  then show "join_with slash ws \<noteq> ''''" and rel: "\<not> path_is_absolute (join_with slash ws)"
    using ws by (simp_all add: path_root_relative)
  then show "path_parts (join_with slash ws) = ws"
    by (simp add: path_parts_relative split_join_names[OF assms])
qed

lemma parts_are_names:
  "\<not> path_is_absolute s \<Longrightarrow> w \<in> set (path_parts s) \<Longrightarrow> is_name w \<and> slash \<notin> set w \<and> set w \<subseteq> set s"
  using split_on_free[of w slash s] set_split_on[of w slash s] by (simp add: path_parts_relative)



end
