(* ===== verification/Risk_Policy.thy ===== *)
theory Risk_Policy
  imports Posix_Paths
begin

section \<open>Tool risk\<close>

text \<open>
  \<open>ToolRiskPolicy\<close> of \<open>src/policies/risk/policy_engine.py\<close>. Tool arguments are JSON values;
  an argument object is the association list of its items. The main result is that the
  policy cannot be talked out of a protected directory by the spelling of a path: whatever
  mixture of \<open>.\<close>, \<open>..\<close>, doubled slashes and backslashes an argument uses, if the location
  it denotes lies in or under a protected directory then the calculated risk is at least HIGH.
\<close>

datatype json = JNull | JBool bool | JInt int | JStr string | JList "json list"
  | JObj "(string \<times> json) list"

datatype SideEffectClass = NONE | LOCAL | EXTERNAL

record ToolRiskPolicy =
  protected_paths :: "string list"
  repository_floor :: RiskLevel

definition default_protected_paths :: "string list" where
  "default_protected_paths =
     [''.github/workflows'', ''.git'', ''infra'', ''infrastructure'', ''terraform'']"

definition default_risk_policy :: ToolRiskPolicy where
  "default_risk_policy = \<lparr>protected_paths = default_protected_paths, repository_floor = LOW\<rparr>"

definition normal_text :: "string \<Rightarrow> string" where
  "normal_text raw_path = strip_char slash (normpath (replace_char backslash slash raw_path))"

definition protects :: "string \<Rightarrow> string \<Rightarrow> bool" where
  "protects protected normalized =
     (let parts = path_parts normalized;
          prot_norm = normal_text protected;
          prot_parts = path_parts prot_norm
      in normalized = prot_norm \<or> prefix (prot_norm @ [slash]) normalized \<or>
         (length prot_parts = 1 \<and> hd prot_parts \<in> set parts) \<or>
         list_ex (\<lambda>i. take (length prot_parts) (drop i parts) = prot_parts)
           [0..<Suc (length parts) - length prot_parts])"

definition is_protected_path :: "string \<Rightarrow> string list \<Rightarrow> bool" where
  "is_protected_path raw_path protected_targets =
     (let normalized = normal_text raw_path
      in if normalized = '''' \<or> normalized = ''.'' then False
         else list_ex (\<lambda>protected. protects protected normalized) protected_targets)"

fun string_items :: "json list \<Rightarrow> string list" where
  "string_items [] = []"
| "string_items (JStr s # vs) = s # string_items vs"
| "string_items (_ # vs) = string_items vs"

definition path_keys :: "string set" where
  "path_keys = {''path'', ''paths'', ''target'', ''file'', ''directory''}"

fun argument_paths :: "(string \<times> json) list \<Rightarrow> string list" where
  "argument_paths [] = []"
| "argument_paths ((key, v) # arguments) =
     (if casefold key \<in> path_keys
      then case v of JStr s \<Rightarrow> [s] | JList vs \<Rightarrow> string_items vs | _ \<Rightarrow> [] else [])
     @ argument_paths arguments"

definition calculate ::
  "ToolRiskPolicy \<Rightarrow> RiskLevel \<Rightarrow> string \<Rightarrow> (string \<times> json) list \<Rightarrow> SideEffectClass \<Rightarrow> RiskLevel" where
  "calculate policy base tool_name arguments side_effect =
     (let lowered = casefold tool_name
      in maximum_risk base
        ([repository_floor policy]
         @ (case side_effect of LOCAL \<Rightarrow> [MEDIUM] | EXTERNAL \<Rightarrow> [HIGH] | NONE \<Rightarrow> [])
         @ (if list_ex (\<lambda>path. is_protected_path path (protected_paths policy)) (argument_paths arguments)
            then [HIGH] else [])
         @ (if list_ex (\<lambda>v. contains v lowered) [''delete'', ''destroy'', ''drop'', ''purge'']
            then [HIGH] else [])
         @ (if list_ex (\<lambda>v. contains v lowered) [''deploy'', ''push'', ''commit'', ''pull_request'']
            then [HIGH] else [])))"

subsection \<open>Normalised paths\<close>

lemma normpath_step_names:
  assumes "\<forall>c \<in> set comps. is_name c \<and> slash \<notin> set c" and "slash \<notin> set part"
  shows "\<forall>c \<in> set (normpath_step absolute comps part). is_name c \<and> slash \<notin> set c"
  using assms by (auto simp: normpath_step_def is_name_def dest: in_set_butlastD)

lemma normpath_fold_names:
  assumes "\<forall>w \<in> set ws. slash \<notin> set w" and "\<forall>c \<in> set comps. is_name c \<and> slash \<notin> set c"
  shows "\<forall>c \<in> set (foldl (normpath_step absolute) comps ws). is_name c \<and> slash \<notin> set c"
  using assms
proof (induction ws arbitrary: comps)
  case Nil
  then show ?case by simp
next
  case (Cons w ws)
  have "\<forall>c \<in> set (normpath_step absolute comps w). is_name c \<and> slash \<notin> set c"
    by (rule normpath_step_names[OF Cons.prems(2)]) (simp add: Cons.prems(1))
  moreover have "\<forall>v \<in> set ws. slash \<notin> set v" using Cons.prems(1) by simp
  ultimately show ?case unfolding foldl_Cons by (intro Cons.IH)
qed

text \<open>
  Normalisation agrees with walking the path: the normalised components are some leading
  \<open>..\<close> components followed by the directory the walk from the root arrives at.
\<close>

lemma normpath_step_name:
  "part \<noteq> ''..'' \<Longrightarrow>
   normpath_step absolute (replicate k ''..'' @ dir) part = replicate k ''..'' @ walk_step dir part"
  by (simp add: normpath_step_def walk_step_def)

lemma normpath_step_up:
  "d \<noteq> ''..'' \<Longrightarrow>
   normpath_step absolute (replicate k ''..'' @ dir @ [d]) ''..'' = replicate k ''..'' @ dir"
  by (simp add: normpath_step_def butlast_append)

lemma normpath_step_above:
  "normpath_step absolute (replicate k ''..'') ''..'' = replicate (if absolute \<and> k = 0 then 0 else Suc k) ''..''"
  by (simp add: normpath_step_def replicate_append_same)

lemma normpath_step_walk:
  assumes "comps = replicate k ''..'' @ dir" and "''..'' \<notin> set dir"
  obtains k' where "normpath_step absolute comps part = replicate k' ''..'' @ walk_step dir part"
    and "''..'' \<notin> set (walk_step dir part)"
proof (cases "part = ''..''")
  case False
  show thesis
    by (rule that[of k], unfold assms(1), rule normpath_step_name[OF False])
      (use assms(2) False in \<open>simp add: walk_step_def\<close>)
next
  case True
  show thesis
  proof (cases dir rule: rev_cases)
    case Nil
    have stay: "walk_step dir part = []" by (simp add: Nil True walk_step_def)
    show thesis
      by (rule that[of "if absolute \<and> k = 0 then 0 else Suc k"])
        (simp_all only: assms(1) Nil True stay[unfolded Nil True] append_Nil2 normpath_step_above list.set empty_iff not_False_eq_True)
  next
    case (snoc dir' d)
    have "d \<noteq> ''..''" and free: "''..'' \<notin> set dir'" using assms(2) unfolding snoc by auto
    then have "normpath_step absolute comps part = replicate k ''..'' @ dir'"
      using normpath_step_up[of d absolute k dir'] by (simp add: assms(1) snoc True)
    moreover have "walk_step dir part = dir'" by (simp add: snoc True walk_step_def)
    ultimately show thesis by (intro that[of k]) (simp_all only: free not_False_eq_True)
  qed
qed

lemma normpath_fold_walk:
  assumes "comps = replicate k ''..'' @ dir" and "''..'' \<notin> set dir"
  obtains k' where
    "foldl (normpath_step absolute) comps ws = replicate k' ''..'' @ foldl walk_step dir ws"
  using assms
proof (induction ws arbitrary: comps k dir thesis)
  case Nil
  show ?case by (rule Nil.prems(1)) (simp only: foldl_Nil Nil.prems(2))
next
  case (Cons w ws)
  obtain k' where step: "normpath_step absolute comps w = replicate k' ''..'' @ walk_step dir w"
    and free: "''..'' \<notin> set (walk_step dir w)"
    by (rule normpath_step_walk[OF Cons.prems(2,3)])
  show ?case
    by (rule Cons.IH[OF _ step free], rule Cons.prems(1), simp only: foldl_Cons)
qed

definition normal_comps :: "string \<Rightarrow> string list" where
  "normal_comps s = foldl (normpath_step (path_is_absolute s)) [] (split_on slash s)"

lemma normal_comps_names: "\<forall>c \<in> set (normal_comps s). is_name c \<and> slash \<notin> set c"
  unfolding normal_comps_def using split_on_free by (intro normpath_fold_names) auto

lemma normal_comps_walk:
  "\<exists>k. normal_comps s = replicate k ''..'' @ walk [] s (length (split_on slash s))"
proof -
  obtain k where "foldl (normpath_step (path_is_absolute s)) [] (split_on slash s) =
      replicate k ''..'' @ foldl walk_step [] (split_on slash s)"
    by (rule normpath_fold_walk[of "[]" 0 "[]"]) simp_all
  then show ?thesis by (intro exI[of _ k]) (simp add: normal_comps_def walk_def)
qed

lemma strip_char_slashes: "strip_char c (replicate n c @ s) = strip_char c s"
  by (induction n) (simp_all add: strip_char_def)

lemma path_root_slashes: "\<exists>n. path_root s = replicate n slash"
  by (rule exI[of _ "length (path_root s)"]) (simp add: path_root_def)

lemma last_join_with: "ws \<noteq> [] \<Longrightarrow> last ws \<noteq> [] \<Longrightarrow> join_with c ws \<noteq> [] \<and> last (join_with c ws) = last (last ws)"
  by (induction c ws rule: join_with.induct) auto

lemma strip_join_names:
  assumes "ws \<noteq> []" and names: "\<forall>w \<in> set ws. is_name w \<and> slash \<notin> set w"
  shows "strip_char slash (join_with slash ws) = join_with slash ws"
proof -
  have rel: "\<not> path_is_absolute (join_with slash ws)" and ne: "join_with slash ws \<noteq> ''''"
    using join_names_relative[OF assms(1)] names by blast+
  have "last ws \<in> set ws" using assms(1) by simp
  then have l: "last ws \<noteq> []" "slash \<notin> set (last ws)" using names by (auto simp: is_name_def)
  then have "last (join_with slash ws) \<noteq> slash"
    using last_join_with[OF assms(1) l(1), of slash] last_in_set[OF l(1)] by metis
  moreover have "hd (join_with slash ws) \<noteq> slash"
    using rel ne by (cases "join_with slash ws") (auto simp: path_root_relative)
  ultimately show ?thesis
    using ne by (simp add: strip_char_def dropWhile_eq_self_iff[THEN iffD2] hd_rev)
qed

lemma normal_comps_empty_text: "normal_comps '''' = []"
  by (simp add: normal_comps_def normpath_step_def)

lemma normpath_comps:
  assumes "normal_comps s \<noteq> []"
  shows "normpath s = path_root s @ join_with slash (normal_comps s)"
proof -
  have "s \<noteq> ''''" using assms normal_comps_empty_text by blast
  moreover have "join_with slash (normal_comps s) \<noteq> ''''"
    using join_names_relative(1)[OF assms] normal_comps_names by blast
  ultimately show ?thesis by (simp add: normpath_def normal_comps_def[symmetric])
qed

lemma normal_text_comps:
  fixes raw :: string
  assumes "normal_comps (replace_char backslash slash raw) = comps" and "comps \<noteq> []"
  shows "normal_text raw = join_with slash comps" "path_parts (normal_text raw) = comps"
proof -
  let ?s = "replace_char backslash slash raw"
  have names: "\<forall>w \<in> set comps. is_name w \<and> slash \<notin> set w"
    using normal_comps_names[of ?s] assms(1) by simp
  obtain n where "path_root ?s = replicate n slash" using path_root_slashes by blast
  then have "normpath ?s = replicate n slash @ join_with slash comps"
    using normpath_comps[of ?s] assms by simp
  then show joined: "normal_text raw = join_with slash comps"
    by (simp add: normal_text_def strip_char_slashes strip_join_names[OF assms(2) names])
  show "path_parts (normal_text raw) = comps"
    unfolding joined using names by (intro join_names_relative(3)[OF assms(2)]) blast
qed

lemma protects_sublist:
  assumes "prot_parts = path_parts (normal_text protected)"
    and "sublist prot_parts (path_parts normalized)"
  shows "protects protected normalized"
proof -
  obtain before after where split: "path_parts normalized = before @ prot_parts @ after"
    using assms(2) by (auto simp: sublist_def)
  have "take (length prot_parts) (drop (length before) (path_parts normalized)) = prot_parts"
    by (simp add: split)
  moreover have "length before \<in> set [0..<Suc (length (path_parts normalized)) - length prot_parts]"
    by (simp add: split)
  ultimately have "list_ex (\<lambda>i. take (length prot_parts) (drop i (path_parts normalized)) = prot_parts)
      [0..<Suc (length (path_parts normalized)) - length prot_parts]"
    unfolding list_ex_iff by (rule bexI)
  then show ?thesis by (simp only: protects_def Let_def assms(1) simp_thms)
qed

lemma protected_location:
  assumes "protected \<in> set targets"
    and "path_parts (normal_text protected) \<noteq> []"
    and "sublist (path_parts (normal_text protected))
           (walk [] (replace_char backslash slash raw) (length (split_on slash (replace_char backslash slash raw))))"
  shows "is_protected_path raw targets"
proof -
  let ?s = "replace_char backslash slash raw"
  obtain k where k: "normal_comps ?s = replicate k ''..'' @ walk [] ?s (length (split_on slash ?s))"
    using normal_comps_walk by blast
  have sub: "sublist (path_parts (normal_text protected)) (normal_comps ?s)"
    using assms(3) by (simp add: k sublist_appendI sublist_append)
  then have ne: "normal_comps ?s \<noteq> []" using assms(2) by auto
  note facts = normal_text_comps[OF refl ne]
  have "path_parts '''' = []" and "path_parts ''.'' = []" by code_simp+
  then have "normal_text raw \<noteq> ''''" and "normal_text raw \<noteq> ''.''" using facts(2) ne by metis+
  then show ?thesis
    using assms(1) sub protects_sublist[OF refl, of protected "normal_text raw"]
    by (auto simp: is_protected_path_def Let_def list_ex_iff facts(2))
qed

text \<open>
  Property C22: a tool call whose path argument denotes a location in or under a protected
  directory is at least HIGH risk, however the path is spelled.
\<close>

theorem protected_location_is_high_risk:
  assumes "raw \<in> set (argument_paths arguments)"
    and "protected \<in> set (protected_paths policy)"
    and "path_parts (normal_text protected) \<noteq> []"
    and "sublist (path_parts (normal_text protected))
           (walk [] (replace_char backslash slash raw)
              (length (split_on slash (replace_char backslash slash raw))))"
  shows "HIGH \<le> calculate policy base tool_name arguments side_effect"
proof -
  have "is_protected_path raw (protected_paths policy)"
    by (rule protected_location[OF assms(2-4)])
  then have ex: "list_ex (\<lambda>path. is_protected_path path (protected_paths policy)) (argument_paths arguments)"
    using assms(1) by (auto simp: list_ex_iff)
  show ?thesis unfolding calculate_def Let_def by (rule maximum_risk_ge) (simp add: ex)
qed

theorem protected_location_is_high_risk_witness:
  "HIGH \<le> calculate default_risk_policy LOW ''read_file''
     [(''path'', JStr ''src/../.github//workflows/ci.yml'')] NONE"
proof (rule protected_location_is_high_risk)
  show "''src/../.github//workflows/ci.yml'' \<in>
    set (argument_paths [(''path'', JStr ''src/../.github//workflows/ci.yml'')])" by code_simp
  show "''.github/workflows'' \<in> set (protected_paths default_risk_policy)"
    by (simp add: default_risk_policy_def default_protected_paths_def)
  show "path_parts (normal_text ''.github/workflows'') \<noteq> []" by code_simp
  have target: "path_parts (normal_text ''.github/workflows'') = [''.github'', ''workflows'']"
    by code_simp
  have place: "walk [] (replace_char backslash slash ''src/../.github//workflows/ci.yml'')
      (length (split_on slash (replace_char backslash slash ''src/../.github//workflows/ci.yml'')))
    = [''.github'', ''workflows'', ''ci.yml'']" by code_simp
  show "sublist (path_parts (normal_text ''.github/workflows''))
      (walk [] (replace_char backslash slash ''src/../.github//workflows/ci.yml'')
        (length (split_on slash (replace_char backslash slash ''src/../.github//workflows/ci.yml''))))"
    unfolding target place by simp
qed

text \<open>
  The calculated risk is never below the tool's base risk or the repository's
  floor, is at least HIGH for an external effect, and the rules alone never raise it above
  HIGH: CRITICAL only comes from the base risk or the floor.
\<close>

theorem calculate_bounds:
  "base \<le> calculate policy base tool_name arguments side_effect \<and>
   repository_floor policy \<le> calculate policy base tool_name arguments side_effect \<and>
   calculate policy base tool_name arguments side_effect
     \<le> max (max base (repository_floor policy)) HIGH \<and>
   (side_effect = EXTERNAL \<longrightarrow> HIGH \<le> calculate policy base tool_name arguments side_effect)"
proof -
  let ?r = "calculate policy base tool_name arguments side_effect"
  have "base \<le> ?r" and "repository_floor policy \<le> ?r"
    unfolding calculate_def Let_def by (rule maximum_risk_ge, simp)+
  moreover have "?r \<in> {base, repository_floor policy, MEDIUM, HIGH}"
    unfolding calculate_def Let_def
    by (rule subsetD[OF _ maximum_risk_mem]) (auto split: SideEffectClass.splits)
  then have "?r \<le> max (max base (repository_floor policy)) HIGH"
  proof -
    have "MEDIUM \<le> HIGH" by (simp add: less_eq_RiskLevel_def)
    with \<open>?r \<in> _\<close> show ?thesis by (auto simp: le_max_iff_disj)
  qed
  moreover have "HIGH \<le> ?r" if "side_effect = EXTERNAL"
    unfolding calculate_def Let_def by (rule maximum_risk_ge) (simp add: that)
  ultimately show ?thesis by blast
qed

theorem calculate_bounds_witness:
  "HIGH \<le> calculate default_risk_policy LOW ''fetch'' [] EXTERNAL"
  using calculate_bounds[of LOW default_risk_policy "''fetch''" "[]" EXTERNAL] by simp

end
