(* ===== verification/Plan_Model.thy ===== *)
theory Plan_Model
  imports Risk_Policy
begin

section \<open>Contract models of a plan\<close>

text \<open>
  The plan part of \<open>src/domain/models.py\<close>. Every pydantic model is a record with the
  source's fields behind a short prefix (\<open>ts_\<close> for \<open>TaskSpec\<close>, \<open>plan_\<close> for \<open>TaskPlan\<close>,
  and so on), because the source uses the same field name in several classes. The field
  constraints of a model are the predicate \<open>..._fields\<close> and its \<open>model_validator\<close> is the
  fallible function of the same name; \<open>..._model\<close> is the constructor: pydantic checks the
  fields first, then runs the validator, and reports either as \<open>ValidationError\<close>.
  White space is taken to be stripped already.
\<close>

record BudgetPolicy =
  bp_model_tokens :: int
  bp_cost_usd :: usd
  bp_wall_time_seconds :: int
  bp_cpu_time_ms :: int
  bp_memory_time_byte_seconds :: int
  bp_network_requests :: int
  bp_network_bytes :: int
  bp_output_bytes :: int

definition BudgetPolicy_fields :: "BudgetPolicy \<Rightarrow> bool" where
  "BudgetPolicy_fields b \<longleftrightarrow> 0 \<le> bp_model_tokens b \<and> 0 \<le> bp_cost_usd b \<and>
     0 \<le> bp_wall_time_seconds b \<and> 0 \<le> bp_cpu_time_ms b \<and> 0 \<le> bp_memory_time_byte_seconds b \<and>
     0 \<le> bp_network_requests b \<and> 0 \<le> bp_network_bytes b \<and> 0 \<le> bp_output_bytes b"

definition default_BudgetPolicy :: BudgetPolicy where
  "default_BudgetPolicy = \<lparr>bp_model_tokens = 0, bp_cost_usd = 0, bp_wall_time_seconds = 0,
     bp_cpu_time_ms = 0, bp_memory_time_byte_seconds = 0, bp_network_requests = 0,
     bp_network_bytes = 0, bp_output_bytes = 0\<rparr>"

record ResourceEstimate =
  re_cpu_time_ms :: int
  re_peak_memory_bytes :: int
  re_model_tokens :: int
  re_sandbox_slots :: int
  re_network_requests :: int
  re_wall_time_seconds :: int

definition ResourceEstimate_fields :: "ResourceEstimate \<Rightarrow> bool" where
  "ResourceEstimate_fields e \<longleftrightarrow> 0 \<le> re_cpu_time_ms e \<and> 0 \<le> re_peak_memory_bytes e \<and>
     0 \<le> re_model_tokens e \<and> 0 \<le> re_sandbox_slots e \<and> re_sandbox_slots e \<le> 1 \<and>
     0 \<le> re_network_requests e \<and> 0 \<le> re_wall_time_seconds e"

definition default_ResourceEstimate :: ResourceEstimate where
  "default_ResourceEstimate = \<lparr>re_cpu_time_ms = 0, re_peak_memory_bytes = 0, re_model_tokens = 0,
     re_sandbox_slots = 0, re_network_requests = 0, re_wall_time_seconds = 0\<rparr>"

record RetryPolicy =
  rp_max_attempts :: int
  rp_initial_backoff_seconds :: rat
  rp_maximum_backoff_seconds :: rat

definition RetryPolicy_fields :: "RetryPolicy \<Rightarrow> bool" where
  "RetryPolicy_fields r \<longleftrightarrow> 1 \<le> rp_max_attempts r \<and> rp_max_attempts r \<le> 20 \<and>
     0 \<le> rp_initial_backoff_seconds r \<and> rp_initial_backoff_seconds r \<le> 3600 \<and>
     0 \<le> rp_maximum_backoff_seconds r \<and> rp_maximum_backoff_seconds r \<le> 86400"

definition backoff_is_ordered :: "RetryPolicy \<Rightarrow> RetryPolicy result" where
  "backoff_is_ordered r =
     (if rp_maximum_backoff_seconds r < rp_initial_backoff_seconds r
      then Inl (ValueError ''initial backoff cannot exceed maximum backoff'') else Inr r)"

definition default_RetryPolicy :: RetryPolicy where
  "default_RetryPolicy = \<lparr>rp_max_attempts = 3, rp_initial_backoff_seconds = 1,
     rp_maximum_backoff_seconds = 60\<rparr>"

record PlanLimits =
  pl_max_dynamic_tasks :: int
  pl_max_plan_depth :: int
  pl_max_total_budget_usd :: usd
  pl_max_total_execution_seconds :: int

definition PlanLimits_fields :: "PlanLimits \<Rightarrow> bool" where
  "PlanLimits_fields l \<longleftrightarrow> 0 \<le> pl_max_dynamic_tasks l \<and> pl_max_dynamic_tasks l \<le> 1000 \<and>
     1 \<le> pl_max_plan_depth l \<and> pl_max_plan_depth l \<le> 100 \<and> 0 < pl_max_total_budget_usd l \<and>
     1 \<le> pl_max_total_execution_seconds l \<and> pl_max_total_execution_seconds l \<le> 604800"

record TaskSpec =
  ts_id :: uuid
  ts_plan_revision :: int
  ts_project_id :: uuid
  ts_repository_id :: uuid
  ts_title :: string
  ts_description :: string
  ts_task_type :: TaskType
  ts_dependencies :: "uuid list"
  ts_priority :: int
  ts_assigned_capability :: string
  ts_acceptance_criteria :: "string list"
  ts_allowed_tools :: "string list"
  ts_risk_ceiling :: RiskLevel
  ts_expected_artifacts :: "string list"
  ts_repository_paths :: "string list"
  ts_retry_policy :: RetryPolicy
  ts_budget :: BudgetPolicy
  ts_estimate :: ResourceEstimate

definition text_ok :: "int \<Rightarrow> string \<Rightarrow> bool" where
  "text_ok maximum s \<longleftrightarrow> 1 \<le> int (length s) \<and> int (length s) \<le> maximum"

definition texts_ok :: "int \<Rightarrow> int \<Rightarrow> string list \<Rightarrow> bool" where
  "texts_ok items maximum ss \<longleftrightarrow> int (length ss) \<le> items \<and> list_all (text_ok maximum) ss"

definition TaskSpec_fields :: "TaskSpec \<Rightarrow> bool" where
  "TaskSpec_fields t \<longleftrightarrow> 1 \<le> ts_plan_revision t \<and> text_ok 300 (ts_title t) \<and>
     text_ok 20000 (ts_description t) \<and> length (ts_dependencies t) \<le> 500 \<and>
     -1000 \<le> ts_priority t \<and> ts_priority t \<le> 1000 \<and> text_ok 100 (ts_assigned_capability t) \<and>
     texts_ok 100 1000 (ts_acceptance_criteria t) \<and> texts_ok 100 100 (ts_allowed_tools t) \<and>
     texts_ok 100 100 (ts_expected_artifacts t) \<and> texts_ok 1000 1024 (ts_repository_paths t) \<and>
     RetryPolicy_fields (ts_retry_policy t) \<and> backoff_is_ordered (ts_retry_policy t) = Inr (ts_retry_policy t) \<and>
     BudgetPolicy_fields (ts_budget t) \<and> ResourceEstimate_fields (ts_estimate t)"

definition dependencies_are_valid :: "TaskSpec \<Rightarrow> TaskSpec result" where
  "dependencies_are_valid t =
     (if ts_id t \<in> set (ts_dependencies t) then Inl (ValueError ''task cannot depend on itself'')
      else if card (set (ts_dependencies t)) \<noteq> length (ts_dependencies t)
      then Inl (ValueError ''task dependencies must be unique'')
      else Inr t)"

definition TaskSpec_model :: "TaskSpec \<Rightarrow> TaskSpec result" where
  "TaskSpec_model t =
     (if \<not> TaskSpec_fields t then Inl (ValidationError ''TaskSpec'')
      else case dependencies_are_valid t of Inl _ \<Rightarrow> Inl (ValidationError ''TaskSpec'') | Inr t' \<Rightarrow> Inr t')"

record TaskPlan =
  plan_run_id :: uuid
  plan_project_id :: uuid
  plan_repository_id :: uuid
  plan_baseline_commit :: string
  plan_revision :: int
  plan_tasks :: "TaskSpec list"
  plan_limits :: PlanLimits

definition is_hex_digit :: "char \<Rightarrow> bool" where
  "is_hex_digit c \<longleftrightarrow> c \<in> set ''0123456789abcdef''"

definition is_sha256 :: "string \<Rightarrow> bool" where
  "is_sha256 s \<longleftrightarrow> length s = 64 \<and> list_all is_hex_digit s"

definition is_commit_sha :: "string \<Rightarrow> bool" where
  "is_commit_sha s \<longleftrightarrow> 40 \<le> length s \<and> length s \<le> 64 \<and> list_all is_hex_digit s"

definition TaskPlan_fields :: "TaskPlan \<Rightarrow> bool" where
  "TaskPlan_fields p \<longleftrightarrow> is_commit_sha (plan_baseline_commit p) \<and> 1 \<le> plan_revision p \<and>
     1 \<le> length (plan_tasks p) \<and> length (plan_tasks p) \<le> 500 \<and> PlanLimits_fields (plan_limits p) \<and>
     list_all (\<lambda>t. TaskSpec_model t = Inr t) (plan_tasks p)"

definition scope_error :: "TaskPlan \<Rightarrow> TaskSpec \<Rightarrow> py_error option" where
  "scope_error p t =
     (if ts_project_id t \<noteq> plan_project_id p \<or> ts_repository_id t \<noteq> plan_repository_id p
      then Some (ValueError ''task scope must match plan scope'')
      else if plan_revision p < ts_plan_revision t
      then Some (ValueError ''task creation revision cannot exceed plan revision'')
      else None)"

definition task_scope_matches_plan :: "TaskPlan \<Rightarrow> TaskPlan result" where
  "task_scope_matches_plan p =
     (if \<not> distinct (map ts_id (plan_tasks p))
      then Inl (ValueError ''task IDs must be unique within a plan'')
      else case List.map_filter (scope_error p) (plan_tasks p) of
             [] \<Rightarrow> Inr p | e # _ \<Rightarrow> Inl e)"

definition TaskPlan_model :: "TaskPlan \<Rightarrow> TaskPlan result" where
  "TaskPlan_model p =
     (if \<not> TaskPlan_fields p then Inl (ValidationError ''TaskPlan'')
      else case task_scope_matches_plan p of Inl _ \<Rightarrow> Inl (ValidationError ''TaskPlan'') | Inr p' \<Rightarrow> Inr p')"

record TaskPlanMutation =
  mut_mutation_id :: uuid
  mut_base_revision :: int
  mut_reason :: string
  mut_tasks :: "TaskSpec list"

definition TaskPlanMutation_fields :: "TaskPlanMutation \<Rightarrow> bool" where
  "TaskPlanMutation_fields m \<longleftrightarrow> 1 \<le> mut_base_revision m \<and> text_ok 20000 (mut_reason m) \<and>
     1 \<le> length (mut_tasks m) \<and> length (mut_tasks m) \<le> 500 \<and>
     list_all (\<lambda>t. TaskSpec_model t = Inr t) (mut_tasks m)"

subsection \<open>What the constructors guarantee\<close>

lemma dependencies_are_valid_Inr:
  "dependencies_are_valid t = Inr t' \<longleftrightarrow>
   t' = t \<and> ts_id t \<notin> set (ts_dependencies t) \<and> distinct (ts_dependencies t)"
  by (auto simp: dependencies_are_valid_def distinct_card card_distinct)

lemma TaskSpec_model_Inr:
  "TaskSpec_model t = Inr t' \<longleftrightarrow>
   t' = t \<and> TaskSpec_fields t \<and> ts_id t \<notin> set (ts_dependencies t) \<and> distinct (ts_dependencies t)"
proof -
  have "TaskSpec_model t = Inr t' \<longleftrightarrow> TaskSpec_fields t \<and> dependencies_are_valid t = Inr t'"
    by (auto simp: TaskSpec_model_def split: sum.splits if_splits)
  then show ?thesis by (auto simp: dependencies_are_valid_Inr)
qed

lemma scope_error_None:
  "scope_error p t = None \<longleftrightarrow> ts_project_id t = plan_project_id p \<and>
     ts_repository_id t = plan_repository_id p \<and> ts_plan_revision t \<le> plan_revision p"
  by (auto simp: scope_error_def)

lemma map_filter_Nil: "List.map_filter f xs = [] \<longleftrightarrow> (\<forall>x \<in> set xs. f x = None)"
  by (induction xs) (auto simp: List.map_filter_def)

lemma task_scope_matches_plan_Inr:
  "task_scope_matches_plan p = Inr p' \<longleftrightarrow>
   p' = p \<and> keyed ts_id (plan_tasks p) \<and> (\<forall>t \<in> set (plan_tasks p). scope_error p t = None)"
  using map_filter_Nil[of "scope_error p" "plan_tasks p"]
  by (auto simp: task_scope_matches_plan_def keyed_def split: list.splits)

lemma TaskPlan_model_Inr:
  "TaskPlan_model p = Inr p' \<longleftrightarrow>
   p' = p \<and> TaskPlan_fields p \<and> keyed ts_id (plan_tasks p) \<and>
   (\<forall>t \<in> set (plan_tasks p). scope_error p t = None)"
proof -
  have "TaskPlan_model p = Inr p' \<longleftrightarrow> TaskPlan_fields p \<and> task_scope_matches_plan p = Inr p'"
    by (auto simp: TaskPlan_model_def split: sum.splits if_splits)
  then show ?thesis by (auto simp: task_scope_matches_plan_Inr)
qed

text \<open>The definitions that evaluate the contract checks on a concrete value.\<close>

lemmas contract_simps =
  TaskPlan_model_Inr TaskPlan_fields_def TaskSpec_model_Inr TaskSpec_fields_def scope_error_def
  text_ok_def texts_ok_def RetryPolicy_fields_def backoff_is_ordered_def default_RetryPolicy_def
  BudgetPolicy_fields_def default_BudgetPolicy_def ResourceEstimate_fields_def
  default_ResourceEstimate_def PlanLimits_fields_def is_commit_sha_def is_hex_digit_def list_all_iff

text \<open>A task with nothing but an identifier, a type and dependencies, for concrete inputs.\<close>

definition plain_task :: "uuid \<Rightarrow> TaskType \<Rightarrow> uuid list \<Rightarrow> TaskSpec" where
  "plain_task i ty deps = \<lparr>ts_id = i, ts_plan_revision = 1, ts_project_id = 1, ts_repository_id = 2,
     ts_title = ''t'', ts_description = ''d'', ts_task_type = ty, ts_dependencies = deps,
     ts_priority = 0, ts_assigned_capability = hd (TASK_CAPABILITY_NAMES ty),
     ts_acceptance_criteria = [''ok''], ts_allowed_tools = [], ts_risk_ceiling = LOW,
     ts_expected_artifacts = [], ts_repository_paths = [''src''], ts_retry_policy = default_RetryPolicy,
     ts_budget = default_BudgetPolicy, ts_estimate = default_ResourceEstimate\<rparr>"

lemma plain_task_simps [simp]:
  "ts_id (plain_task i ty deps) = i" "ts_dependencies (plain_task i ty deps) = deps"
  "ts_task_type (plain_task i ty deps) = ty"
  by (simp_all add: plain_task_def)

end
