(* ===== verification/Plan_Graph.thy ===== *)
theory Plan_Graph
  imports Plan_Model "HOL-Library.AList"
begin

section \<open>The dependency graph of a plan\<close>

text \<open>
  The graph algorithms of \<open>TaskPlanValidator\<close> in \<open>src/planning/validator.py\<close>:
  \<open>_topological_order\<close> (Kahn's algorithm on a binary heap), \<open>_maximum_depth\<close> and
  \<open>_has_final_validation_sink\<close>. The dictionary \<open>tasks_by_id\<close> is the list of its values in
  insertion order: every key is the \<open>id\<close> of its value. A heap entry \<open>(task_id.int, task_id)\<close>
  is the identifier itself, which is its own integer here.

  The specification side is the relation \<open>depends_on\<close> of a task list: the order the
  algorithm returns is topological, it is complete exactly when the relation is acyclic, the
  depth is the length of a longest dependency chain, and the sink test says what its error
  message says.
\<close>

subsection \<open>The heap interface\<close>

text \<open>
  \<open>heapq\<close> promises that \<open>heappop\<close> removes and returns a smallest entry; the order of the
  other entries in the underlying list is not observable.
\<close>

locale min_queue =
  fixes push :: "'q \<Rightarrow> 'a::linorder \<Rightarrow> 'q"
    and pop :: "'q \<Rightarrow> 'a \<times> 'q"
    and entries :: "'q \<Rightarrow> 'a multiset"
  assumes push_entries: "entries (push q x) = add_mset x (entries q)"
    and pop_entries: "entries q \<noteq> {#} \<Longrightarrow> entries q = add_mset (fst (pop q)) (entries (snd (pop q)))"
    and pop_least: "entries q \<noteq> {#} \<Longrightarrow> x \<in># entries q \<Longrightarrow> fst (pop q) \<le> x"
begin

lemma pop_mem: "entries q \<noteq> {#} \<Longrightarrow> fst (pop q) \<in># entries q"
  by (subst pop_entries) simp_all

lemma pop_size: "entries q \<noteq> {#} \<Longrightarrow> size (entries q) = Suc (size (entries (snd (pop q))))"
  using pop_entries[of q] by (metis size_add_mset)

lemma push_push_pop:
  assumes "x \<le> y"
  shows "fst (pop (push (push q x) y)) \<le> x"
  by (rule pop_least) (simp_all add: push_entries)

end

definition heappush :: "uuid list \<Rightarrow> uuid \<Rightarrow> uuid list" where
  "heappush heap item = item # heap"

definition heappop :: "uuid list \<Rightarrow> uuid \<times> uuid list" where
  "heappop heap = (let least = Min (set heap) in (least, remove1 least heap))"

interpretation heap: min_queue heappush heappop mset
proof
  fix q :: "uuid list" and x :: uuid
  show "mset (heappush q x) = add_mset x (mset q)" by (simp add: heappush_def)
  show "mset q = add_mset (fst (heappop q)) (mset (snd (heappop q)))" if "mset q \<noteq> {#}"
  proof -
    have "Min (set q) \<in> set q" using that by (intro Min_in) auto
    then show ?thesis by (simp add: heappop_def Let_def)
  qed
  show "fst (heappop q) \<le> x" if "x \<in># mset q" using that by (simp add: heappop_def Let_def)
qed

subsection \<open>\<open>_topological_order\<close>\<close>

definition ids :: "TaskSpec list \<Rightarrow> uuid set" where
  "ids tasks_by_id = ts_id ` set tasks_by_id"

definition count_edge ::
  "TaskSpec list \<Rightarrow> TaskSpec \<Rightarrow> uuid \<Rightarrow> (uuid \<Rightarrow> int) \<times> (uuid \<times> uuid list) list
     \<Rightarrow> (uuid \<Rightarrow> int) \<times> (uuid \<times> uuid list) list" where
  "count_edge tasks_by_id task dependency s =
     (if dependency \<in> ids tasks_by_id
      then ((fst s)(ts_id task := fst s (ts_id task) + 1),
            AList.map_entry dependency (\<lambda>ds. ds @ [ts_id task]) (snd s))
      else s)"

definition build_edges :: "TaskSpec list \<Rightarrow> (uuid \<Rightarrow> int) \<times> (uuid \<times> uuid list) list" where
  "build_edges tasks_by_id =
     fold (\<lambda>task. fold (count_edge tasks_by_id task) (ts_dependencies task)) tasks_by_id
       (\<lambda>_. 0, map (\<lambda>task. (ts_id task, [])) tasks_by_id)"

text \<open>The inner loop: decrement the dependents' counts and push those that reach zero.\<close>

fun release :: "uuid list \<Rightarrow> (uuid \<Rightarrow> int) \<Rightarrow> uuid list \<Rightarrow> (uuid \<Rightarrow> int) \<times> uuid list" where
  "release [] indegree ready = (indegree, ready)"
| "release (dependant # rest) indegree ready =
     (let indegree' = indegree(dependant := indegree dependant - 1)
      in release rest indegree'
           (if indegree' dependant = 0 then heappush ready dependant else ready))"

definition dependents_of :: "(uuid \<times> uuid list) list \<Rightarrow> uuid \<Rightarrow> uuid list" where
  "dependents_of dependents task_id = (case map_of dependents task_id of None \<Rightarrow> [] | Some ds \<Rightarrow> ds)"

definition waiting :: "(uuid \<times> uuid list) list \<Rightarrow> (uuid \<Rightarrow> int) \<Rightarrow> uuid set" where
  "waiting dependents indegree = {v \<in> \<Union> (set ` snd ` set dependents). 0 < indegree v}"

lemma finite_waiting [simp]: "finite (waiting dependents indegree)"
  by (auto simp: waiting_def)

lemma dependents_of_subset: "set (dependents_of dependents v) \<subseteq> \<Union> (set ` snd ` set dependents)"
proof (cases "map_of dependents v")
  case None
  then show ?thesis by (simp add: dependents_of_def)
next
  case (Some ds)
  then have "(v, ds) \<in> set dependents" by (rule map_of_SomeD)
  then show ?thesis using Some by (force simp: dependents_of_def)
qed

lemma release_measure:
  assumes "set ds \<subseteq> \<Union> (set ` snd ` set dependents)" and "release ds indegree ready = (indegree', ready')"
  shows "card (waiting dependents indegree') + length ready' \<le> card (waiting dependents indegree) + length ready"
  using assms
proof (induction ds indegree ready rule: release.induct)
  case (1 indegree ready)
  then show ?case by simp
next
  case (2 d ds indegree ready)
  let ?i = "indegree(d := indegree d - 1)"
  let ?r = "if ?i d = 0 then heappush ready d else ready"
  have rel: "release ds ?i ?r = (indegree', ready')" using "2.prems"(2) by (simp add: Let_def)
  have "card (waiting dependents ?i) + length ?r \<le> card (waiting dependents indegree) + length ready"
  proof (cases "indegree d = 1")
    case True
    then have eq: "waiting dependents ?i = waiting dependents indegree - {d}"
      and mem: "d \<in> waiting dependents indegree"
      using "2.prems"(1) by (auto simp: waiting_def)
    have "Suc (card (waiting dependents ?i)) = card (waiting dependents indegree)"
      unfolding eq by (rule card_Suc_Diff1[OF finite_waiting mem])
    then show ?thesis using True by (simp add: heappush_def)
  next
    case False
    have "waiting dependents ?i \<subseteq> waiting dependents indegree" by (auto simp: waiting_def)
    then have "card (waiting dependents ?i) \<le> card (waiting dependents indegree)"
      by (intro card_mono) simp_all
    then show ?thesis using False by simp
  qed
  moreover have "card (waiting dependents indegree') + length ready'
      \<le> card (waiting dependents ?i) + length ?r"
    by (rule "2.IH"[OF refl _ rel]) (use "2.prems"(1) in simp)
  ultimately show ?case by linarith
qed

text \<open>
  The outer loop. Every iteration pops one entry, and an entry is pushed only when its count
  drops to zero, so the number of entries plus the number of tasks with a positive count falls.
\<close>

function drain ::
  "(uuid \<times> uuid list) list \<Rightarrow> (uuid \<Rightarrow> int) \<Rightarrow> uuid list \<Rightarrow> uuid list \<Rightarrow> uuid list" where
  "drain dependents indegree ready done_ids =
     (if ready = [] then done_ids
      else let (task_id, rest) = heappop ready;
               (indegree', ready') = release (sort (dependents_of dependents task_id)) indegree rest
           in drain dependents indegree' ready' (done_ids @ [task_id]))"
  by pat_completeness auto
termination
proof (relation "measure (\<lambda>(dependents, indegree, ready, _). card (waiting dependents indegree) + length ready)")
  show "wf (measure (\<lambda>(dependents, indegree, ready, _ :: uuid list).
    card (waiting dependents indegree) + length ready))" by simp
next
  fix dependents :: "(uuid \<times> uuid list) list" and indegree :: "uuid \<Rightarrow> int"
    and ready done_ids rest ready' :: "uuid list" and popped pair task_id indegree'
  assume "ready \<noteq> []" and pop: "popped = heappop ready" "(task_id, rest) = popped"
    and "pair = release (sort (dependents_of dependents task_id)) indegree rest"
    and "(indegree', ready') = pair"
  then have rel: "release (sort (dependents_of dependents task_id)) indegree rest = (indegree', ready')"
    by simp
  have "size (mset ready) = Suc (size (mset rest))"
    using heap.pop_size[of ready] \<open>ready \<noteq> []\<close> pop by (cases "heappop ready") simp
  moreover have "card (waiting dependents indegree') + length ready'
      \<le> card (waiting dependents indegree) + length rest"
    using release_measure[OF _ rel, of dependents] dependents_of_subset by simp
  ultimately show "((dependents, indegree', ready', done_ids @ [task_id]),
      dependents, indegree, ready, done_ids)
    \<in> measure (\<lambda>(dependents, indegree, ready, _). card (waiting dependents indegree) + length ready)"
    by simp
qed

declare drain.simps [simp del]

definition topological_order :: "TaskSpec list \<Rightarrow> uuid list" where
  "topological_order tasks_by_id =
     (let (indegree, dependents) = build_edges tasks_by_id;
          ready = [task_id \<leftarrow> map ts_id tasks_by_id. indegree task_id = 0]
      in drain dependents indegree ready [])"

subsection \<open>The relation the order has to respect\<close>

definition in_plan_deps :: "TaskSpec list \<Rightarrow> uuid \<Rightarrow> uuid list" where
  "in_plan_deps tasks v =
     (case row_get ts_id v tasks of None \<Rightarrow> []
      | Some t \<Rightarrow> filter (\<lambda>d. d \<in> ids tasks) (ts_dependencies t))"

definition depends_on :: "TaskSpec list \<Rightarrow> (uuid \<times> uuid) set" where
  "depends_on tasks = {(v, d). d \<in> set (in_plan_deps tasks v)}"

lemma in_plan_deps_ids: "d \<in> set (in_plan_deps tasks v) \<Longrightarrow> d \<in> ids tasks \<and> v \<in> ids tasks"
  using row_get_Some[of ts_id v tasks] by (cases "row_get ts_id v tasks") (auto simp: in_plan_deps_def ids_def)

lemma in_plan_deps_task:
  "keyed ts_id tasks \<Longrightarrow> t \<in> set tasks \<Longrightarrow>
   in_plan_deps tasks (ts_id t) = filter (\<lambda>d. d \<in> ids tasks) (ts_dependencies t)"
  by (simp add: in_plan_deps_def keyed_row_get)

lemma in_plan_deps_outside: "v \<notin> ids tasks \<Longrightarrow> in_plan_deps tasks v = []"
  by (simp add: in_plan_deps_def ids_def row_get_None[THEN iffD2])

lemma depends_on_ids: "depends_on tasks \<subseteq> ids tasks \<times> ids tasks"
  using in_plan_deps_ids by (auto simp: depends_on_def)

lemma finite_depends_on [simp]: "finite (depends_on tasks)"
  by (rule finite_subset[OF depends_on_ids]) (simp add: ids_def)

subsection \<open>What \<open>build_edges\<close> builds\<close>

lemma dependents_of_map_entry:
  "dependents_of (AList.map_entry k f al) d =
   (if d = k \<and> d \<in> fst ` set al then f (dependents_of al d) else dependents_of al d)"
proof (cases "map_of al d")
  case None
  then have "d \<notin> fst ` set al" by (simp add: map_of_eq_None_iff)
  with None show ?thesis by (auto simp: dependents_of_def map_of_map_entry)
next
  case (Some ds)
  then have "d \<in> fst ` set al" by (force dest: map_of_SomeD)
  with Some show ?thesis by (auto simp: dependents_of_def map_of_map_entry)
qed

lemma count_edge_keys: "fst ` set (snd (count_edge tasks t x s)) = fst ` set (snd s)"
  by (simp add: count_edge_def dom_map_entry)

lemma count_edge_effect:
  assumes "fst ` set (snd s) = ids tasks" and "d \<in> ids tasks"
  shows "fst (count_edge tasks t x s) v = fst s v + (if v = ts_id t \<and> x \<in> ids tasks then 1 else 0)"
    and "count_list (dependents_of (snd (count_edge tasks t x s)) d) v =
      count_list (dependents_of (snd s) d) v + (if v = ts_id t \<and> x = d then 1 else 0)"
  using assms by (auto simp: count_edge_def dependents_of_map_entry)

lemma count_edges_effect:
  assumes "fst ` set (snd s) = ids tasks"
  shows "fst ` set (snd (fold (count_edge tasks t) xs s)) = ids tasks"
    and "d \<in> ids tasks \<Longrightarrow> fst (fold (count_edge tasks t) xs s) v =
      fst s v + (if v = ts_id t then int (length (filter (\<lambda>d. d \<in> ids tasks) xs)) else 0)"
    and "d \<in> ids tasks \<Longrightarrow> count_list (dependents_of (snd (fold (count_edge tasks t) xs s)) d) v =
      count_list (dependents_of (snd s) d) v + (if v = ts_id t then count_list xs d else 0)"
  using assms
proof (induction xs arbitrary: s)
  case Nil
  case 1 then show ?case by simp
  case 2 then show ?case by simp
  case 3 then show ?case by simp
next
  case (Cons x xs)
  have keys: "fst ` set (snd (count_edge tasks t x s)) = ids tasks"
    if "fst ` set (snd s) = ids tasks" for s using that by (simp add: count_edge_keys)
  case 1
  show ?case using Cons.IH(1)[OF keys[OF 1]] by simp
  case 2
  show ?case using Cons.IH(2)[OF 2(1) keys[OF 2(2)]] count_edge_effect(1)[OF 2(2,1), of t x v] by simp
  case 3
  show ?case using Cons.IH(3)[OF 3(1) keys[OF 3(2)]] count_edge_effect(2)[OF 3(2,1), of t x v] by simp
qed

lemma build_fold_effect:
  fixes tasks :: "TaskSpec list"
  assumes "fst ` set (snd s) = ids tasks" and "d \<in> ids tasks"
  defines "s' \<equiv> \<lambda>ts. fold (\<lambda>task. fold (count_edge tasks task) (ts_dependencies task)) ts s"
  shows "fst ` set (snd (s' ts)) = ids tasks \<and>
    fst (s' ts) v = fst s v +
      (\<Sum>t\<leftarrow>ts. if v = ts_id t then int (length (filter (\<lambda>d. d \<in> ids tasks) (ts_dependencies t))) else 0) \<and>
    count_list (dependents_of (snd (s' ts)) d) v = count_list (dependents_of (snd s) d) v +
      (\<Sum>t\<leftarrow>ts. if v = ts_id t then count_list (ts_dependencies t) d else 0)"
proof (induction ts rule: rev_induct)
  case Nil
  then show ?case by (simp add: assms)
next
  case (snoc t ts)
  then have keys: "fst ` set (snd (s' ts)) = ids tasks" by blast
  have step: "s' (ts @ [t]) = fold (count_edge tasks t) (ts_dependencies t) (s' ts)"
    by (simp add: s'_def)
  show ?case
    using snoc count_edges_effect[where t = t and xs = "ts_dependencies t", OF keys] assms(2) by (simp add: step)
qed

lemma keyed_sum:
  fixes f :: "TaskSpec \<Rightarrow> 'n::comm_monoid_add"
  assumes "keyed ts_id tasks"
  shows "(\<Sum>t\<leftarrow>tasks. if v = ts_id t then f t else 0) =
    (case row_get ts_id v tasks of None \<Rightarrow> 0 | Some t \<Rightarrow> f t)"
  using assms
proof (induction tasks)
  case Nil
  then show ?case by simp
next
  case (Cons t ts)
  then have keyed: "keyed ts_id ts" and fresh: "ts_id t \<notin> ts_id ` set ts" by (auto simp: keyed_def)
  show ?case using Cons.IH[OF keyed] fresh row_get_None[of ts_id "ts_id t" ts] by auto
qed

lemma count_list_filter: "P x \<Longrightarrow> count_list (filter P xs) x = count_list xs x"
  by (induction xs) auto

lemma build_edges_spec:
  assumes "keyed ts_id tasks" and "d \<in> ids tasks"
  shows "fst (build_edges tasks) v = int (length (in_plan_deps tasks v))"
    and "count_list (dependents_of (snd (build_edges tasks)) d) v = count_list (in_plan_deps tasks v) d"
proof -
  let ?s0 = "(\<lambda>_. 0, map (\<lambda>task. (ts_id task, [])) tasks) :: (uuid \<Rightarrow> int) \<times> (uuid \<times> uuid list) list"
  have keys: "fst ` set (snd ?s0) = ids tasks" by (force simp: ids_def)
  have empty: "dependents_of (map (\<lambda>task. (ts_id task, [])) tasks) d = []"
    by (auto simp: dependents_of_def split: option.splits dest!: map_of_SomeD)
  note effect = build_fold_effect[OF keys assms(2), of tasks v, folded build_edges_def]
  show "fst (build_edges tasks) v = int (length (in_plan_deps tasks v))"
    using effect keyed_sum[OF assms(1), of v "\<lambda>t. int (length (filter (\<lambda>d. d \<in> ids tasks) (ts_dependencies t)))"]
    by (simp add: in_plan_deps_def split: option.splits)
  show "count_list (dependents_of (snd (build_edges tasks)) d) v = count_list (in_plan_deps tasks v) d"
    using effect keyed_sum[OF assms(1), of v "\<lambda>t. count_list (ts_dependencies t) d"] assms(2)
    by (simp add: empty in_plan_deps_def count_list_filter split: option.splits)
qed

subsection \<open>Correctness of the order\<close>

lemma release_spec:
  assumes "\<forall>v. int (count_list ds v) \<le> indegree v"
    and "\<forall>v \<in> set ready. indegree v = 0" and "distinct ready"
    and "release ds indegree ready = (indegree', ready')"
  shows "indegree' = (\<lambda>v. indegree v - int (count_list ds v))"
    and "set ready' = set ready \<union> {v \<in> set ds. indegree v = int (count_list ds v)}"
    and "distinct ready'"
proof -
  have "indegree' = (\<lambda>v. indegree v - int (count_list ds v)) \<and>
    set ready' = set ready \<union> {v \<in> set ds. indegree v = int (count_list ds v)} \<and> distinct ready'"
    using assms
  proof (induction ds indegree ready rule: release.induct)
    case (1 indegree ready)
    then show ?case by simp
  next
    case (2 d ds indegree ready)
    let ?i = "indegree(d := indegree d - 1)"
    let ?r = "if ?i d = 0 then heappush ready d else ready"
    have rel: "release ds ?i ?r = (indegree', ready')" using "2.prems"(4) by (simp add: Let_def)
    have pos: "1 + int (count_list ds d) \<le> indegree d" using "2.prems"(1)[rule_format, of d] by simp
    then have fresh: "d \<notin> set ready" using "2.prems"(2) by force
    have counts: "\<forall>v. int (count_list ds v) \<le> ?i v"
    proof
      fix v show "int (count_list ds v) \<le> ?i v"
        using "2.prems"(1)[rule_format, of v] pos by (auto split: if_splits)
    qed
    have zero: "\<forall>v \<in> set ?r. ?i v = 0" using "2.prems"(2) fresh by (auto simp: heappush_def)
    have dist: "distinct ?r" using "2.prems"(3) fresh by (simp add: heappush_def)
    note IH = "2.IH"[OF refl counts zero dist rel]
    have "indegree' = (\<lambda>v. indegree v - int (count_list (d # ds) v))" using IH by auto
    moreover have "set ready' = set ready \<union> {v \<in> set (d # ds). indegree v = int (count_list (d # ds) v)}"
    proof -
      have "count_list ds d = 0 \<longleftrightarrow> d \<notin> set ds" by (simp add: count_list_0_iff)
      then show ?thesis using IH pos by (auto simp: heappush_def)
    qed
    ultimately show ?case using IH by blast
  qed
  then show "indegree' = (\<lambda>v. indegree v - int (count_list ds v))"
    "set ready' = set ready \<union> {v \<in> set ds. indegree v = int (count_list ds v)}" "distinct ready'"
    by blast+
qed

text \<open>Every element of the list comes after its in-plan dependencies.\<close>

fun deps_first :: "TaskSpec list \<Rightarrow> uuid set \<Rightarrow> uuid list \<Rightarrow> bool" where
  "deps_first tasks seen [] \<longleftrightarrow> True"
| "deps_first tasks seen (v # vs) \<longleftrightarrow>
     set (in_plan_deps tasks v) \<subseteq> seen \<and> deps_first tasks (insert v seen) vs"

lemma deps_first_append:
  "deps_first tasks seen (vs @ ws) \<longleftrightarrow> deps_first tasks seen vs \<and> deps_first tasks (seen \<union> set vs) ws"
  by (induction vs arbitrary: seen) auto

lemma deps_first_nth:
  assumes "deps_first tasks {} order" and "i < length order" and "d \<in> set (in_plan_deps tasks (order ! i))"
  shows "\<exists>j < i. order ! j = d"
proof -
  have "order = take i order @ order ! i # drop (Suc i) order" using assms(2) by (rule id_take_nth_drop)
  then have "deps_first tasks {} (take i order @ order ! i # drop (Suc i) order)" using assms(1) by metis
  then have "d \<in> set (take i order)" using assms(3) by (auto simp: deps_first_append)
  then show ?thesis using assms(2) by (auto simp: in_set_conv_nth)
qed

definition kahn_inv :: "TaskSpec list \<Rightarrow> (uuid \<Rightarrow> int) \<Rightarrow> uuid list \<Rightarrow> uuid list \<Rightarrow> bool" where
  "kahn_inv tasks indegree ready done_ids \<longleftrightarrow>
     distinct (done_ids @ ready) \<and> set (done_ids @ ready) \<subseteq> ids tasks \<and>
     (\<forall>v. indegree v = int (length (filter (\<lambda>d. d \<notin> set done_ids) (in_plan_deps tasks v)))) \<and>
     (\<forall>v \<in> ids tasks. indegree v = 0 \<longleftrightarrow> v \<in> set (done_ids @ ready)) \<and>
     deps_first tasks {} done_ids"

lemma filter_notin_insert:
  "x \<notin> A \<Longrightarrow> length (filter (\<lambda>d. d \<notin> A) xs) = length (filter (\<lambda>d. d \<notin> insert x A) xs) + count_list xs x"
  by (induction xs) auto

lemma kahn_step:
  assumes inv: "kahn_inv tasks indegree ready done_ids" and "ready \<noteq> []"
    and pop: "heappop ready = (x, rest)"
    and counts: "\<And>v. count_list ds v = count_list (in_plan_deps tasks v) x"
    and rel: "release ds indegree rest = (indegree', ready')"
  shows "kahn_inv tasks indegree' ready' (done_ids @ [x])"
proof -
  have ms: "mset ready = add_mset x (mset rest)" using heap.pop_entries[of ready] assms(2) pop by simp
  then have ready: "set ready = insert x (set rest)" by (metis set_mset_add_mset_insert set_mset_mset)
  have "distinct ready" using inv by (simp add: kahn_inv_def)
  then have dist: "distinct rest" "x \<notin> set rest"
    using ms by (metis distinct.simps(2) mset.simps(2) mset_eq_imp_distinct_iff)+
  have x: "x \<notin> set done_ids" "x \<in> ids tasks" "set rest \<inter> set done_ids = {}" "set rest \<subseteq> ids tasks"
    using inv ready by (auto simp: kahn_inv_def)
  have ind: "indegree v = int (length (filter (\<lambda>d. d \<notin> insert x (set done_ids)) (in_plan_deps tasks v)))
      + int (count_list ds v)" for v
    using inv filter_notin_insert[OF x(1), of "in_plan_deps tasks v"] by (simp add: kahn_inv_def counts)
  have ge: "int (count_list ds v) \<le> indegree v" for v using ind[of v] by linarith
  have zero: "indegree v = 0" if "v \<in> set ready" for v
    using inv that by (auto simp: kahn_inv_def)
  have spec: "indegree' = (\<lambda>v. indegree v - int (count_list ds v))"
    "set ready' = set rest \<union> {v \<in> set ds. indegree v = int (count_list ds v)}" "distinct ready'"
    using release_spec[OF _ _ dist(1) rel] ind zero ready by auto
  have ds: "v \<in> set ds \<longleftrightarrow> 0 < count_list ds v" for v by (metis count_list_0_iff gr0I less_irrefl)
  have ds_ids: "v \<in> ids tasks" if "v \<in> set ds" for v
    using that in_plan_deps_ids[of x tasks v] counts[of v] ds[of v] by (metis count_list_0_iff gr_implies_not0)
  have old: "v \<in> ids tasks \<Longrightarrow> indegree v = 0 \<longleftrightarrow> v \<in> set done_ids \<or> v = x \<or> v \<in> set rest" for v
    using inv ready by (auto simp: kahn_inv_def)
  have "distinct ((done_ids @ [x]) @ ready')"
  proof -
    have "v \<notin> set done_ids \<and> v \<noteq> x" if "v \<in> set ready'" for v
      using that x dist(2) ds[of v] ds_ids[of v] old[of v] by (auto simp: spec(2))
    then show ?thesis using inv spec(3) x(1) by (auto simp: kahn_inv_def)
  qed
  moreover have "set ((done_ids @ [x]) @ ready') \<subseteq> ids tasks"
    using inv x ds_ids by (auto simp: kahn_inv_def spec(2))
  moreover have "indegree' v = int (length (filter (\<lambda>d. d \<notin> set (done_ids @ [x])) (in_plan_deps tasks v)))" for v
    using ind[of v] by (simp add: spec(1))
  moreover have "indegree' v = 0 \<longleftrightarrow> v \<in> set ((done_ids @ [x]) @ ready')" if "v \<in> ids tasks" for v
    using old[OF that] ds[of v] ge[of v] by (cases "count_list ds v = 0") (auto simp: spec(1,2))
  moreover have "deps_first tasks {} (done_ids @ [x])"
  proof -
    have "filter (\<lambda>d. d \<notin> set done_ids) (in_plan_deps tasks x) = []"
      using inv zero[of x] ready by (simp add: kahn_inv_def)
    then show ?thesis using inv by (auto simp: deps_first_append kahn_inv_def filter_empty_conv)
  qed
  ultimately show ?thesis unfolding kahn_inv_def by blast
qed

lemma count_list_sort [simp]: "count_list (sort xs) v = count_list xs v"
  by (metis count_mset mset_sort)

lemma drain_inv:
  assumes "kahn_inv tasks indegree ready done_ids"
    and "\<And>x v. x \<in> ids tasks \<Longrightarrow>
      count_list (dependents_of dependents x) v = count_list (in_plan_deps tasks v) x"
  shows "\<exists>indegree'. kahn_inv tasks indegree' [] (drain dependents indegree ready done_ids)"
  using assms
proof (induction dependents indegree ready done_ids rule: drain.induct)
  case (1 dependents indegree ready done_ids)
  show ?case
  proof (cases "ready = []")
    case True
    then show ?thesis using "1.prems"(1) by (subst drain.simps) auto
  next
    case False
    obtain x rest where pop: "heappop ready = (x, rest)" by (cases "heappop ready")
    obtain indegree' ready' where
      rel: "release (sort (dependents_of dependents x)) indegree rest = (indegree', ready')"
      by (cases "release (sort (dependents_of dependents x)) indegree rest")
    have "x \<in> set ready" using heap.pop_mem[of ready] False pop by simp
    then have "x \<in> ids tasks" using "1.prems"(1) by (auto simp: kahn_inv_def)
    then have "kahn_inv tasks indegree' ready' (done_ids @ [x])"
      using kahn_step[OF "1.prems"(1) False pop _ rel] "1.prems"(2) by simp
    then have "\<exists>i. kahn_inv tasks i [] (drain dependents indegree' ready' (done_ids @ [x]))"
      using "1.IH"[OF False pop[symmetric] refl rel[symmetric] refl] "1.prems"(2) by blast
    then show ?thesis using False pop rel by (subst drain.simps) simp
  qed
qed

lemma topological_order_spec:
  assumes "keyed ts_id tasks"
  shows "distinct (topological_order tasks)" "set (topological_order tasks) \<subseteq> ids tasks"
    "deps_first tasks {} (topological_order tasks)"
    "\<And>v. v \<in> ids tasks \<Longrightarrow>
      v \<in> set (topological_order tasks) \<longleftrightarrow> set (in_plan_deps tasks v) \<subseteq> set (topological_order tasks)"
proof -
  obtain indegree dependents where built: "build_edges tasks = (indegree, dependents)"
    by (cases "build_edges tasks")
  let ?ready = "[task_id \<leftarrow> map ts_id tasks. indegree task_id = 0]"
  have indegree: "indegree v = int (length (in_plan_deps tasks v))" for v
  proof (cases "tasks = []")
    case True
    then show ?thesis using built by (auto simp: build_edges_def in_plan_deps_def)
  next
    case False
    then have "ts_id (hd tasks) \<in> ids tasks" by (simp add: ids_def)
    then show ?thesis using build_edges_spec(1)[OF assms] built by simp
  qed
  have "distinct ?ready" using assms by (simp add: keyed_def)
  then have "kahn_inv tasks indegree ?ready []"
    by (auto simp: kahn_inv_def indegree ids_def)
  then obtain i where inv: "kahn_inv tasks i [] (topological_order tasks)"
    using drain_inv[of tasks indegree ?ready "[]" dependents] build_edges_spec(2)[OF assms] built
    by (auto simp: topological_order_def)
  then show "distinct (topological_order tasks)" "set (topological_order tasks) \<subseteq> ids tasks"
    "deps_first tasks {} (topological_order tasks)"
    by (simp_all add: kahn_inv_def)
  show "v \<in> set (topological_order tasks) \<longleftrightarrow>
    set (in_plan_deps tasks v) \<subseteq> set (topological_order tasks)" if "v \<in> ids tasks" for v
  proof -
    have "\<forall>v \<in> ids tasks. i v = 0 \<longleftrightarrow> v \<in> set (topological_order tasks @ [])"
      using inv unfolding kahn_inv_def by blast
    then have "i v = 0 \<longleftrightarrow> v \<in> set (topological_order tasks)" using that by simp
    moreover have "i v = 0 \<longleftrightarrow> set (in_plan_deps tasks v) \<subseteq> set (topological_order tasks)"
      using inv by (auto simp: kahn_inv_def filter_empty_conv)
    ultimately show ?thesis by simp
  qed
qed

lemma card_ids: "keyed ts_id tasks \<Longrightarrow> card (ids tasks) = length tasks"
  using distinct_card[of "map ts_id tasks"] by (simp add: keyed_def ids_def)

lemma complete_order_iff:
  assumes "keyed ts_id tasks"
  shows "length (topological_order tasks) = length tasks \<longleftrightarrow> set (topological_order tasks) = ids tasks"
proof -
  note spec = topological_order_spec(1,2)[OF assms]
  have "finite (ids tasks)" by (simp add: ids_def)
  then show ?thesis
    using spec card_ids[OF assms] distinct_card[OF spec(1)] card_subset_eq[of "ids tasks"] by metis
qed

lemma order_acyclic:
  assumes "keyed ts_id tasks" and "set (topological_order tasks) = ids tasks"
  shows "acyclic (depends_on tasks)"
proof (rule acyclicI_order)
  let ?order = "topological_order tasks"
  let ?pos = "\<lambda>v. LEAST i. i < length ?order \<and> ?order ! i = v"
  fix v d assume "(v, d) \<in> depends_on tasks"
  then have dep: "d \<in> set (in_plan_deps tasks v)" by (simp add: depends_on_def)
  then have "v \<in> set ?order" using in_plan_deps_ids assms(2) by blast
  then obtain k where "k < length ?order \<and> ?order ! k = v" by (auto simp: in_set_conv_nth)
  then have v: "?pos v < length ?order" "?order ! ?pos v = v"
    using LeastI[of "\<lambda>i. i < length ?order \<and> ?order ! i = v"] by blast+
  obtain j where j: "j < ?pos v" "?order ! j = d"
    using deps_first_nth[OF topological_order_spec(3)[OF assms(1)] v(1)] dep v(2) by auto
  have "?pos d \<le> j" by (rule Least_le) (use j v(1) in simp)
  then show "?pos d < ?pos v" using j(1) by simp
qed

lemma acyclic_order:
  assumes "keyed ts_id tasks" and "acyclic (depends_on tasks)"
  shows "set (topological_order tasks) = ids tasks"
proof
  show "set (topological_order tasks) \<subseteq> ids tasks" by (rule topological_order_spec(2)[OF assms(1)])
  have wf: "wf ((depends_on tasks)\<inverse>)" by (rule finite_acyclic_wf_converse[OF finite_depends_on assms(2)])
  have "v \<in> ids tasks \<longrightarrow> v \<in> set (topological_order tasks)" for v
  proof (induction v rule: wf_induct_rule[OF wf])
    case (1 v)
    show ?case
    proof
      assume v: "v \<in> ids tasks"
      have "d \<in> set (topological_order tasks)" if "d \<in> set (in_plan_deps tasks v)" for d
        using 1[of d] that in_plan_deps_ids[OF that] by (simp add: depends_on_def)
      then show "v \<in> set (topological_order tasks)"
        using topological_order_spec(4)[OF assms(1) v] by blast
    qed
  qed
  then show "ids tasks \<subseteq> set (topological_order tasks)" by blast
qed

text \<open>
  \<open>_topological_order\<close> returns every task at most once and each task only after
  all the dependencies it has in the plan.
\<close>

theorem topological_order_sound:
  assumes "keyed ts_id tasks"
  shows "distinct (topological_order tasks) \<and> set (topological_order tasks) \<subseteq> ids tasks \<and>
    (\<forall>i < length (topological_order tasks). \<forall>d.
       (topological_order tasks ! i, d) \<in> depends_on tasks \<longrightarrow>
       (\<exists>j < i. topological_order tasks ! j = d))"
  using topological_order_spec[OF assms] deps_first_nth by (auto simp: depends_on_def)

definition diamond :: "TaskSpec list" where
  "diamond = [plain_task 4 VALIDATION [2, 3], plain_task 3 TEST [1], plain_task 2 TEST [1],
     plain_task 1 RESEARCH []]"

lemma diamond_keyed: "keyed ts_id diamond"
  by (simp add: keyed_def diamond_def)

lemma diamond_order: "topological_order diamond = [1, 2, 3, 4]"
  by code_simp

theorem topological_order_sound_witness:
  "\<exists>j < 3. topological_order diamond ! j = 2"
proof -
  have "(4, 2) \<in> depends_on diamond"
    by (simp add: depends_on_def in_plan_deps_def diamond_def ids_def)
  then show ?thesis
    using topological_order_sound[OF diamond_keyed] by (auto simp: diamond_order dest!: spec[of _ 3])
qed

lemma order_complete_acyclic:
  assumes "keyed ts_id tasks"
  shows "length (topological_order tasks) = length tasks \<longleftrightarrow> acyclic (depends_on tasks)"
  using complete_order_iff[OF assms] order_acyclic[OF assms] acyclic_order[OF assms] by blast

text \<open>
  Property C16: the order is complete, so that no CYCLE issue is reported, exactly when the
  dependencies contain no cycle.
\<close>

theorem topological_order_complete_iff_acyclic:
  assumes "keyed ts_id tasks"
  shows "length (topological_order tasks) = length tasks \<longleftrightarrow> acyclic (depends_on tasks)"
  using assms by (rule order_complete_acyclic)

theorem topological_order_complete_iff_acyclic_witness:
  "acyclic (depends_on diamond) \<and>
   \<not> acyclic (depends_on [plain_task 1 TEST [2], plain_task 2 TEST [1]])"
proof -
  have "keyed ts_id [plain_task 1 TEST [2], plain_task 2 TEST [1]]" by (simp add: keyed_def)
  moreover have "topological_order [plain_task 1 TEST [2], plain_task 2 TEST [1]] = []" by code_simp
  ultimately show ?thesis
    using topological_order_complete_iff_acyclic[OF diamond_keyed]
      topological_order_complete_iff_acyclic[of "[plain_task 1 TEST [2], plain_task 2 TEST [1]]"]
    by (simp add: diamond_order) (simp add: diamond_def)
qed

subsection \<open>\<open>_maximum_depth\<close>\<close>

definition max_default :: "int list \<Rightarrow> int" where
  "max_default xs = (if xs = [] then 0 else Max (set xs))"

fun depth_loop :: "TaskSpec list \<Rightarrow> uuid list \<Rightarrow> (uuid \<times> int) list \<Rightarrow> (uuid \<times> int) list result" where
  "depth_loop tasks_by_id [] depths = Inr depths"
| "depth_loop tasks_by_id (task_id # order) depths =
     (case row_get ts_id task_id tasks_by_id of
        None \<Rightarrow> Inl KeyError
      | Some task \<Rightarrow>
          let dependencies = List.map_filter (map_of depths) (ts_dependencies task)
          in depth_loop tasks_by_id order (AList.update task_id (1 + max_default dependencies) depths))"

definition maximum_depth :: "TaskSpec list \<Rightarrow> uuid list \<Rightarrow> int result" where
  "maximum_depth tasks_by_id order =
     bnd (depth_loop tasks_by_id order []) (\<lambda>depths. Inr (max_default (map snd depths)))"

definition dependency_chain :: "TaskSpec list \<Rightarrow> uuid list \<Rightarrow> bool" where
  "dependency_chain tasks c \<longleftrightarrow> c \<noteq> [] \<and> set c \<subseteq> ids tasks \<and>
     successively (\<lambda>v d. (v, d) \<in> depends_on tasks) c"

definition chain_depth :: "TaskSpec list \<Rightarrow> uuid \<Rightarrow> int \<Rightarrow> bool" where
  "chain_depth tasks v n \<longleftrightarrow>
     (\<exists>c. dependency_chain tasks (v # c) \<and> int (length (v # c)) = n) \<and>
     (\<forall>c. dependency_chain tasks (v # c) \<longrightarrow> int (length (v # c)) \<le> n)"

lemma chain_Cons:
  "dependency_chain tasks (v # c) \<longleftrightarrow> v \<in> ids tasks \<and>
     (c = [] \<or> (v, hd c) \<in> depends_on tasks \<and> dependency_chain tasks c)"
  by (cases c) (auto simp: dependency_chain_def)

lemma max_default_mem: "xs \<noteq> [] \<Longrightarrow> max_default xs \<in> set xs"
  by (simp add: max_default_def)

lemma max_default_ge: "x \<in> set xs \<Longrightarrow> x \<le> max_default xs"
  by (auto simp: max_default_def)

lemma chain_depth_step:
  assumes "v \<in> ids tasks"
    and "set ns = {n. \<exists>d. (v, d) \<in> depends_on tasks \<and> D d = Some n}"
    and "\<And>d. (v, d) \<in> depends_on tasks \<Longrightarrow> \<exists>n. D d = Some n \<and> chain_depth tasks d n"
  shows "chain_depth tasks v (1 + max_default ns)"
  unfolding chain_depth_def
proof (intro conjI allI impI)
  show "\<exists>c. dependency_chain tasks (v # c) \<and> int (length (v # c)) = 1 + max_default ns"
  proof (cases "ns = []")
    case True
    then show ?thesis using assms(1) by (intro exI[of _ "[]"]) (simp add: chain_Cons max_default_def)
  next
    case False
    then obtain d where d: "(v, d) \<in> depends_on tasks" "D d = Some (max_default ns)"
      using max_default_mem[OF False] assms(2) by blast
    then obtain c where "dependency_chain tasks (d # c)" "int (length (d # c)) = max_default ns"
      using assms(3)[OF d(1)] by (auto simp: chain_depth_def)
    then show ?thesis using d(1) assms(1) by (intro exI[of _ "d # c"]) (simp add: chain_Cons[of _ v])
  qed
next
  fix c assume chain: "dependency_chain tasks (v # c)"
  show "int (length (v # c)) \<le> 1 + max_default ns"
  proof (cases c)
    case Nil
    have "0 \<le> max_default ns"
    proof (cases "ns = []")
      case True
      then show ?thesis by (simp add: max_default_def)
    next
      case False
      then obtain d where d: "(v, d) \<in> depends_on tasks" "D d = Some (max_default ns)"
        using max_default_mem[OF False] assms(2) by blast
      then obtain c where "int (length (d # c)) = max_default ns"
        using assms(3)[OF d(1)] by (auto simp: chain_depth_def)
      then show ?thesis by linarith
    qed
    then show ?thesis using Nil by simp
  next
    case (Cons d c')
    then have dep: "(v, d) \<in> depends_on tasks" and sub: "dependency_chain tasks (d # c')"
      using chain by (simp_all add: chain_Cons[of _ v])
    obtain n where n: "D d = Some n" "chain_depth tasks d n" using assms(3)[OF dep] by blast
    have "int (length (d # c')) \<le> n" using n(2) sub by (auto simp: chain_depth_def)
    also have "n \<le> max_default ns" by (rule max_default_ge) (use dep n(1) assms(2) in auto)
    finally show ?thesis using Cons by simp
  qed
qed

lemma set_map_filter: "set (List.map_filter f xs) = {y. \<exists>x \<in> set xs. f x = Some y}"
  by (induction xs) (auto simp: List.map_filter_def)

lemma depth_loop_spec:
  assumes "keyed ts_id tasks" and "deps_first tasks (set (map fst depths)) order"
    and "set order \<subseteq> ids tasks" and "set (map fst depths) \<subseteq> ids tasks"
    and "\<And>v n. map_of depths v = Some n \<Longrightarrow> chain_depth tasks v n" and "distinct (map fst depths)"
  shows "\<exists>depths'. depth_loop tasks order depths = Inr depths' \<and> distinct (map fst depths') \<and>
    set (map fst depths') = set (map fst depths) \<union> set order \<and>
    (\<forall>v n. map_of depths' v = Some n \<longrightarrow> chain_depth tasks v n)"
  using assms(2-)
proof (induction order arbitrary: depths)
  case Nil
  then show ?case by simp
next
  case (Cons v order)
  obtain t where t: "t \<in> set tasks" "ts_id t = v" using Cons.prems(2) by (auto simp: ids_def)
  let ?ns = "List.map_filter (map_of depths) (ts_dependencies t)"
  let ?depths = "AList.update v (1 + max_default ?ns) depths"
  have deps: "in_plan_deps tasks v = filter (\<lambda>d. d \<in> ids tasks) (ts_dependencies t)"
    using in_plan_deps_task[OF assms(1) t(1)] t(2) by simp
  have known: "d \<in> ids tasks" if "map_of depths d = Some n" for d n
    using that Cons.prems(3) by (force dest: map_of_SomeD)
  have ns: "set ?ns = {n. \<exists>d. (v, d) \<in> depends_on tasks \<and> map_of depths d = Some n}"
    using known by (auto simp: set_map_filter depends_on_def deps)
  have "\<exists>n. map_of depths d = Some n \<and> chain_depth tasks d n" if "(v, d) \<in> depends_on tasks" for d
  proof -
    have "d \<in> fst ` set depths" using that Cons.prems(1) by (auto simp: depends_on_def)
    then obtain n where "map_of depths d = Some n" by (meson map_of_eq_None_iff not_None_eq)
    then show ?thesis using Cons.prems(4) by blast
  qed
  then have depth: "chain_depth tasks v (1 + max_default ?ns)"
    using chain_depth_step[OF _ ns] Cons.prems(2) by simp
  have loop: "depth_loop tasks (v # order) depths = depth_loop tasks order ?depths"
    using keyed_row_get[OF assms(1) t(1)] t(2) by (simp add: Let_def)
  have keys: "set (map fst ?depths) = insert v (set (map fst depths))"
    by (simp add: dom_update)
  have "\<exists>depths'. depth_loop tasks order ?depths = Inr depths' \<and> distinct (map fst depths') \<and>
    set (map fst depths') = set (map fst ?depths) \<union> set order \<and>
    (\<forall>v n. map_of depths' v = Some n \<longrightarrow> chain_depth tasks v n)"
  proof (rule Cons.IH)
    show "deps_first tasks (set (map fst ?depths)) order" using Cons.prems(1) unfolding keys by simp
    show "set order \<subseteq> ids tasks" "set (map fst ?depths) \<subseteq> ids tasks"
      using Cons.prems(2,3) unfolding keys by simp_all
    show "chain_depth tasks u n" if "map_of ?depths u = Some n" for u n
      using that Cons.prems(4) depth by (auto simp: update_conv' split: if_splits)
    show "distinct (map fst ?depths)" using Cons.prems(5) by (rule distinct_update)
  qed
  then show ?case unfolding loop keys by auto
qed

lemma maximum_depth_total:
  assumes "keyed ts_id tasks"
  obtains depths where "maximum_depth tasks (topological_order tasks) = Inr (max_default (map snd depths))"
    "distinct (map fst depths)" "set (map fst depths) = set (topological_order tasks)"
    "\<And>v n. map_of depths v = Some n \<Longrightarrow> chain_depth tasks v n"
proof -
  note spec = topological_order_spec[OF assms]
  obtain depths where "depth_loop tasks (topological_order tasks) [] = Inr depths"
    "distinct (map fst depths)" "set (map fst depths) = set (topological_order tasks)"
    "\<forall>v n. map_of depths v = Some n \<longrightarrow> chain_depth tasks v n"
    using depth_loop_spec[OF assms, of "[]" "topological_order tasks"] spec(2,3) by auto
  then show thesis using that by (simp add: maximum_depth_def)
qed

lemma depth_longest_chain:
  assumes "keyed ts_id tasks" and "acyclic (depends_on tasks)"
  shows "\<exists>m. maximum_depth tasks (topological_order tasks) = Inr m \<and>
    (\<forall>c. dependency_chain tasks c \<longrightarrow> int (length c) \<le> m) \<and>
    (if tasks = [] then m = 0 else \<exists>c. dependency_chain tasks c \<and> int (length c) = m)"
proof -
  obtain depths where depths: "maximum_depth tasks (topological_order tasks) = Inr (max_default (map snd depths))"
    "distinct (map fst depths)" "set (map fst depths) = set (topological_order tasks)"
    "\<And>v n. map_of depths v = Some n \<Longrightarrow> chain_depth tasks v n"
    by (rule maximum_depth_total[OF assms(1)]) blast
  have keys: "set (map fst depths) = ids tasks" using depths(3) acyclic_order[OF assms] by simp
  have "int (length c) \<le> max_default (map snd depths)" if chain: "dependency_chain tasks c" for c
  proof -
    obtain v c' where c: "c = v # c'" using chain by (cases c) (auto simp: dependency_chain_def)
    then have "v \<in> fst ` set depths" using chain keys by (simp add: dependency_chain_def)
    then obtain n where n: "(v, n) \<in> set depths" by auto
    then have "map_of depths v = Some n" using depths(2) by simp
    then have "int (length c) \<le> n" using depths(4) chain c by (auto simp: chain_depth_def)
    also have "n \<le> max_default (map snd depths)" using n by (force intro: max_default_ge)
    finally show ?thesis .
  qed
  moreover have "\<exists>c. dependency_chain tasks c \<and> int (length c) = max_default (map snd depths)"
    if "tasks \<noteq> []"
  proof -
    have "map snd depths \<noteq> []" using keys that by (auto simp: ids_def)
    then have "max_default (map snd depths) \<in> set (map snd depths)" by (rule max_default_mem)
    then obtain v where "(v, max_default (map snd depths)) \<in> set depths" by auto
    then have "map_of depths v = Some (max_default (map snd depths))" using depths(2) by simp
    then show ?thesis using depths(4) unfolding chain_depth_def by blast
  qed
  moreover have "max_default (map snd depths) = 0" if "tasks = []"
    using keys that by (simp add: ids_def max_default_def)
  ultimately show ?thesis using depths(1) by auto
qed

text \<open>
  Property C18: for an acyclic plan \<open>_maximum_depth\<close> is the length of a longest chain of
  dependencies: no chain is longer, and some chain has exactly this length.
\<close>

theorem maximum_depth_is_longest_chain:
  assumes "keyed ts_id tasks" and "acyclic (depends_on tasks)"
  shows "\<exists>m. maximum_depth tasks (topological_order tasks) = Inr m \<and>
    (\<forall>c. dependency_chain tasks c \<longrightarrow> int (length c) \<le> m) \<and>
    (if tasks = [] then m = 0 else \<exists>c. dependency_chain tasks c \<and> int (length c) = m)"
  using assms by (rule depth_longest_chain)

theorem maximum_depth_is_longest_chain_witness:
  "\<exists>m. maximum_depth diamond (topological_order diamond) = Inr m \<and> m = 3 \<and>
    (\<exists>c. dependency_chain diamond c \<and> int (length c) = m)"
proof -
  have "acyclic (depends_on diamond)" by (rule order_acyclic[OF diamond_keyed]) code_simp
  moreover have "maximum_depth diamond (topological_order diamond) = Inr 3" by code_simp
  moreover have "diamond \<noteq> []" by (simp add: diamond_def)
  ultimately show ?thesis using maximum_depth_is_longest_chain[OF diamond_keyed] by auto
qed

subsection \<open>\<open>_has_final_validation_sink\<close>\<close>

text \<open>
  \<open>ancestors\<close> is a worklist search; \<open>pending.pop()\<close> takes the last entry. A dependency that is
  not in the plan raises \<open>KeyError\<close>.
\<close>

function ancestors_loop :: "TaskSpec list \<Rightarrow> uuid set \<Rightarrow> uuid list \<Rightarrow> uuid set result" where
  "ancestors_loop tasks_by_id found pending =
     (if pending = [] then Inr found
      else let dependency = last pending; pending' = butlast pending
        in if dependency \<in> found then ancestors_loop tasks_by_id found pending'
           else case row_get ts_id dependency tasks_by_id of
                  None \<Rightarrow> Inl KeyError
                | Some task \<Rightarrow>
                    ancestors_loop tasks_by_id (insert dependency found) (pending' @ ts_dependencies task))"
  by pat_completeness auto
termination
proof (relation "measures [\<lambda>(tasks, found, _). card (ids tasks - found), \<lambda>(_, _, pending). length pending]")
  show "wf (measures [\<lambda>(tasks, found, _ :: uuid list). card (ids tasks - found),
    \<lambda>(_, _, pending). length pending])" by simp
next
  fix tasks :: "TaskSpec list" and found :: "uuid set" and pending :: "uuid list" and d pending'
  assume "pending \<noteq> []" "pending' = butlast pending"
  then show "((tasks, found, pending'), tasks, found, pending)
    \<in> measures [\<lambda>(tasks, found, _). card (ids tasks - found), \<lambda>(_, _, pending). length pending]"
    by simp
next
  fix tasks :: "TaskSpec list" and found :: "uuid set" and pending pending' :: "uuid list" and d task
  assume "d \<notin> found" and "row_get ts_id d tasks = Some task"
  then have "d \<in> ids tasks - found" by (auto simp: ids_def dest: row_get_Some)
  moreover have "ids tasks - insert d found = (ids tasks - found) - {d}" by blast
  moreover have "finite (ids tasks - found)" by (simp add: ids_def)
  ultimately have "card (ids tasks - insert d found) < card (ids tasks - found)"
    by (metis card_Diff1_less)
  then show "((tasks, insert d found, pending' @ ts_dependencies task), tasks, found, pending)
    \<in> measures [\<lambda>(tasks, found, _). card (ids tasks - found), \<lambda>(_, _, pending). length pending]"
    by simp
qed

declare ancestors_loop.simps [simp del]

definition ancestors :: "TaskSpec list \<Rightarrow> uuid \<Rightarrow> uuid set result" where
  "ancestors tasks_by_id task_id =
     (case row_get ts_id task_id tasks_by_id of
        None \<Rightarrow> Inl KeyError
      | Some task \<Rightarrow> ancestors_loop tasks_by_id {} (ts_dependencies task))"

fun covering_sinks :: "TaskSpec list \<Rightarrow> TaskSpec list \<Rightarrow> TaskSpec list result" where
  "covering_sinks tasks_by_id [] = Inr []"
| "covering_sinks tasks_by_id (task # sinks) =
     (if ts_task_type task = VALIDATION
      then bnd (ancestors tasks_by_id (ts_id task)) (\<lambda>found.
             bnd (covering_sinks tasks_by_id sinks) (\<lambda>rest.
               Inr (if found \<union> {ts_id task} = ids tasks_by_id then task # rest else rest)))
      else covering_sinks tasks_by_id sinks)"

definition has_final_validation_sink :: "TaskSpec list \<Rightarrow> bool result" where
  "has_final_validation_sink tasks_by_id =
     (let depended_on = \<Union> (set ` ts_dependencies ` set tasks_by_id);
          sinks = filter (\<lambda>task. ts_id task \<notin> depended_on) tasks_by_id
      in bnd (covering_sinks tasks_by_id sinks) (\<lambda>found. Inr (length found = 1)))"

definition no_missing_deps :: "TaskSpec list \<Rightarrow> bool" where
  "no_missing_deps tasks \<longleftrightarrow> (\<forall>t \<in> set tasks. set (ts_dependencies t) \<subseteq> ids tasks)"

lemma no_missing_depends_on:
  assumes "keyed ts_id tasks" "no_missing_deps tasks" "t \<in> set tasks"
  shows "depends_on tasks `` {ts_id t} = set (ts_dependencies t)"
  using assms by (auto simp: depends_on_def in_plan_deps_task no_missing_deps_def)

lemma ancestors_loop_spec:
  assumes "keyed ts_id tasks" and "no_missing_deps tasks" and "set pending \<subseteq> ids tasks"
    and "found \<union> set pending \<subseteq> T" and "\<And>x y. x \<in> T \<Longrightarrow> (x, y) \<in> depends_on tasks \<Longrightarrow> y \<in> T"
    and "depends_on tasks `` found \<subseteq> found \<union> set pending"
  shows "\<exists>R. ancestors_loop tasks found pending = Inr R \<and> found \<union> set pending \<subseteq> R \<and> R \<subseteq> T \<and>
    depends_on tasks `` R \<subseteq> R"
  using assms
proof (induction tasks found pending rule: ancestors_loop.induct)
  case (1 tasks found pending)
  note closed = "1.prems"(5)
  show ?case
  proof (cases "pending = []")
    case True
    then show ?thesis using "1.prems" by (subst ancestors_loop.simps) simp
  next
    case False
    let ?d = "last pending" and ?rest = "butlast pending"
    have pending: "set pending = insert ?d (set ?rest)"
      using False by (metis append_butlast_last_id list.set(2) rotate1.simps(2) set_rotate1)
    show ?thesis
    proof (cases "?d \<in> found")
      case True
      have "\<exists>R. ancestors_loop tasks found ?rest = Inr R \<and> found \<union> set ?rest \<subseteq> R \<and> R \<subseteq> T \<and>
          depends_on tasks `` R \<subseteq> R"
        by (rule "1.IH"(1)[OF False refl refl True "1.prems"(1,2) _ _ closed])
          (use "1.prems"(3,4,6) True in \<open>auto simp: pending\<close>)
      then show ?thesis using False True by (subst ancestors_loop.simps) (auto simp: pending Let_def)
    next
      case notin: False
      have "?d \<in> ids tasks" using "1.prems"(3) pending by blast
      then obtain t where t: "t \<in> set tasks" "ts_id t = ?d" by (auto simp: ids_def)
      have row: "row_get ts_id ?d tasks = Some t" using keyed_row_get[OF "1.prems"(1) t(1)] t(2) by simp
      have deps: "depends_on tasks `` {?d} = set (ts_dependencies t)"
        using no_missing_depends_on[OF "1.prems"(1,2) t(1)] t(2) by simp
      have d: "?d \<in> T" using "1.prems"(4) pending by blast
      have deps_T: "set (ts_dependencies t) \<subseteq> T" using closed[OF d] deps by blast
      have deps_ids: "set (ts_dependencies t) \<subseteq> ids tasks"
        using "1.prems"(2) t(1) by (auto simp: no_missing_deps_def)
      have "\<exists>R. ancestors_loop tasks (insert ?d found) (?rest @ ts_dependencies t) = Inr R \<and>
          insert ?d found \<union> set (?rest @ ts_dependencies t) \<subseteq> R \<and> R \<subseteq> T \<and> depends_on tasks `` R \<subseteq> R"
      proof (rule "1.IH"(2)[OF False refl refl notin row "1.prems"(1,2) _ _ closed])
        show "set (?rest @ ts_dependencies t) \<subseteq> ids tasks" using "1.prems"(3) deps_ids pending by auto
        show "insert ?d found \<union> set (?rest @ ts_dependencies t) \<subseteq> T"
          using "1.prems"(4) deps_T d pending by auto
        show "depends_on tasks `` insert ?d found \<subseteq> insert ?d found \<union> set (?rest @ ts_dependencies t)"
          using "1.prems"(6) deps pending by auto
      qed
      then show ?thesis using False notin row by (subst ancestors_loop.simps) (auto simp: pending Let_def)
    qed
  qed
qed

lemma ancestors_spec:
  assumes "keyed ts_id tasks" and "no_missing_deps tasks" and "t \<in> set tasks"
  shows "ancestors tasks (ts_id t) = Inr {d. (ts_id t, d) \<in> (depends_on tasks)\<^sup>+}"
proof -
  let ?T = "{d. (ts_id t, d) \<in> (depends_on tasks)\<^sup>+}"
  have direct: "set (ts_dependencies t) = depends_on tasks `` {ts_id t}"
    using no_missing_depends_on[OF assms] by simp
  have "\<exists>R. ancestors_loop tasks {} (ts_dependencies t) = Inr R \<and> {} \<union> set (ts_dependencies t) \<subseteq> R \<and>
      R \<subseteq> ?T \<and> depends_on tasks `` R \<subseteq> R"
  proof (rule ancestors_loop_spec[OF assms(1,2)])
    show "set (ts_dependencies t) \<subseteq> ids tasks" using assms(2,3) by (simp add: no_missing_deps_def)
    show "{} \<union> set (ts_dependencies t) \<subseteq> ?T" by (auto simp: direct)
    show "y \<in> ?T" if "x \<in> ?T" "(x, y) \<in> depends_on tasks" for x y
      using that by (auto intro: trancl_into_trancl)
  qed simp
  then obtain R where R: "ancestors_loop tasks {} (ts_dependencies t) = Inr R"
    "set (ts_dependencies t) \<subseteq> R" "R \<subseteq> ?T" "depends_on tasks `` R \<subseteq> R" by auto
  have "d \<in> R" if "(ts_id t, d) \<in> (depends_on tasks)\<^sup>+" for d
    using that by induction (use R(2,4) direct in blast)+
  then have "R = ?T" using R(3) by blast
  then show ?thesis using R(1) keyed_row_get[OF assms(1,3)] by (simp add: ancestors_def)
qed

definition covers :: "TaskSpec list \<Rightarrow> TaskSpec \<Rightarrow> bool" where
  "covers tasks t \<longleftrightarrow> ts_task_type t = VALIDATION \<and>
     (\<forall>u \<in> set tasks. u \<noteq> t \<longrightarrow> (ts_id t, ts_id u) \<in> (depends_on tasks)\<^sup>+)"

lemma length_one_iff:
  assumes "distinct xs" and same: "\<And>a b. a \<in> set xs \<Longrightarrow> b \<in> set xs \<Longrightarrow> a = b"
  shows "length xs = 1 \<longleftrightarrow> xs \<noteq> []"
proof (cases "tl xs")
  case Nil
  then show ?thesis by (cases xs) simp_all
next
  case (Cons b ys)
  then obtain a where xs: "xs = a # b # ys" by (cases xs) simp_all
  then have "a = b" by (intro same) simp_all
  then show ?thesis using assms(1) xs by simp
qed

lemma covering_ids:
  assumes "keyed ts_id tasks" and "t \<in> set tasks"
  shows "{d. (ts_id t, d) \<in> (depends_on tasks)\<^sup>+} \<union> {ts_id t} = ids tasks \<longleftrightarrow>
    (\<forall>u \<in> set tasks. u \<noteq> t \<longrightarrow> (ts_id t, ts_id u) \<in> (depends_on tasks)\<^sup>+)"
proof -
  have "d \<in> ids tasks" if "(ts_id t, d) \<in> (depends_on tasks)\<^sup>+" for d
    using trancl_subset_Sigma[OF depends_on_ids] that by blast
  moreover have "ts_id u = ts_id t \<longleftrightarrow> u = t" if "u \<in> set tasks" for u
    using keyed_unique[OF assms(1) that assms(2)] by blast
  ultimately show ?thesis using assms(2) by (auto simp: ids_def)
qed

lemma covering_sinks_spec:
  assumes "keyed ts_id tasks" and "no_missing_deps tasks" and "set sinks \<subseteq> set tasks"
  shows "covering_sinks tasks sinks = Inr (filter (covers tasks) sinks)"
  using assms(3)
proof (induction sinks)
  case Nil
  then show ?case by simp
next
  case (Cons t sinks)
  then have t: "t \<in> set tasks" and rest: "covering_sinks tasks sinks = Inr (filter (covers tasks) sinks)"
    by simp_all
  have "covers tasks t \<longleftrightarrow> ts_task_type t = VALIDATION \<and>
      {d. (ts_id t, d) \<in> (depends_on tasks)\<^sup>+} \<union> {ts_id t} = ids tasks"
    unfolding covers_def covering_ids[OF assms(1) t] ..
  then show ?case using ancestors_spec[OF assms(1,2) t] rest by simp
qed

lemma final_sink_spec:
  assumes "keyed ts_id tasks" and "no_missing_deps tasks"
  shows "has_final_validation_sink tasks = Inr (\<exists>t \<in> set tasks. ts_task_type t = VALIDATION \<and>
    (\<forall>u \<in> set tasks. ts_id t \<notin> set (ts_dependencies u)) \<and>
    (\<forall>u \<in> set tasks. u \<noteq> t \<longrightarrow> (ts_id t, ts_id u) \<in> (depends_on tasks)\<^sup>+))"
proof -
  let ?sinks = "filter (\<lambda>task. ts_id task \<notin> \<Union> (set ` ts_dependencies ` set tasks)) tasks"
  let ?good = "filter (covers tasks) ?sinks"
  have run: "has_final_validation_sink tasks = Inr (length ?good = 1)"
    using covering_sinks_spec[OF assms, of ?sinks]
    by (simp add: has_final_validation_sink_def Let_def)
  have unique: "t = u" if t: "t \<in> set ?good" and u: "u \<in> set ?good" for t u
  proof (rule ccontr)
    assume "t \<noteq> u"
    then have "(ts_id t, ts_id u) \<in> (depends_on tasks)\<^sup>+" using t u by (auto simp: covers_def)
    then obtain w where "(w, ts_id u) \<in> depends_on tasks" by (meson tranclD2)
    then obtain v where v: "v \<in> set tasks" "ts_id v = w" "(w, ts_id u) \<in> depends_on tasks"
      using depends_on_ids by (fastforce simp: ids_def)
    then have "ts_id u \<in> set (ts_dependencies v)"
      using no_missing_depends_on[OF assms v(1)] by blast
    then show False using u v(1) by auto
  qed
  have "distinct tasks" using assms(1) by (auto simp: keyed_def distinct_map)
  then have "distinct ?good" by simp
  then have "length ?good = 1 \<longleftrightarrow> ?good \<noteq> []" using unique by (rule length_one_iff)
  moreover have "?good \<noteq> [] \<longleftrightarrow> (\<exists>t \<in> set tasks. ts_task_type t = VALIDATION \<and>
      (\<forall>u \<in> set tasks. ts_id t \<notin> set (ts_dependencies u)) \<and>
      (\<forall>u \<in> set tasks. u \<noteq> t \<longrightarrow> (ts_id t, ts_id u) \<in> (depends_on tasks)\<^sup>+))"
    by (auto simp: covers_def filter_empty_conv)
  ultimately show ?thesis unfolding run by (simp only:)
qed



text \<open>
  The search does not tolerate a missing dependency. A plan whose VALIDATION
  sink depends on a task that is not in the plan makes the sink test raise \<open>KeyError\<close>
  instead of letting the validator report MISSING_DEPENDENCY.
\<close>

theorem sink_test_raises_on_missing_dependency:
  assumes "d \<notin> ids tasks" and "t \<in> set tasks" and "keyed ts_id tasks"
    and "ts_task_type t = VALIDATION" and "ts_dependencies t = deps @ [d]"
    and "\<And>u. u \<in> set tasks \<Longrightarrow> ts_id t \<notin> set (ts_dependencies u)"
    and "\<And>u. u \<in> set tasks \<Longrightarrow> u \<noteq> t \<Longrightarrow> ts_task_type u \<noteq> VALIDATION"
  shows "has_final_validation_sink tasks = Inl KeyError"
proof -
  have "ancestors tasks (ts_id t) = Inl KeyError"
    using assms(1,5) keyed_row_get[OF assms(3,2)] row_get_None[of ts_id d tasks]
    by (simp add: ancestors_def ids_def ancestors_loop.simps)
  then have "covering_sinks tasks sinks = Inl KeyError"
    if "t \<in> set sinks" "set sinks \<subseteq> set tasks" for sinks
    using that
  proof (induction sinks)
    case Nil
    then show ?case by simp
  next
    case (Cons u sinks)
    then show ?case using assms(4) assms(7)[of u] \<open>ancestors tasks (ts_id t) = _\<close>
      by (cases "u = t") auto
  qed
  moreover have "t \<in> set (filter (\<lambda>task. ts_id task \<notin> \<Union> (set ` ts_dependencies ` set tasks)) tasks)"
    using assms(2,6) by auto
  ultimately show ?thesis by (simp add: has_final_validation_sink_def Let_def subset_iff)
qed

theorem sink_test_raises_on_missing_dependency_witness:
  "has_final_validation_sink [plain_task 1 VALIDATION [7]] = Inl KeyError"
  by (rule sink_test_raises_on_missing_dependency[of 7 _ "plain_task 1 VALIDATION [7]" "[]"])
     (simp_all add: ids_def keyed_def)

end
