(* ===== verification/Plan_Validator.thy ===== *)
theory Plan_Validator
  imports Plan_Graph
begin

section \<open>The plan validator\<close>

text \<open>
  \<open>TaskPlanValidator.validate\<close> and \<open>validate_mutation\<close> of \<open>src/planning/validator.py\<close>. An issue
  keeps its code and task; its human-readable message is left out. \<open>validate\<close> is fallible
  because two of the checks it calls can raise. The main results are that \<open>validate\<close> accepts
  exactly the plans described by the declarative predicate \<open>plan_ok\<close>, that an accepted
  mutation only extends a plan, and that a run can accept only boundedly many mutations.
\<close>

record ValidationIssue =
  vi_code :: string
  vi_task_id :: "uuid option"

record PlanValidationResult =
  pv_valid :: bool
  pv_issues :: "ValidationIssue list"
  pv_topological_order :: "uuid list"
  pv_max_depth :: int
  pv_total_budget_usd :: usd
  pv_total_execution_seconds :: int

record MutationValidationResult =
  mv_valid :: bool
  mv_issues :: "ValidationIssue list"
  mv_proposed_plan :: "TaskPlan option"

record TaskPlanValidator =
  v_allowed_tools :: "string set"
  v_require_final_validation_sink :: bool
  v_max_risk_ceiling :: RiskLevel
  v_enforce_execution_policy :: bool

abbreviation issue :: "string \<Rightarrow> ValidationIssue" where
  "issue code \<equiv> \<lparr>vi_code = code, vi_task_id = None\<rparr>"

abbreviation task_issue :: "string \<Rightarrow> TaskSpec \<Rightarrow> ValidationIssue" where
  "task_issue code task \<equiv> \<lparr>vi_code = code, vi_task_id = Some (ts_id task)\<rparr>"

definition issue_if :: "bool \<Rightarrow> ValidationIssue \<Rightarrow> ValidationIssue list" where
  "issue_if condition i = (if condition then [i] else [])"

lemma issue_if_Nil [simp]: "issue_if c i = [] \<longleftrightarrow> \<not> c"
  by (simp add: issue_if_def)

subsection \<open>Checks of one task\<close>

definition validate_task_scope :: "TaskPlan \<Rightarrow> TaskSpec \<Rightarrow> ValidationIssue list" where
  "validate_task_scope plan task =
     issue_if (ts_project_id task \<noteq> plan_project_id plan) (task_issue ''PROJECT_SCOPE'' task)
     @ issue_if (ts_repository_id task \<noteq> plan_repository_id plan) (task_issue ''REPOSITORY_SCOPE'' task)
     @ issue_if (plan_revision plan < ts_plan_revision task) (task_issue ''PLAN_REVISION'' task)"

definition policy_issues :: "TaskSpec \<Rightarrow> ValidationIssue list" where
  "policy_issues task =
     issue_if (ts_assigned_capability task \<notin> set (TASK_CAPABILITY_NAMES (ts_task_type task)))
       (task_issue ''INVALID_TASK_CAPABILITY'' task)
     @ issue_if (TASK_REQUIRED_TOOLS (ts_task_type task) - set (ts_allowed_tools task) \<noteq> {})
       (task_issue ''MISSING_STAGE_TOOL'' task)
     @ issue_if (risk_exceeds (task_minimum_risk (ts_task_type task)) (ts_risk_ceiling task))
       (task_issue ''INSUFFICIENT_TASK_RISK'' task)"

fun path_issues :: "TaskSpec \<Rightarrow> string list \<Rightarrow> ValidationIssue list result" where
  "path_issues task [] = Inr []"
| "path_issues task (path # paths) =
     bnd (is_repository_relative path) (\<lambda>ok. bnd (path_issues task paths) (\<lambda>issues.
       Inr (issue_if (\<not> ok) (task_issue ''REPOSITORY_PATH_ESCAPE'' task) @ issues)))"

definition dependency_issues :: "TaskSpec \<Rightarrow> TaskSpec list \<Rightarrow> ValidationIssue list" where
  "dependency_issues task tasks_by_id =
     concat (map (\<lambda>dependency.
       if dependency = ts_id task then [task_issue ''SELF_DEPENDENCY'' task]
       else issue_if (dependency \<notin> ids tasks_by_id) (task_issue ''MISSING_DEPENDENCY'' task))
       (ts_dependencies task))"

definition validate_task_semantics ::
  "TaskPlanValidator \<Rightarrow> TaskSpec \<Rightarrow> TaskSpec list \<Rightarrow> ValidationIssue list result" where
  "validate_task_semantics v task tasks_by_id =
     bnd (path_issues task (ts_repository_paths task)) (\<lambda>escapes.
       Inr ((if v_enforce_execution_policy v then policy_issues task else [])
         @ issue_if (ts_acceptance_criteria task = []) (task_issue ''MISSING_ACCEPTANCE_CRITERIA'' task)
         @ map (\<lambda>tool. task_issue ''UNSUPPORTED_TOOL'' task)
             (filter (\<lambda>tool. tool \<notin> v_allowed_tools v) (sort (remdups (ts_allowed_tools task))))
         @ issue_if (risk_exceeds (ts_risk_ceiling task) (v_max_risk_ceiling v))
             (task_issue ''RISK_CEILING_EXCEEDS_POLICY'' task)
         @ escapes
         @ dependency_issues task tasks_by_id))"

fun tasks_issues ::
  "TaskPlanValidator \<Rightarrow> TaskPlan \<Rightarrow> TaskSpec list \<Rightarrow> TaskSpec list \<Rightarrow> ValidationIssue list result" where
  "tasks_issues v plan tasks_by_id [] = Inr []"
| "tasks_issues v plan tasks_by_id (task # tasks) =
     bnd (validate_task_semantics v task tasks_by_id) (\<lambda>semantic.
       bnd (tasks_issues v plan tasks_by_id tasks) (\<lambda>issues.
         Inr (validate_task_scope plan task @ semantic @ issues)))"

subsection \<open>\<open>validate\<close>\<close>

fun index_tasks :: "TaskSpec list \<Rightarrow> TaskSpec list \<Rightarrow> uuid set \<Rightarrow> TaskSpec list \<times> uuid set" where
  "index_tasks [] tasks_by_id duplicate_ids = (tasks_by_id, duplicate_ids)"
| "index_tasks (task # tasks) tasks_by_id duplicate_ids =
     (if ts_id task \<in> ids tasks_by_id
      then index_tasks tasks tasks_by_id (insert (ts_id task) duplicate_ids)
      else index_tasks tasks (tasks_by_id @ [task]) duplicate_ids)"

definition graph_issues ::
  "TaskPlanValidator \<Rightarrow> TaskSpec list \<Rightarrow> uuid list \<Rightarrow> ValidationIssue list result" where
  "graph_issues v tasks_by_id order =
     (if length order \<noteq> length tasks_by_id then Inr [issue ''CYCLE'']
      else if v_require_final_validation_sink v
      then bnd (has_final_validation_sink tasks_by_id)
             (\<lambda>sink. Inr (issue_if (\<not> sink) (issue ''FINAL_VALIDATION_SINK'')))
      else Inr [])"

definition dynamic_tasks :: "TaskSpec list \<Rightarrow> int" where
  "dynamic_tasks tasks = int (length (filter (\<lambda>task. 1 < ts_plan_revision task) tasks))"

definition total_budget :: "TaskSpec list \<Rightarrow> usd" where
  "total_budget tasks = sum_list (map (\<lambda>task. bp_cost_usd (ts_budget task)) tasks)"

definition total_execution :: "TaskSpec list \<Rightarrow> int" where
  "total_execution tasks = sum_list (map (\<lambda>task. bp_wall_time_seconds (ts_budget task)) tasks)"

definition limit_issues :: "TaskPlan \<Rightarrow> int \<Rightarrow> ValidationIssue list" where
  "limit_issues plan max_depth =
     issue_if (pl_max_plan_depth (plan_limits plan) < max_depth) (issue ''MAX_PLAN_DEPTH'')
     @ issue_if (pl_max_dynamic_tasks (plan_limits plan) < dynamic_tasks (plan_tasks plan))
         (issue ''MAX_DYNAMIC_TASKS'')
     @ issue_if (pl_max_total_budget_usd (plan_limits plan) < total_budget (plan_tasks plan))
         (issue ''MAX_TOTAL_BUDGET'')
     @ issue_if (pl_max_total_execution_seconds (plan_limits plan) < total_execution (plan_tasks plan))
         (issue ''MAX_TOTAL_EXECUTION_TIME'')"

definition validate :: "TaskPlanValidator \<Rightarrow> TaskPlan \<Rightarrow> PlanValidationResult result" where
  "validate v plan =
     (let (tasks_by_id, duplicate_ids) = index_tasks (plan_tasks plan) [] {};
          order = topological_order tasks_by_id
      in bnd (tasks_issues v plan tasks_by_id (sort_key ts_id (plan_tasks plan))) (\<lambda>per_task.
         bnd (graph_issues v tasks_by_id order) (\<lambda>graph.
         bnd (maximum_depth tasks_by_id order) (\<lambda>max_depth.
           let issues = map (\<lambda>task_id. \<lparr>vi_code = ''DUPLICATE_TASK_ID'', vi_task_id = Some task_id\<rparr>)
                          (sorted_list_of_set duplicate_ids)
                        @ per_task @ graph @ limit_issues plan max_depth
           in Inr \<lparr>pv_valid = (issues = []), pv_issues = issues, pv_topological_order = order,
                pv_max_depth = max_depth, pv_total_budget_usd = total_budget (plan_tasks plan),
                pv_total_execution_seconds = total_execution (plan_tasks plan)\<rparr>))))"

subsection \<open>\<open>validate_mutation\<close>\<close>

fun mutation_task_issues ::
  "uuid set \<Rightarrow> int \<Rightarrow> uuid set \<Rightarrow> TaskSpec list \<Rightarrow> ValidationIssue list" where
  "mutation_task_issues current_ids next_revision mutation_ids [] = []"
| "mutation_task_issues current_ids next_revision mutation_ids (task # tasks) =
     issue_if (ts_id task \<in> current_ids) (task_issue ''EXISTING_TASK_MUTATION'' task)
     @ issue_if (ts_id task \<in> mutation_ids) (task_issue ''DUPLICATE_TASK_ID'' task)
     @ issue_if (ts_plan_revision task \<noteq> next_revision) (task_issue ''PLAN_REVISION'' task)
     @ mutation_task_issues current_ids next_revision (insert (ts_id task) mutation_ids) tasks"

definition proposed_plan :: "TaskPlan \<Rightarrow> TaskPlanMutation \<Rightarrow> TaskPlan" where
  "proposed_plan current mutation =
     current\<lparr>plan_revision := plan_revision current + 1,
             plan_tasks := plan_tasks current @ mut_tasks mutation\<rparr>"

definition validate_mutation ::
  "TaskPlanValidator \<Rightarrow> TaskPlan \<Rightarrow> TaskPlanMutation \<Rightarrow> MutationValidationResult result" where
  "validate_mutation v current mutation =
     (let issues = issue_if (mut_base_revision mutation \<noteq> plan_revision current) (issue ''STALE_PLAN_REVISION'')
            @ mutation_task_issues (ids (plan_tasks current)) (plan_revision current + 1) {} (mut_tasks mutation)
      in if issues \<noteq> []
         then Inr \<lparr>mv_valid = False, mv_issues = issues, mv_proposed_plan = None\<rparr>
         else bnd (TaskPlan_model (proposed_plan current mutation)) (\<lambda>proposed.
              bnd (validate v proposed) (\<lambda>validation.
                if \<not> pv_valid validation
                then Inr \<lparr>mv_valid = False, mv_issues = pv_issues validation, mv_proposed_plan = None\<rparr>
                else Inr \<lparr>mv_valid = True, mv_issues = [], mv_proposed_plan = Some proposed\<rparr>)))"

subsection \<open>The declarative specification\<close>

definition task_ok :: "TaskPlanValidator \<Rightarrow> TaskPlan \<Rightarrow> TaskSpec \<Rightarrow> bool" where
  "task_ok v plan t \<longleftrightarrow>
     ts_project_id t = plan_project_id plan \<and> ts_repository_id t = plan_repository_id plan \<and>
     ts_plan_revision t \<le> plan_revision plan \<and>
     (v_enforce_execution_policy v \<longrightarrow>
        ts_assigned_capability t \<in> set (TASK_CAPABILITY_NAMES (ts_task_type t)) \<and>
        TASK_REQUIRED_TOOLS (ts_task_type t) \<subseteq> set (ts_allowed_tools t) \<and>
        task_minimum_risk (ts_task_type t) \<le> ts_risk_ceiling t) \<and>
     ts_acceptance_criteria t \<noteq> [] \<and>
     set (ts_allowed_tools t) \<subseteq> v_allowed_tools v \<and>
     ts_risk_ceiling t \<le> v_max_risk_ceiling v \<and>
     (\<forall>path \<in> set (ts_repository_paths t). is_repository_relative path = Inr True) \<and>
     ts_id t \<notin> set (ts_dependencies t) \<and> set (ts_dependencies t) \<subseteq> ids (plan_tasks plan)"

definition plan_ok :: "TaskPlanValidator \<Rightarrow> TaskPlan \<Rightarrow> bool" where
  "plan_ok v plan \<longleftrightarrow>
     keyed ts_id (plan_tasks plan) \<and>
     (\<forall>t \<in> set (plan_tasks plan). task_ok v plan t) \<and>
     acyclic (depends_on (plan_tasks plan)) \<and>
     (v_require_final_validation_sink v \<longrightarrow>
        (\<exists>t \<in> set (plan_tasks plan). ts_task_type t = VALIDATION \<and>
          (\<forall>u \<in> set (plan_tasks plan). ts_id t \<notin> set (ts_dependencies u)) \<and>
          (\<forall>u \<in> set (plan_tasks plan). u \<noteq> t \<longrightarrow>
             (ts_id t, ts_id u) \<in> (depends_on (plan_tasks plan))\<^sup>+))) \<and>
     (\<forall>c. dependency_chain (plan_tasks plan) c \<longrightarrow> int (length c) \<le> pl_max_plan_depth (plan_limits plan)) \<and>
     dynamic_tasks (plan_tasks plan) \<le> pl_max_dynamic_tasks (plan_limits plan) \<and>
     total_budget (plan_tasks plan) \<le> pl_max_total_budget_usd (plan_limits plan) \<and>
     total_execution (plan_tasks plan) \<le> pl_max_total_execution_seconds (plan_limits plan)"

subsection \<open>When each check is silent\<close>

lemma validate_task_scope_Nil:
  "validate_task_scope plan t = [] \<longleftrightarrow> ts_project_id t = plan_project_id plan \<and>
     ts_repository_id t = plan_repository_id plan \<and> ts_plan_revision t \<le> plan_revision plan"
  by (auto simp: validate_task_scope_def)

lemma policy_issues_Nil:
  "policy_issues t = [] \<longleftrightarrow> ts_assigned_capability t \<in> set (TASK_CAPABILITY_NAMES (ts_task_type t)) \<and>
     TASK_REQUIRED_TOOLS (ts_task_type t) \<subseteq> set (ts_allowed_tools t) \<and>
     task_minimum_risk (ts_task_type t) \<le> ts_risk_ceiling t"
  by (auto simp: policy_issues_def risk_exceeds_less)

lemma path_issues_Nil:
  "path_issues t paths = Inr [] \<longleftrightarrow> (\<forall>path \<in> set paths. is_repository_relative path = Inr True)"
  by (induction paths) (auto simp: bnd_eq_Inr)

lemma dependency_issues_Nil:
  "dependency_issues t by_id = [] \<longleftrightarrow>
     ts_id t \<notin> set (ts_dependencies t) \<and> set (ts_dependencies t) \<subseteq> ids by_id"
proof -
  have "dependency_issues t by_id = [] \<longleftrightarrow>
      (\<forall>d \<in> set (ts_dependencies t). d \<noteq> ts_id t \<and> d \<in> ids by_id)"
    unfolding dependency_issues_def concat_eq_Nil_conv set_map ball_simps
    by (intro ball_cong refl) simp
  then show ?thesis by blast
qed

lemma unsupported_Nil:
  "filter (\<lambda>tool. tool \<notin> allowed) (sort (remdups tools)) = [] \<longleftrightarrow> set tools \<subseteq> allowed"
  by (auto simp: filter_empty_conv)

lemma validate_task_semantics_Nil:
  "validate_task_semantics v t by_id = Inr [] \<longleftrightarrow>
     (v_enforce_execution_policy v \<longrightarrow> policy_issues t = []) \<and> ts_acceptance_criteria t \<noteq> [] \<and>
     set (ts_allowed_tools t) \<subseteq> v_allowed_tools v \<and> ts_risk_ceiling t \<le> v_max_risk_ceiling v \<and>
     path_issues t (ts_repository_paths t) = Inr [] \<and> dependency_issues t by_id = []"
  by (cases "path_issues t (ts_repository_paths t)")
     (auto simp: validate_task_semantics_def unsupported_Nil risk_exceeds_less)

lemma tasks_issues_Nil:
  "tasks_issues v plan by_id ts = Inr [] \<longleftrightarrow>
     (\<forall>t \<in> set ts. validate_task_scope plan t = [] \<and> validate_task_semantics v t by_id = Inr [])"
  by (induction ts) (auto simp: bnd_eq_Inr)

lemma tasks_issues_ok:
  "tasks_issues v plan (plan_tasks plan) ts = Inr [] \<longleftrightarrow> (\<forall>t \<in> set ts. task_ok v plan t)"
  unfolding tasks_issues_Nil validate_task_scope_Nil validate_task_semantics_Nil policy_issues_Nil
    path_issues_Nil dependency_issues_Nil task_ok_def
  by blast

lemma index_tasks_keyed:
  "keyed ts_id (by_id @ tasks) \<Longrightarrow> index_tasks tasks by_id dups = (by_id @ tasks, dups)"
  by (induction tasks arbitrary: by_id) (auto simp: keyed_def ids_def)

lemma index_tasks_dups: "dups \<subseteq> snd (index_tasks tasks by_id dups)"
  by (induction tasks by_id dups rule: index_tasks.induct) auto

lemma index_tasks_not_keyed:
  "keyed ts_id by_id \<Longrightarrow> \<not> keyed ts_id (by_id @ tasks) \<Longrightarrow> snd (index_tasks tasks by_id dups) \<noteq> {}"
proof (induction tasks by_id dups rule: index_tasks.induct)
  case (1 by_id dups)
  then show ?case by simp
next
  case (2 t tasks by_id dups)
  then show ?case using index_tasks_dups[of "insert (ts_id t) dups" tasks by_id]
    by (auto simp: keyed_def ids_def)
qed

lemma index_tasks_result_keyed:
  "keyed ts_id by_id \<Longrightarrow> keyed ts_id (fst (index_tasks tasks by_id dups))"
  by (induction tasks by_id dups rule: index_tasks.induct) (auto simp: keyed_def ids_def)

lemma index_tasks_finite: "finite dups \<Longrightarrow> finite (snd (index_tasks tasks by_id dups))"
  by (induction tasks by_id dups rule: index_tasks.induct) auto

lemma task_ok_no_missing: "\<forall>t \<in> set (plan_tasks plan). task_ok v plan t \<Longrightarrow> no_missing_deps (plan_tasks plan)"
  by (simp add: no_missing_deps_def task_ok_def)

lemma validate_keyed:
  assumes "keyed ts_id (plan_tasks plan)"
  shows "validate v plan =
    bnd (tasks_issues v plan (plan_tasks plan) (sort_key ts_id (plan_tasks plan))) (\<lambda>per_task.
    bnd (graph_issues v (plan_tasks plan) (topological_order (plan_tasks plan))) (\<lambda>graph.
    bnd (maximum_depth (plan_tasks plan) (topological_order (plan_tasks plan))) (\<lambda>max_depth.
      let issues = per_task @ graph @ limit_issues plan max_depth
      in Inr \<lparr>pv_valid = (issues = []), pv_issues = issues,
           pv_topological_order = topological_order (plan_tasks plan), pv_max_depth = max_depth,
           pv_total_budget_usd = total_budget (plan_tasks plan),
           pv_total_execution_seconds = total_execution (plan_tasks plan)\<rparr>)))"
  using index_tasks_keyed[of "[]" "plan_tasks plan" "{}"] assms by (simp add: validate_def Let_def)

lemma validate_duplicates:
  assumes "\<not> keyed ts_id (plan_tasks plan)" and "validate v plan = Inr r"
  shows "\<not> pv_valid r"
proof -
  obtain by_id dups where index: "index_tasks (plan_tasks plan) [] {} = (by_id, dups)"
    by (cases "index_tasks (plan_tasks plan) [] {}")
  have "dups \<noteq> {}" "finite dups"
    using index_tasks_not_keyed[of "[]" "plan_tasks plan" "{}"] assms(1)
      index_tasks_finite[of "{}" "plan_tasks plan" "[]"] index by simp_all
  then have "sorted_list_of_set dups \<noteq> []" by (metis empty_set sorted_list_of_set.set_sorted_key_list_of_set)
  then show ?thesis using assms(2) by (auto simp: validate_def index bnd_eq_Inr Let_def)
qed

lemma validate_ok_iff:
  assumes "plan_tasks plan \<noteq> []"
  shows "(\<exists>r. validate v plan = Inr r \<and> pv_valid r) \<longleftrightarrow> plan_ok v plan"
proof (cases "keyed ts_id (plan_tasks plan)")
  case False
  then show ?thesis using validate_duplicates by (auto simp: plan_ok_def)
next
  case keyed: True
  let ?ts = "plan_tasks plan"
  let ?order = "topological_order ?ts"
  obtain depths :: "(uuid \<times> int) list" where m: "maximum_depth ?ts ?order = Inr (max_default (map snd depths))"
    by (rule maximum_depth_total[OF keyed]) blast
  let ?m = "max_default (map snd depths)"
  have accepts: "(\<exists>r. validate v plan = Inr r \<and> pv_valid r) \<longleftrightarrow>
      tasks_issues v plan ?ts (sort_key ts_id ?ts) = Inr [] \<and> graph_issues v ?ts ?order = Inr [] \<and>
      limit_issues plan ?m = []"
    unfolding validate_keyed[OF keyed] m by (auto simp: bnd_eq_Inr Let_def)
  have graph: "graph_issues v ?ts ?order = Inr [] \<longleftrightarrow> acyclic (depends_on ?ts) \<and>
      (v_require_final_validation_sink v \<longrightarrow> has_final_validation_sink ?ts = Inr True)"
    using order_complete_acyclic[OF keyed]
    by (cases "has_final_validation_sink ?ts") (auto simp: graph_issues_def)
  have depth: "?m \<le> pl_max_plan_depth (plan_limits plan) \<longleftrightarrow>
      (\<forall>c. dependency_chain ?ts c \<longrightarrow> int (length c) \<le> pl_max_plan_depth (plan_limits plan))"
    if acyc: "acyclic (depends_on ?ts)"
  proof -
    obtain m' where m': "maximum_depth ?ts ?order = Inr m'"
      "\<forall>c. dependency_chain ?ts c \<longrightarrow> int (length c) \<le> m'"
      "\<exists>c. dependency_chain ?ts c \<and> int (length c) = m'"
      using depth_longest_chain[OF keyed acyc] assms by auto
    then have "m' = ?m" using m by simp
    moreover obtain longest where "dependency_chain ?ts longest" "int (length longest) = m'"
      using m'(3) by blast
    ultimately show ?thesis using m'(2) by (metis order_trans)
  qed
  have sink: "has_final_validation_sink ?ts = Inr True \<longleftrightarrow>
      (\<exists>t \<in> set ?ts. ts_task_type t = VALIDATION \<and>
        (\<forall>u \<in> set ?ts. ts_id t \<notin> set (ts_dependencies u)) \<and>
        (\<forall>u \<in> set ?ts. u \<noteq> t \<longrightarrow> (ts_id t, ts_id u) \<in> (depends_on ?ts)\<^sup>+))"
    if "\<forall>t \<in> set ?ts. task_ok v plan t"
    using final_sink_spec[OF keyed task_ok_no_missing[OF that]] by simp
  show ?thesis
    unfolding accepts graph tasks_issues_ok plan_ok_def
    using keyed depth sink by (auto simp: limit_issues_def not_less)
qed

text \<open>
  Property C3: the validator accepts exactly the well-formed plans. \<open>validate\<close> returns a result
  with no issue if and only if the plan satisfies \<open>plan_ok\<close>: unique identifiers, every task in
  scope, within the platform's tools, risk and path policy and with all its dependencies in the
  plan, no dependency cycle, the required final VALIDATION sink, and all four limits.
\<close>

theorem validate_accepts_iff_plan_ok:
  assumes "plan_tasks plan \<noteq> []"
  shows "(\<exists>r. validate v plan = Inr r \<and> pv_valid r) \<longleftrightarrow> plan_ok v plan"
  using assms by (rule validate_ok_iff)

definition sample_validator :: TaskPlanValidator where
  "sample_validator = \<lparr>v_allowed_tools = {''read_file''}, v_require_final_validation_sink = True,
     v_max_risk_ceiling = HIGH, v_enforce_execution_policy = False\<rparr>"

definition sample_plan :: TaskPlan where
  "sample_plan = \<lparr>plan_run_id = 9, plan_project_id = 1, plan_repository_id = 2,
     plan_baseline_commit = replicate 40 CHR ''a'', plan_revision = 1, plan_tasks = diamond,
     plan_limits = \<lparr>pl_max_dynamic_tasks = 2, pl_max_plan_depth = 3, pl_max_total_budget_usd = 5,
       pl_max_total_execution_seconds = 60\<rparr>\<rparr>"

lemma sample_plan_accepted:
  "(case validate sample_validator sample_plan of Inr r \<Rightarrow> pv_valid r | Inl _ \<Rightarrow> False)"
  by code_simp

theorem validate_accepts_iff_plan_ok_witness:
  "plan_ok sample_validator sample_plan"
proof -
  have "plan_tasks sample_plan \<noteq> []" by (simp add: sample_plan_def diamond_def)
  moreover have "\<exists>r. validate sample_validator sample_plan = Inr r \<and> pv_valid r"
    using sample_plan_accepted by (auto split: sum.splits)
  ultimately show ?thesis by (simp add: validate_accepts_iff_plan_ok)
qed

subsection \<open>Mutations only extend a plan\<close>

lemma mutation_task_issues_Nil:
  "mutation_task_issues current_ids next_rev seen ts = [] \<longleftrightarrow>
     keyed ts_id ts \<and> (\<forall>t \<in> set ts. ts_id t \<notin> current_ids \<and> ts_id t \<notin> seen \<and> ts_plan_revision t = next_rev)"
proof (induction ts arbitrary: seen)
  case Nil
  then show ?case by simp
next
  case (Cons t ts)
  have "ts_id t \<notin> ts_id ` set ts \<longleftrightarrow> (\<forall>u \<in> set ts. ts_id u \<noteq> ts_id t)"
    by (metis image_iff)
  then show ?case unfolding mutation_task_issues.simps append_is_Nil_conv issue_if_Nil Cons.IH
    by (auto simp: keyed_def)
qed

lemma validate_mutation_valid:
  assumes "validate_mutation v current m = Inr r" and "mv_valid r"
  shows "mv_proposed_plan r = Some (proposed_plan current m)" "mv_issues r = []"
    "mut_base_revision m = plan_revision current"
    "keyed ts_id (mut_tasks m)"
    "\<forall>t \<in> set (mut_tasks m). ts_id t \<notin> ids (plan_tasks current) \<and> ts_plan_revision t = plan_revision current + 1"
    "TaskPlan_model (proposed_plan current m) = Inr (proposed_plan current m)"
    "\<exists>w. validate v (proposed_plan current m) = Inr w \<and> pv_valid w"
proof -
  let ?issues = "issue_if (mut_base_revision m \<noteq> plan_revision current) (issue ''STALE_PLAN_REVISION'')
      @ mutation_task_issues (ids (plan_tasks current)) (plan_revision current + 1) {} (mut_tasks m)"
  have quiet: "?issues = []"
    using assms by (auto simp: validate_mutation_def Let_def split: if_splits)
  then obtain p w where p: "TaskPlan_model (proposed_plan current m) = Inr p" "validate v p = Inr w"
    "pv_valid w" "r = \<lparr>mv_valid = True, mv_issues = [], mv_proposed_plan = Some p\<rparr>"
    using assms unfolding validate_mutation_def Let_def
    by (auto simp: bnd_eq_Inr split: if_splits)
  have "p = proposed_plan current m" using p(1) by (simp add: TaskPlan_model_Inr)
  then show "mv_proposed_plan r = Some (proposed_plan current m)" "mv_issues r = []"
    "TaskPlan_model (proposed_plan current m) = Inr (proposed_plan current m)"
    "\<exists>w. validate v (proposed_plan current m) = Inr w \<and> pv_valid w"
    using p by auto
  show "mut_base_revision m = plan_revision current" "keyed ts_id (mut_tasks m)"
    "\<forall>t \<in> set (mut_tasks m). ts_id t \<notin> ids (plan_tasks current) \<and> ts_plan_revision t = plan_revision current + 1"
    using quiet by (simp_all add: mutation_task_issues_Nil)
qed

text \<open>
  Property C15: a mutation that is accepted never edits or drops a task. The proposed plan has
  the current plan's tasks unchanged and in front, the mutation's tasks behind them with fresh
  identifiers and the next revision number, the same scope and limits, and it satisfies the
  validator's specification as a whole.
\<close>

theorem accepted_mutation_extends_plan:
  assumes "validate_mutation v current m = Inr r" and "mv_valid r"
  shows "\<exists>p. mv_proposed_plan r = Some p \<and>
    plan_tasks p = plan_tasks current @ mut_tasks m \<and>
    plan_revision p = plan_revision current + 1 \<and> mut_base_revision m = plan_revision current \<and>
    plan_limits p = plan_limits current \<and> plan_run_id p = plan_run_id current \<and>
    plan_baseline_commit p = plan_baseline_commit current \<and>
    (\<forall>t \<in> set (mut_tasks m). ts_id t \<notin> ids (plan_tasks current) \<and> ts_plan_revision t = plan_revision p) \<and>
    plan_ok v p"
proof -
  note facts = validate_mutation_valid[OF assms]
  have "plan_tasks (proposed_plan current m) \<noteq> []"
    using facts(6) by (auto simp: TaskPlan_model_Inr TaskPlan_fields_def)
  then have "plan_ok v (proposed_plan current m)" using facts(7) validate_ok_iff by blast
  then show ?thesis
    using facts(1,3,5) by (intro exI[of _ "proposed_plan current m"]) (simp add: proposed_plan_def)
qed

definition sample_mutation :: TaskPlanMutation where
  "sample_mutation = \<lparr>mut_mutation_id = 50, mut_base_revision = 1, mut_reason = ''repair'',
     mut_tasks = [(plain_task 5 VALIDATION [4])\<lparr>ts_plan_revision := 2\<rparr>]\<rparr>"

definition wide_plan :: TaskPlan where
  "wide_plan = sample_plan\<lparr>plan_limits := (plan_limits sample_plan)\<lparr>pl_max_plan_depth := 9\<rparr>\<rparr>"

lemma sample_mutation_model:
  "TaskPlan_model (proposed_plan wide_plan sample_mutation) = Inr (proposed_plan wide_plan sample_mutation)"
  by (simp add: contract_simps proposed_plan_def wide_plan_def sample_plan_def sample_mutation_def
        diamond_def plain_task_def keyed_def list_all_iff)

lemma sample_mutation_accepted:
  obtains r where "validate_mutation sample_validator wide_plan sample_mutation = Inr r" "mv_valid r"
proof -
  have quiet: "issue_if (mut_base_revision sample_mutation \<noteq> plan_revision wide_plan) (issue ''STALE_PLAN_REVISION'')
      @ mutation_task_issues (ids (plan_tasks wide_plan)) (plan_revision wide_plan + 1) {} (mut_tasks sample_mutation) = []"
    by code_simp
  have "(case validate sample_validator (proposed_plan wide_plan sample_mutation) of
      Inr w \<Rightarrow> pv_valid w | Inl _ \<Rightarrow> False)" by code_simp
  then obtain w where "validate sample_validator (proposed_plan wide_plan sample_mutation) = Inr w" "pv_valid w"
    by (auto split: sum.splits)
  then show thesis
    using that quiet by (simp add: validate_mutation_def sample_mutation_model)
qed

theorem accepted_mutation_extends_plan_witness:
  "\<exists>p. plan_tasks p = diamond @ mut_tasks sample_mutation \<and> plan_revision p = 2 \<and>
     plan_ok sample_validator p"
proof -
  obtain r where "validate_mutation sample_validator wide_plan sample_mutation = Inr r" "mv_valid r"
    by (rule sample_mutation_accepted)
  from accepted_mutation_extends_plan[OF this] show ?thesis
    by (auto simp: wide_plan_def sample_plan_def)
qed

subsection \<open>Only boundedly many mutations are accepted\<close>

text \<open>A run of the planner: mutations applied one after the other, each to the last accepted plan.\<close>

fun accept_all :: "TaskPlanValidator \<Rightarrow> TaskPlan \<Rightarrow> TaskPlanMutation list \<Rightarrow> TaskPlan option" where
  "accept_all v plan [] = Some plan"
| "accept_all v plan (m # ms) =
     (case validate_mutation v plan m of
        Inl _ \<Rightarrow> None
      | Inr r \<Rightarrow> (case mv_proposed_plan r of None \<Rightarrow> None | Some p \<Rightarrow> accept_all v p ms))"

lemma proposed_imp_valid:
  "validate_mutation v current m = Inr r \<Longrightarrow> mv_proposed_plan r = Some p \<Longrightarrow> mv_valid r"
  by (auto simp: validate_mutation_def Let_def bnd_eq_Inr split: if_splits)

lemma dynamic_tasks_append: "dynamic_tasks (ts @ us) = dynamic_tasks ts + dynamic_tasks us"
  by (simp add: dynamic_tasks_def)

lemma dynamic_tasks_all:
  "(\<And>t. t \<in> set ts \<Longrightarrow> 1 < ts_plan_revision t) \<Longrightarrow> dynamic_tasks ts = int (length ts)"
  by (simp add: dynamic_tasks_def filter_id_conv[THEN iffD2])

lemma accepted_step:
  assumes "validate_mutation v plan m = Inr r" and "mv_proposed_plan r = Some p"
    and "1 \<le> plan_revision plan" and "mut_tasks m \<noteq> []"
  shows "p = proposed_plan plan m"
    and "dynamic_tasks (plan_tasks plan) + 1 \<le> dynamic_tasks (plan_tasks p)"
    and "dynamic_tasks (plan_tasks p) \<le> pl_max_dynamic_tasks (plan_limits plan)"
proof -
  note facts = validate_mutation_valid[OF assms(1) proposed_imp_valid[OF assms(1,2)]]
  show p: "p = proposed_plan plan m" using facts(1) assms(2) by simp
  have "dynamic_tasks (mut_tasks m) = int (length (mut_tasks m))"
    by (rule dynamic_tasks_all) (use facts(5) assms(3) in auto)
  then show "dynamic_tasks (plan_tasks plan) + 1 \<le> dynamic_tasks (plan_tasks p)"
    using assms(4) by (cases "mut_tasks m") (simp_all add: p proposed_plan_def dynamic_tasks_append)
  have "plan_tasks p \<noteq> []" using assms(4) by (simp add: p proposed_plan_def)
  then have "plan_ok v p" using facts(7) validate_ok_iff p by blast
  then show "dynamic_tasks (plan_tasks p) \<le> pl_max_dynamic_tasks (plan_limits plan)"
    by (simp add: plan_ok_def p proposed_plan_def)
qed

lemma accept_all_bounded:
  assumes "accept_all v plan ms = Some q" and "1 \<le> plan_revision plan"
    and "\<forall>m \<in> set ms. mut_tasks m \<noteq> []"
    and "dynamic_tasks (plan_tasks plan) \<le> pl_max_dynamic_tasks (plan_limits plan)"
  shows "int (length ms) + dynamic_tasks (plan_tasks plan) \<le> pl_max_dynamic_tasks (plan_limits plan) \<and>
    plan_revision q = plan_revision plan + int (length ms) \<and> prefix (plan_tasks plan) (plan_tasks q)"
  using assms
proof (induction ms arbitrary: plan)
  case Nil
  then show ?case by simp
next
  case (Cons m ms)
  obtain r p where r: "validate_mutation v plan m = Inr r" "mv_proposed_plan r = Some p"
    "accept_all v p ms = Some q"
    using Cons.prems(1) by (auto split: sum.splits option.splits)
  have "mut_tasks m \<noteq> []" using Cons.prems(3) by simp
  note step = accepted_step[OF r(1,2) Cons.prems(2) this]
  have "int (length ms) + dynamic_tasks (plan_tasks p) \<le> pl_max_dynamic_tasks (plan_limits p) \<and>
      plan_revision q = plan_revision p + int (length ms) \<and> prefix (plan_tasks p) (plan_tasks q)"
    by (rule Cons.IH[OF r(3)]) (use Cons.prems step in \<open>auto simp: proposed_plan_def\<close>)
  then show ?case
    using step by (auto simp: proposed_plan_def dest: prefix_order.trans append_prefixD)
qed

text \<open>
  Property C20: re-planning is bounded. However many mutations are proposed, the accepted ones
  number at most the dynamic-task limit minus the dynamic tasks the plan already has; every
  accepted mutation raises the revision by one and keeps all earlier tasks.
\<close>

theorem accepted_mutations_bounded:
  assumes "accept_all v plan ms = Some q" and "1 \<le> plan_revision plan"
    and "\<forall>m \<in> set ms. mut_tasks m \<noteq> []"
    and "dynamic_tasks (plan_tasks plan) \<le> pl_max_dynamic_tasks (plan_limits plan)"
  shows "int (length ms) \<le> pl_max_dynamic_tasks (plan_limits plan) - dynamic_tasks (plan_tasks plan) \<and>
    plan_revision q = plan_revision plan + int (length ms) \<and> prefix (plan_tasks plan) (plan_tasks q)"
  using accept_all_bounded[OF assms] by linarith

theorem accepted_mutations_bounded_witness:
  "\<exists>q. accept_all sample_validator wide_plan [sample_mutation] = Some q \<and> plan_revision q = 2"
proof -
  obtain r where r: "validate_mutation sample_validator wide_plan sample_mutation = Inr r" "mv_valid r"
    by (rule sample_mutation_accepted)
  obtain q where q: "accept_all sample_validator wide_plan [sample_mutation] = Some q"
    using validate_mutation_valid(1)[OF r] r(1) by simp
  have "1 \<le> plan_revision wide_plan" and "\<forall>m \<in> set [sample_mutation]. mut_tasks m \<noteq> []"
    and "dynamic_tasks (plan_tasks wide_plan) \<le> pl_max_dynamic_tasks (plan_limits wide_plan)"
    by code_simp+
  from accepted_mutations_bounded[OF q this]
  have "plan_revision q = plan_revision wide_plan + int (length [sample_mutation])" by blast
  moreover have "plan_revision wide_plan + int (length [sample_mutation]) = 2" by code_simp
  ultimately show ?thesis using q by simp
qed

subsection \<open>When the validator itself raises\<close>

lemma tasks_issues_raises:
  assumes "validate_task_semantics v t by_id = Inl e" and "t \<in> set ts"
    and "\<And>u. u \<in> set ts \<Longrightarrow> u \<noteq> t \<Longrightarrow> \<exists>i. validate_task_semantics v u by_id = Inr i"
  shows "tasks_issues v plan by_id ts = Inl e"
  using assms(2,3)
proof (induction ts)
  case Nil
  then show ?case by simp
next
  case (Cons u ts)
  show ?case
  proof (cases "u = t")
    case True
    then show ?thesis using assms(1) by simp
  next
    case False
    then obtain i where "validate_task_semantics v u by_id = Inr i" using Cons.prems(2) by auto
    then show ?thesis using Cons False by simp
  qed
qed

text \<open>
  A repository path that denotes the repository root makes the validator raise.
  For \<open>.\<close>, which the contract model admits, \<open>_is_repository_relative\<close> indexes an empty tuple of
  parts, and \<open>validate\<close> raises \<open>IndexError\<close> for every plan with such a path whose other paths
  are accepted, instead of returning a result.
\<close>

theorem validate_raises_on_root_path:
  assumes "t \<in> set (plan_tasks plan)" and "ts_repository_paths t = [''.'']"
    and "\<And>u. u \<in> set (plan_tasks plan) \<Longrightarrow> u \<noteq> t \<Longrightarrow> ts_repository_paths u = []"
  shows "validate v plan = Inl IndexError"
proof -
  obtain by_id dups where index: "index_tasks (plan_tasks plan) [] {} = (by_id, dups)"
    by (cases "index_tasks (plan_tasks plan) [] {}")
  have "is_repository_relative ''.'' = Inl IndexError" by code_simp
  then have "validate_task_semantics v t by_id = Inl IndexError"
    using assms(2) by (simp add: validate_task_semantics_def)
  moreover have "\<exists>i. validate_task_semantics v u by_id = Inr i" if "u \<in> set (plan_tasks plan)" "u \<noteq> t" for u
    using assms(3)[OF that] by (simp add: validate_task_semantics_def)
  ultimately have "tasks_issues v plan by_id (sort_key ts_id (plan_tasks plan)) = Inl IndexError"
    using assms(1) by (intro tasks_issues_raises) auto
  then show ?thesis by (simp add: validate_def index Let_def)
qed

theorem validate_raises_on_root_path_witness:
  "TaskSpec_model ((plain_task 1 TEST [])\<lparr>ts_repository_paths := [''.'']\<rparr>) =
     Inr ((plain_task 1 TEST [])\<lparr>ts_repository_paths := [''.'']\<rparr>) \<and>
   validate sample_validator
     (sample_plan\<lparr>plan_tasks := [(plain_task 1 TEST [])\<lparr>ts_repository_paths := [''.'']\<rparr>]\<rparr>) = Inl IndexError"
proof
  show "validate sample_validator
     (sample_plan\<lparr>plan_tasks := [(plain_task 1 TEST [])\<lparr>ts_repository_paths := [''.'']\<rparr>]\<rparr>) = Inl IndexError"
    by (rule validate_raises_on_root_path[of "(plain_task 1 TEST [])\<lparr>ts_repository_paths := [''.'']\<rparr>"])
       (simp_all add: sample_plan_def)
  show "TaskSpec_model ((plain_task 1 TEST [])\<lparr>ts_repository_paths := [''.'']\<rparr>) =
     Inr ((plain_task 1 TEST [])\<lparr>ts_repository_paths := [''.'']\<rparr>)"
    by (simp add: contract_simps plain_task_def)
qed

end
