(* ===== verification/Store.thy ===== *)
theory Store
  imports Plan_Model Risk_Policy
begin

section \<open>The database and its repository\<close>

text \<open>
  \<open>src/persistence/tables.py\<close>, \<open>database.py\<close> and \<open>repositories.py\<close>. A table is the list of its
  rows, a row a record of the columns that modelled code reads or writes, behind a short
  prefix. Surrogate keys with a \<open>uuid4\<close> default that no code reads, \<open>updated_at\<close> stamps, indexes
  and foreign keys are left out; unique and check constraints that an INSERT can violate are
  kept and raise \<open>IntegrityError\<close>. Columns that hold an enumeration's text, a JSON list of UUID
  texts or a dumped contract model hold the value itself.

  \<open>db\<close> is the whole database together with what a transaction observes of its environment:
  the clock behind \<open>utc_now()\<close>, the stream of values \<open>uuid4()\<close> draws, and the digest function
  behind \<open>canonical_sha256\<close>. A repository method is a function on \<open>db\<close> that may raise; a
  transaction (\<open>commit\<close>) keeps its effect when it returns and discards it when it raises. Row
  locks need no counterpart because transactions run one at a time here.
\<close>

subsection \<open>Event payloads\<close>

text \<open>
  The values of a JSON event payload. \<open>PId u\<close> is a value whose text Python's \<open>UUID\<close> constructor
  reads as \<open>u\<close>, \<open>PText\<close> any other text; the enumeration values stand for their texts. \<open>PJson\<close> embeds
  a document of the tool layer.
\<close>

datatype pvalue = PText string | PId uuid | PInt int | PNone | PTexts "string list"
  | PTask TaskStatus | PGraph GraphExecutionState | PRun RunStatus | PList "pvalue list"
  | PMap "(string \<times> pvalue) list" | PJson json

type_synonym payload = "(string \<times> pvalue) list"

subsection \<open>Rows\<close>

record ProjectRow =
  pj_id :: uuid
  pj_name :: string
  pj_created_at :: time

record RepositoryRow =
  rp_id :: uuid
  rp_project_id :: uuid
  rp_source_path :: string
  rp_default_branch :: string

record RunRow =
  rn_id :: uuid
  rn_project_id :: uuid
  rn_repository_id :: uuid
  rn_goal :: string
  rn_baseline_commit :: string
  rn_state :: RunStatus
  rn_state_entered_at :: time
  rn_cancellation_requested_at :: "time option"

record PlanRevisionRow =
  pr_run_id :: uuid
  pr_revision :: int
  pr_plan :: TaskPlan
  pr_created_at :: time

record RepairMutationRow =
  rm_mutation_id :: uuid
  rm_run_id :: uuid
  rm_base_revision :: int
  rm_accepted_revision :: "int option"
  rm_failure_signature :: string
  rm_progress_fingerprint :: string
  rm_mutation_hash :: string
  rm_verification_artifact_ids :: "uuid list"
  rm_status :: string
  rm_reason_codes :: "string list"
  rm_mutation :: TaskPlanMutation
  rm_created_at :: time

record TaskRow =
  tr_id :: uuid
  tr_run_id :: uuid
  tr_project_id :: uuid
  tr_repository_id :: uuid
  tr_plan_revision :: int
  tr_title :: string
  tr_description :: string
  tr_task_type :: TaskType
  tr_dependencies :: "uuid list"
  tr_priority :: int
  tr_assigned_capability :: string
  tr_acceptance_criteria :: "string list"
  tr_allowed_tools :: "string list"
  tr_risk_ceiling :: RiskLevel
  tr_expected_artifacts :: "string list"
  tr_repository_paths :: "string list"
  tr_retry_policy :: RetryPolicy
  tr_budget :: BudgetPolicy
  tr_estimate :: ResourceEstimate
  tr_state :: TaskStatus
  tr_version :: int
  tr_state_entered_at :: time
  tr_created_at :: time

record TaskAttemptRow =
  ta_id :: uuid
  ta_task_id :: uuid
  ta_agent_spec_hash :: string
  ta_status :: string
  ta_started_at :: time
  ta_ended_at :: "time option"

record RunStageAttemptRow =
  ra_id :: uuid
  ra_run_id :: uuid
  ra_stage :: string
  ra_agent_spec_hash :: string
  ra_status :: string
  ra_started_at :: time
  ra_ended_at :: "time option"

record ModelCallRow =
  mc_id :: uuid
  mc_run_id :: uuid
  mc_task_id :: "uuid option"
  mc_attempt_id :: "uuid option"
  mc_run_stage_attempt_id :: "uuid option"
  mc_trace_id :: string
  mc_provider_request_id :: "string option"
  mc_model :: string
  mc_turn :: int
  mc_agent_spec_hash :: string
  mc_input_tokens :: int
  mc_output_tokens :: int
  mc_cached_input_tokens :: int
  mc_cost_usd :: usd
  mc_failure_class :: "string option"
  mc_validation_errors :: "string list"
  mc_tool_call_ids :: "string list"
  mc_created_at :: time

record LeaseRow =
  lr_task_id :: uuid
  lr_owner :: string
  lr_token :: uuid
  lr_expires_at :: time
  lr_heartbeat_at :: time
  lr_created_at :: time

record ReservationRow =
  rs_task_id :: uuid
  rs_project_id :: uuid
  rs_resource :: string
  rs_units :: int
  rs_created_at :: time
  rs_released_at :: "time option"

record ProjectTaskResourceEstimateRow =
  es_project_id :: uuid
  es_task_type :: TaskType
  es_sample_count :: int
  es_average_cpu_time_ms :: rat
  es_peak_memory_bytes :: int
  es_average_duration_ms :: rat
  es_average_output_bytes :: rat
  es_average_network_requests :: rat
  es_average_model_tokens :: rat
  es_average_cost_usd :: usd
  es_updated_at :: time

record GraphExecutionRow =
  gx_id :: uuid
  gx_task_id :: uuid
  gx_run_id :: uuid
  gx_repository_id :: uuid
  gx_baseline_commit :: string
  gx_thread_id :: string
  gx_state :: GraphExecutionState
  gx_checkpoint_id :: "string option"
  gx_state_entered_at :: time

record OutboxRow =
  ob_event_id :: uuid
  ob_topic :: string
  ob_payload :: payload
  ob_attempts :: int
  ob_next_attempt_at :: time
  ob_published_at :: "time option"
  ob_dead_lettered_at :: "time option"
  ob_last_error :: "string option"
  ob_publisher :: "string option"
  ob_claim_token :: "uuid option"
  ob_claimed_until :: "time option"
  ob_created_at :: time

record ConsumerReceiptRow =
  rc_consumer :: string
  rc_event_id :: uuid
  rc_claimed_at :: time

record ConsumerDeliveryRow =
  dl_consumer :: string
  dl_event_id :: uuid
  dl_topic :: string
  dl_attempts :: int
  dl_status :: string
  dl_next_attempt_at :: time
  dl_last_error :: "string option"
  dl_updated_at :: time

record DeadLetterRow =
  dd_event_id :: uuid
  dd_consumer :: string
  dd_topic :: string
  dd_payload :: payload
  dd_attempts :: int
  dd_last_error :: string
  dd_causation_chain :: "uuid list"
  dd_created_at :: time
  dd_resolved_at :: "time option"

record ToolExecutionRow =
  te_id :: uuid
  te_run_id :: uuid
  te_task_id :: uuid
  te_attempt_id :: uuid
  te_requested_by :: string
  te_tool_name :: string
  te_tool_version :: string
  te_arguments :: "(string \<times> json) list"
  te_idempotency_key :: string
  te_status :: string
  te_result :: "(string \<times> json) list"
  te_created_at :: time
  te_completed_at :: "time option"

record ApprovalRow =
  ap_id :: uuid
  ap_call_id :: uuid
  ap_project_id :: uuid
  ap_repository_id :: uuid
  ap_baseline_commit :: string
  ap_call_hash :: string
  ap_status :: ApprovalStatus
  ap_expires_at :: time
  ap_created_at :: time
  ap_decided_at :: "time option"
  ap_approver :: "string option"

record ArtifactRow =
  ar_id :: uuid
  ar_project_id :: uuid
  ar_run_id :: uuid
  ar_task_id :: uuid
  ar_sha256 :: string
  ar_media_type :: string
  ar_state :: ArtifactState
  ar_storage_key :: string
  ar_size_bytes :: int
  ar_created_at :: time
  ar_verified_at :: "time option"

record StateDurationRow =
  sd_aggregate_type :: string
  sd_aggregate_id :: uuid
  sd_state :: pvalue
  sd_entered_at :: time
  sd_exited_at :: time
  sd_duration_seconds :: time

record WorkflowNodeExecutionRow =
  wn_id :: uuid
  wn_task_id :: uuid
  wn_attempt_id :: uuid
  wn_node_name :: string
  wn_idempotency_key :: string
  wn_status :: string
  wn_result :: "(string \<times> json) list"
  wn_started_at :: time
  wn_completed_at :: "time option"

record AuditEventRow =
  au_id :: uuid
  au_event_type :: string
  au_aggregate_type :: string
  au_aggregate_id :: uuid
  au_payload :: payload
  au_correlation_id :: uuid
  au_causation_id :: uuid
  au_content_hash :: string
  au_created_at :: time

subsection \<open>The database\<close>

record db =
  projects :: "ProjectRow list"
  repositories :: "RepositoryRow list"
  runs :: "RunRow list"
  plan_revisions :: "PlanRevisionRow list"
  repair_mutations :: "RepairMutationRow list"
  tasks :: "TaskRow list"
  task_attempts :: "TaskAttemptRow list"
  run_stage_attempts :: "RunStageAttemptRow list"
  model_calls :: "ModelCallRow list"
  leases :: "LeaseRow list"
  reservations :: "ReservationRow list"
  estimates :: "ProjectTaskResourceEstimateRow list"
  graph_executions :: "GraphExecutionRow list"
  outbox :: "OutboxRow list"
  consumer_receipts :: "ConsumerReceiptRow list"
  consumer_deliveries :: "ConsumerDeliveryRow list"
  dead_letters :: "DeadLetterRow list"
  tool_executions :: "ToolExecutionRow list"
  approvals :: "ApprovalRow list"
  artifacts :: "ArtifactRow list"
  state_durations :: "StateDurationRow list"
  node_executions :: "WorkflowNodeExecutionRow list"
  audit_events :: "AuditEventRow list"
  db_clock :: time
  db_entropy :: "nat \<Rightarrow> uuid"
  db_drawn :: nat
  db_digest :: "payload \<Rightarrow> string"

definition empty_db :: db where
  "empty_db = \<lparr>projects = [], repositories = [], runs = [], plan_revisions = [],
     repair_mutations = [], tasks = [], task_attempts = [], run_stage_attempts = [],
     model_calls = [], leases = [], reservations = [], estimates = [], graph_executions = [],
     outbox = [], consumer_receipts = [], consumer_deliveries = [], dead_letters = [],
     tool_executions = [], approvals = [], artifacts = [], state_durations = [],
     node_executions = [], audit_events = [], db_clock = 0, db_entropy = (\<lambda>n. 1000 + n),
     db_drawn = 0, db_digest = (\<lambda>_. [])\<rparr>"

text \<open>
  \<open>Database.transaction\<close>: \<open>session.begin()\<close> commits when the block returns and rolls back when
  it raises.
\<close>

definition commit :: "(db \<Rightarrow> ('a \<times> db) result) \<Rightarrow> db \<Rightarrow> 'a result \<times> db" where
  "commit body s = (case body s of Inl e \<Rightarrow> (Inl e, s) | Inr (a, s') \<Rightarrow> (Inr a, s'))"

definition utc_now :: "db \<Rightarrow> time" where
  "utc_now s = db_clock s"

definition uuid4 :: "db \<Rightarrow> uuid \<times> db" where
  "uuid4 s = (db_entropy s (db_drawn s), s\<lparr>db_drawn := Suc (db_drawn s)\<rparr>)"

subsection \<open>Repository: audit, outbox and durations\<close>

definition record_state_duration ::
  "string \<Rightarrow> uuid \<Rightarrow> pvalue \<Rightarrow> time \<Rightarrow> time \<Rightarrow> db \<Rightarrow> db" where
  "record_state_duration aggregate_type aggregate_id state entered_at exited_at s =
     s\<lparr>state_durations := state_durations s @
        [\<lparr>sd_aggregate_type = aggregate_type, sd_aggregate_id = aggregate_id, sd_state = state,
          sd_entered_at = entered_at, sd_exited_at = exited_at,
          sd_duration_seconds = duration_seconds entered_at exited_at\<rparr>]\<rparr>"

definition audit_row ::
  "uuid \<Rightarrow> string \<Rightarrow> string \<Rightarrow> uuid \<Rightarrow> payload \<Rightarrow> uuid \<Rightarrow> uuid \<Rightarrow> db \<Rightarrow> AuditEventRow" where
  "audit_row event_id event_type aggregate_type aggregate_id payload correlation_id causation_id s =
     \<lparr>au_id = event_id, au_event_type = event_type, au_aggregate_type = aggregate_type,
      au_aggregate_id = aggregate_id, au_payload = payload, au_correlation_id = correlation_id,
      au_causation_id = causation_id,
      au_content_hash = db_digest s
        ([(''event_id'', PId event_id), (''event_type'', PText event_type),
          (''aggregate_type'', PText aggregate_type), (''aggregate_id'', PId aggregate_id),
          (''payload'', PMap payload), (''correlation_id'', PId correlation_id),
          (''causation_id'', PId causation_id)]),
      au_created_at = utc_now s\<rparr>"

definition append_audit ::
  "uuid \<Rightarrow> string \<Rightarrow> string \<Rightarrow> uuid \<Rightarrow> payload \<Rightarrow> uuid \<Rightarrow> uuid \<Rightarrow> db \<Rightarrow> db result" where
  "append_audit event_id event_type aggregate_type aggregate_id payload correlation_id causation_id s =
     bnd (row_insert au_id (audit_row event_id event_type aggregate_type aggregate_id payload
            correlation_id causation_id s) (audit_events s))
       (\<lambda>rows. Inr (s\<lparr>audit_events := rows\<rparr>))"

definition outbox_row :: "uuid \<Rightarrow> string \<Rightarrow> payload \<Rightarrow> db \<Rightarrow> OutboxRow" where
  "outbox_row event_id topic payload s =
     \<lparr>ob_event_id = event_id, ob_topic = topic, ob_payload = payload, ob_attempts = 0,
      ob_next_attempt_at = utc_now s, ob_published_at = None, ob_dead_lettered_at = None,
      ob_last_error = None, ob_publisher = None, ob_claim_token = None,
      ob_claimed_until = None, ob_created_at = utc_now s\<rparr>"

definition enqueue_event :: "uuid \<Rightarrow> string \<Rightarrow> payload \<Rightarrow> db \<Rightarrow> db result" where
  "enqueue_event event_id topic payload s =
     bnd (row_insert ob_event_id (outbox_row event_id topic payload s) (outbox s))
       (\<lambda>rows. Inr (s\<lparr>outbox := rows\<rparr>))"

text \<open>Every state change appends an audit event and an outbox event under one fresh identifier.\<close>

definition emit ::
  "string \<Rightarrow> string \<Rightarrow> uuid \<Rightarrow> payload \<Rightarrow> uuid \<Rightarrow> string \<Rightarrow> db \<Rightarrow> db result" where
  "emit event_type aggregate_type aggregate_id payload correlation_id topic s =
     (let (event_id, s1) = uuid4 s
      in bnd (append_audit event_id event_type aggregate_type aggregate_id payload correlation_id event_id s1)
           (enqueue_event event_id topic payload))"

subsection \<open>Repository: projects, repositories, runs, plan revisions\<close>

definition create_project :: "uuid \<Rightarrow> string \<Rightarrow> db \<Rightarrow> db result" where
  "create_project project_id name s =
     bnd (row_insert pj_id \<lparr>pj_id = project_id, pj_name = name, pj_created_at = utc_now s\<rparr> (projects s))
       (\<lambda>rows. Inr (s\<lparr>projects := rows\<rparr>))"

definition create_repository :: "uuid \<Rightarrow> uuid \<Rightarrow> string \<Rightarrow> string \<Rightarrow> db \<Rightarrow> db result" where
  "create_repository repository_id project_id source_path default_branch s =
     bnd (row_insert rp_id
            \<lparr>rp_id = repository_id, rp_project_id = project_id, rp_source_path = source_path,
             rp_default_branch = default_branch\<rparr> (repositories s))
       (\<lambda>rows. Inr (s\<lparr>repositories := rows\<rparr>))"

definition create_run :: "uuid \<Rightarrow> uuid \<Rightarrow> uuid \<Rightarrow> string \<Rightarrow> string \<Rightarrow> db \<Rightarrow> db result" where
  "create_run run_id project_id repository_id goal baseline_commit s =
     bnd (guard (40 \<le> length baseline_commit) IntegrityError) (\<lambda>_.
     bnd (row_insert rn_id
            \<lparr>rn_id = run_id, rn_project_id = project_id, rn_repository_id = repository_id,
             rn_goal = goal, rn_baseline_commit = baseline_commit, rn_state = RunStatus.PENDING,
             rn_state_entered_at = utc_now s, rn_cancellation_requested_at = None\<rparr> (runs s))
       (\<lambda>rows. Inr (s\<lparr>runs := rows\<rparr>)))"

definition create_plan_revision :: "uuid \<Rightarrow> int \<Rightarrow> TaskPlan \<Rightarrow> db \<Rightarrow> db result" where
  "create_plan_revision run_id revision plan s =
     bnd (guard (1 \<le> revision) IntegrityError) (\<lambda>_.
     bnd (row_insert (\<lambda>r. (pr_run_id r, pr_revision r))
            \<lparr>pr_run_id = run_id, pr_revision = revision, pr_plan = plan, pr_created_at = utc_now s\<rparr>
            (plan_revisions s))
       (\<lambda>rows. Inr (s\<lparr>plan_revisions := rows\<rparr>)))"

subsection \<open>Repository: tasks, attempts, leases\<close>

definition create_task :: "uuid \<Rightarrow> TaskSpec \<Rightarrow> db \<Rightarrow> db result" where
  "create_task run_id task s =
     bnd (row_insert tr_id
            \<lparr>tr_id = ts_id task, tr_run_id = run_id, tr_project_id = ts_project_id task,
             tr_repository_id = ts_repository_id task, tr_plan_revision = ts_plan_revision task,
             tr_title = ts_title task, tr_description = ts_description task,
             tr_task_type = ts_task_type task, tr_dependencies = ts_dependencies task,
             tr_priority = ts_priority task, tr_assigned_capability = ts_assigned_capability task,
             tr_acceptance_criteria = ts_acceptance_criteria task,
             tr_allowed_tools = ts_allowed_tools task, tr_risk_ceiling = ts_risk_ceiling task,
             tr_expected_artifacts = ts_expected_artifacts task,
             tr_repository_paths = ts_repository_paths task, tr_retry_policy = ts_retry_policy task,
             tr_budget = ts_budget task, tr_estimate = ts_estimate task,
             tr_state = TaskStatus.PENDING, tr_version = 1, tr_state_entered_at = utc_now s,
             tr_created_at = utc_now s\<rparr> (tasks s))
       (\<lambda>rows. Inr (s\<lparr>tasks := rows\<rparr>))"

definition get_task :: "uuid \<Rightarrow> uuid \<Rightarrow> db \<Rightarrow> TaskRow option" where
  "get_task project_id task_id s =
     find (\<lambda>r. tr_id r = task_id \<and> tr_project_id r = project_id) (tasks s)"

definition set_task_row :: "uuid \<Rightarrow> (TaskRow \<Rightarrow> TaskRow) \<Rightarrow> db \<Rightarrow> db" where
  "set_task_row task_id f s = s\<lparr>tasks := row_update (\<lambda>r. tr_id r = task_id) f (tasks s)\<rparr>"

definition enter_state :: "TaskStatus \<Rightarrow> time \<Rightarrow> TaskRow \<Rightarrow> TaskRow" where
  "enter_state target now r =
     r\<lparr>tr_state := target, tr_version := tr_version r + 1, tr_state_entered_at := now\<rparr>"

definition transition_task :: "uuid \<Rightarrow> uuid \<Rightarrow> int \<Rightarrow> TaskStatus \<Rightarrow> db \<Rightarrow> db result" where
  "transition_task project_id task_id expected_version target s =
     (case get_task project_id task_id s of
        None \<Rightarrow> Inl (LookupError ''task does not exist in project'')
      | Some row \<Rightarrow>
          if tr_version row \<noteq> expected_version then Inl StaleStateError
          else bnd (require_task_transition (tr_state row) target) (\<lambda>_.
            let now = utc_now s;
                s1 = record_state_duration ''task'' (tr_id row) (PTask (tr_state row))
                       (tr_state_entered_at row) now s;
                s2 = set_task_row task_id (enter_state target now) s1;
                payload = [(''task_id'', PId task_id), (''project_id'', PId project_id),
                           (''from'', PTask (tr_state row)), (''to'', PTask target),
                           (''version'', PInt (tr_version row + 1))]
            in emit ''task.state_changed'' ''task'' task_id payload (tr_run_id row) ''task-state'' s2))"

definition create_attempt :: "uuid \<Rightarrow> uuid \<Rightarrow> string \<Rightarrow> db \<Rightarrow> db result" where
  "create_attempt attempt_id task_id agent_spec_hash s =
     bnd (guard (length agent_spec_hash = 64) IntegrityError) (\<lambda>_.
     bnd (row_insert ta_id
            \<lparr>ta_id = attempt_id, ta_task_id = task_id, ta_agent_spec_hash = agent_spec_hash,
             ta_status = ''RUNNING'', ta_started_at = utc_now s, ta_ended_at = None\<rparr> (task_attempts s))
       (\<lambda>rows. Inr (s\<lparr>task_attempts := rows\<rparr>)))"

definition create_lease :: "uuid \<Rightarrow> string \<Rightarrow> uuid \<Rightarrow> time \<Rightarrow> db \<Rightarrow> db result" where
  "create_lease task_id owner token expires_at s =
     bnd (guard (token \<notin> lr_token ` set (leases s)) IntegrityError) (\<lambda>_.
     bnd (row_insert lr_task_id
            \<lparr>lr_task_id = task_id, lr_owner = owner, lr_token = token, lr_expires_at = expires_at,
             lr_heartbeat_at = utc_now s, lr_created_at = utc_now s\<rparr> (leases s))
       (\<lambda>rows. Inr (s\<lparr>leases := rows\<rparr>)))"

subsection \<open>Repository: graph executions\<close>

definition record_graph_execution ::
  "uuid \<Rightarrow> uuid \<Rightarrow> uuid \<Rightarrow> string \<Rightarrow> string \<Rightarrow> GraphExecutionState \<Rightarrow> string option \<Rightarrow> db
     \<Rightarrow> (GraphExecutionRow \<times> db) result" where
  "record_graph_execution task_id run_id repository_id baseline_commit thread_id state checkpoint_id s =
     (let (row_id, s1) = uuid4 s;
          row = \<lparr>gx_id = row_id, gx_task_id = task_id, gx_run_id = run_id,
                 gx_repository_id = repository_id, gx_baseline_commit = baseline_commit,
                 gx_thread_id = thread_id, gx_state = state, gx_checkpoint_id = checkpoint_id,
                 gx_state_entered_at = utc_now s\<rparr>
      in bnd (guard (thread_id \<notin> gx_thread_id ` set (graph_executions s1) \<and>
                     row_id \<notin> gx_id ` set (graph_executions s1) \<and> 40 \<le> length baseline_commit) IntegrityError) (\<lambda>_.
         bnd (row_insert gx_task_id row (graph_executions s1)) (\<lambda>rows.
           Inr (row, s1\<lparr>graph_executions := rows\<rparr>))))"

definition graph_of :: "uuid \<Rightarrow> db \<Rightarrow> GraphExecutionRow option" where
  "graph_of task_id s = row_get gx_task_id task_id (graph_executions s)"

definition set_graph_row :: "uuid \<Rightarrow> (GraphExecutionRow \<Rightarrow> GraphExecutionRow) \<Rightarrow> db \<Rightarrow> db" where
  "set_graph_row task_id f s =
     s\<lparr>graph_executions := row_update (\<lambda>g. gx_task_id g = task_id) f (graph_executions s)\<rparr>"

text \<open>\<open>checkpoint_id or row.checkpoint_id\<close>: the empty text counts as absent.\<close>

definition or_checkpoint :: "string option \<Rightarrow> string option \<Rightarrow> string option" where
  "or_checkpoint new old = (case new of None \<Rightarrow> old | Some c \<Rightarrow> if c = '''' then old else Some c)"

definition checkpoint_value :: "string option \<Rightarrow> pvalue" where
  "checkpoint_value c = (case c of None \<Rightarrow> PNone | Some t \<Rightarrow> PText t)"

definition graph_changed ::
  "uuid \<Rightarrow> uuid \<Rightarrow> uuid \<Rightarrow> string \<Rightarrow> GraphExecutionState \<Rightarrow> GraphExecutionState \<Rightarrow> string option
     \<Rightarrow> db \<Rightarrow> db result" where
  "graph_changed task_id run_id row_id thread_id previous target checkpoint s =
     emit ''workflow.state_changed'' ''workflow'' row_id
       [(''task_id'', PId task_id), (''thread_id'', PText thread_id), (''from'', PGraph previous),
        (''to'', PGraph target), (''checkpoint_id'', checkpoint_value checkpoint)]
       run_id ''workflow-state'' s"

text \<open>The thread pointer moves to a fresh checkpoint chain; the only exit from a terminal state.\<close>

definition rollover ::
  "GraphExecutionRow \<Rightarrow> uuid \<Rightarrow> uuid \<Rightarrow> string \<Rightarrow> GraphExecutionState \<Rightarrow> db \<Rightarrow> db result" where
  "rollover row task_id run_id thread_id target s =
     bnd (guard (target = GraphExecutionState.RUNNING)
            (ValueError ''graph thread change is only valid as an attempt restart to RUNNING'')) (\<lambda>_.
     bnd (emit ''workflow.attempt_rollover'' ''workflow'' (gx_id row)
            [(''task_id'', PId task_id), (''from_thread_id'', PText (gx_thread_id row)),
             (''to_thread_id'', PText thread_id), (''previous_state'', PGraph (gx_state row))]
            run_id ''workflow-state'' s) (\<lambda>s1.
     bnd (guard (thread_id \<notin> gx_thread_id ` set (graph_executions s1)) IntegrityError) (\<lambda>_.
       Inr (set_graph_row task_id (\<lambda>g. g\<lparr>gx_thread_id := thread_id, gx_state_entered_at := utc_now s\<rparr>) s1))))"

definition transition_graph_execution ::
  "uuid \<Rightarrow> uuid \<Rightarrow> uuid \<Rightarrow> string \<Rightarrow> string \<Rightarrow> GraphExecutionState \<Rightarrow> string option \<Rightarrow> db \<Rightarrow> db result" where
  "transition_graph_execution task_id run_id repository_id baseline_commit thread_id target checkpoint_id s =
     (case graph_of task_id s of
        None \<Rightarrow>
          bnd (guard (target \<in> {GraphExecutionState.RUNNING, GraphExecutionState.CANCELLED})
                 (ValueError ''new graph execution must start RUNNING or CANCELLED'')) (\<lambda>_.
          bnd (record_graph_execution task_id run_id repository_id baseline_commit thread_id target
                 checkpoint_id s) (\<lambda>(row, s1).
            graph_changed task_id run_id (gx_id row) thread_id NOT_STARTED target
              (gx_checkpoint_id row) s1))
      | Some row \<Rightarrow>
          if gx_run_id row \<noteq> run_id \<or> gx_repository_id row \<noteq> repository_id \<or>
             gx_baseline_commit row \<noteq> baseline_commit
          then Inl (ValueError ''graph execution identity does not match run, task, repository, or baseline'')
          else if gx_thread_id row = thread_id \<and> gx_state row = target
          then Inr (set_graph_row task_id
                 (\<lambda>g. g\<lparr>gx_checkpoint_id := or_checkpoint checkpoint_id (gx_checkpoint_id g)\<rparr>) s)
          else
            bnd (if gx_thread_id row \<noteq> thread_id then rollover row task_id run_id thread_id target s
                 else bnd (require_graph_transition (gx_state row) target) (\<lambda>_. Inr s)) (\<lambda>s1.
            let now = utc_now s;
                entered = (if gx_thread_id row \<noteq> thread_id then now else gx_state_entered_at row);
                s2 = record_state_duration ''workflow'' (gx_id row) (PGraph (gx_state row)) entered now s1;
                checkpoint = or_checkpoint checkpoint_id (gx_checkpoint_id row);
                s3 = set_graph_row task_id (\<lambda>g. g\<lparr>gx_state := target, gx_state_entered_at := now,
                       gx_checkpoint_id := checkpoint\<rparr>) s2
            in graph_changed task_id run_id (gx_id row) thread_id (gx_state row) target checkpoint s3))"

subsection \<open>What the repository operations change\<close>

lemma commit_Inr: "body s = Inr (a, s') \<Longrightarrow> commit body s = (Inr a, s')"
  by (simp add: commit_def)

lemma commit_Inl: "body s = Inl e \<Longrightarrow> commit body s = (Inl e, s)"
  by (simp add: commit_def)

text \<open>A transaction keeps every predicate that its body keeps.\<close>

lemma commit_keeps:
  assumes "P s" and "\<And>a s'. body s = Inr (a, s') \<Longrightarrow> P s'"
  shows "P (snd (commit body s))"
  using assms by (auto simp: commit_def split: sum.splits)

lemma uuid4_simps [simp]:
  "fst (uuid4 s) = db_entropy s (db_drawn s)" "snd (uuid4 s) = s\<lparr>db_drawn := Suc (db_drawn s)\<rparr>"
  by (simp_all add: uuid4_def)

lemma emit_cases:
  assumes "emit event_type aggregate_type aggregate_id payload correlation_id topic s = Inr s'"
  obtains a e where
    "s' = s\<lparr>audit_events := audit_events s @ [a], outbox := outbox s @ [e], db_drawn := Suc (db_drawn s)\<rparr>"
    "au_id a = db_entropy s (db_drawn s)" "ob_event_id e = db_entropy s (db_drawn s)"
    "au_event_type a = event_type" "au_aggregate_id a = aggregate_id" "au_payload a = payload"
    "au_causation_id a = au_id a" "ob_topic e = topic" "ob_payload e = payload"
    "ob_published_at e = None" "ob_dead_lettered_at e = None" "ob_claimed_until e = None"
    "au_id a \<notin> au_id ` set (audit_events s)" "ob_event_id e \<notin> ob_event_id ` set (outbox s)"
proof -
  let ?id = "db_entropy s (db_drawn s)"
  let ?s = "s\<lparr>db_drawn := Suc (db_drawn s)\<rparr>"
  let ?a = "audit_row ?id event_type aggregate_type aggregate_id payload correlation_id ?id ?s"
  let ?e = "outbox_row ?id topic payload (?s\<lparr>audit_events := audit_events s @ [?a]\<rparr>)"
  have "s' = ?s\<lparr>audit_events := audit_events s @ [?a], outbox := outbox s @ [?e]\<rparr>"
    "au_id ?a \<notin> au_id ` set (audit_events s)" "ob_event_id ?e \<notin> ob_event_id ` set (outbox s)"
    using assms
    by (auto simp: emit_def uuid4_def append_audit_def enqueue_event_def bnd_eq_Inr row_insert_Inr)
  then show thesis by (intro that[where a = ?a and e = ?e]) (simp_all add: audit_row_def outbox_row_def)
qed

lemma emit_frame:
  assumes "emit event_type aggregate_type aggregate_id payload correlation_id topic s = Inr s'"
  shows "tasks s' = tasks s" "leases s' = leases s" "reservations s' = reservations s"
    "graph_executions s' = graph_executions s" "task_attempts s' = task_attempts s"
    "runs s' = runs s" "repositories s' = repositories s" "model_calls s' = model_calls s"
    "db_clock s' = db_clock s" "db_entropy s' = db_entropy s"
    "consumer_receipts s' = consumer_receipts s" "dead_letters s' = dead_letters s"
    "consumer_deliveries s' = consumer_deliveries s" "plan_revisions s' = plan_revisions s"
    "estimates s' = estimates s" "tool_executions s' = tool_executions s"
    "approvals s' = approvals s" "artifacts s' = artifacts s" "projects s' = projects s"
    "repair_mutations s' = repair_mutations s" "node_executions s' = node_executions s"
    "run_stage_attempts s' = run_stage_attempts s" "db_digest s' = db_digest s" "state_durations s' = state_durations s"
  using assms by (auto elim!: emit_cases)

text \<open>The next drawn identifier collides with no event of the log.\<close>

definition fresh_draw :: "db \<Rightarrow> bool" where
  "fresh_draw s \<longleftrightarrow> db_entropy s (db_drawn s) \<notin> au_id ` set (audit_events s) \<and>
     db_entropy s (db_drawn s) \<notin> ob_event_id ` set (outbox s)"

lemma emit_fresh:
  "fresh_draw s \<Longrightarrow> \<exists>s'. emit event_type aggregate_type aggregate_id payload correlation_id topic s = Inr s'"
  by (auto simp: fresh_draw_def emit_def uuid4_def append_audit_def enqueue_event_def row_insert_def
      audit_row_def outbox_row_def)

lemma get_task_Some:
  assumes "get_task project_id task_id s = Some row"
  shows "row \<in> set (tasks s)" "tr_id row = task_id" "tr_project_id row = project_id"
  using assms by (auto simp: get_task_def find_Some_iff)

lemma get_task_keyed:
  assumes "keyed tr_id (tasks s)" and "row \<in> set (tasks s)"
  shows "get_task (tr_project_id row) (tr_id row) s = Some row"
proof -
  obtain row' where row': "get_task (tr_project_id row) (tr_id row) s = Some row'"
    using assms(2) by (cases "get_task (tr_project_id row) (tr_id row) s") (auto simp: get_task_def find_None_iff)
  then show ?thesis using keyed_unique[OF assms(1) get_task_Some(1)[OF row'] assms(2)] get_task_Some(2)[OF row'] by simp
qed

lemma enter_state_simps [simp]:
  "tr_id (enter_state target now r) = tr_id r" "tr_state (enter_state target now r) = target"
  "tr_project_id (enter_state target now r) = tr_project_id r"
  "tr_version (enter_state target now r) = tr_version r + 1"
  "tr_run_id (enter_state target now r) = tr_run_id r"
  "tr_repository_id (enter_state target now r) = tr_repository_id r"
  "tr_dependencies (enter_state target now r) = tr_dependencies r"
  "tr_created_at (enter_state target now r) = tr_created_at r"
  "tr_estimate (enter_state target now r) = tr_estimate r"
  "tr_state_entered_at (enter_state target now r) = now"
  by (simp_all add: enter_state_def)

lemma transition_task_cases:
  assumes "transition_task project_id task_id v target s = Inr s'"
  obtains row a e d where
    "get_task project_id task_id s = Some row" "tr_version row = v"
    "target \<in> TASK_TRANSITIONS (tr_state row)"
    "s' = s\<lparr>state_durations := state_durations s @ [d],
            tasks := row_update (\<lambda>r. tr_id r = task_id) (enter_state target (db_clock s)) (tasks s),
            audit_events := audit_events s @ [a], outbox := outbox s @ [e], db_drawn := Suc (db_drawn s)\<rparr>"
    "au_id a = db_entropy s (db_drawn s)" "ob_event_id e = au_id a" "au_payload a = ob_payload e"
    "au_event_type a = ''task.state_changed''" "au_aggregate_id a = task_id" "ob_topic e = ''task-state''"
    "ob_payload e = [(''task_id'', PId task_id), (''project_id'', PId project_id),
       (''from'', PTask (tr_state row)), (''to'', PTask target), (''version'', PInt (v + 1))]"
    "au_id a \<notin> au_id ` set (audit_events s)" "ob_event_id e \<notin> ob_event_id ` set (outbox s)"
    "sd_aggregate_id d = task_id" "sd_state d = PTask (tr_state row)"
proof -
  obtain row where row: "get_task project_id task_id s = Some row" "tr_version row = v"
    "target \<in> TASK_TRANSITIONS (tr_state row)"
    using assms by (auto simp: transition_task_def require_task_transition_def bnd_eq_Inr
        split: option.splits if_splits)
  have id: "tr_id row = task_id" by (rule get_task_Some(2)[OF row(1)])
  let ?d = "\<lparr>sd_aggregate_type = ''task'', sd_aggregate_id = task_id, sd_state = PTask (tr_state row),
    sd_entered_at = tr_state_entered_at row, sd_exited_at = db_clock s,
    sd_duration_seconds = duration_seconds (tr_state_entered_at row) (db_clock s)\<rparr>"
  let ?s = "s\<lparr>state_durations := state_durations s @ [?d],
            tasks := row_update (\<lambda>r. tr_id r = task_id) (enter_state target (db_clock s)) (tasks s)\<rparr>"
  let ?p = "[(''task_id'', PId task_id), (''project_id'', PId project_id),
       (''from'', PTask (tr_state row)), (''to'', PTask target), (''version'', PInt (v + 1))]"
  have run: "emit ''task.state_changed'' ''task'' task_id ?p (tr_run_id row) ''task-state'' ?s = Inr s'"
    using assms row id
    by (simp add: transition_task_def require_task_transition_def record_state_duration_def
        set_task_row_def utc_now_def Let_def)
  show thesis
  proof (rule emit_cases[OF run])
    fix a e
    assume "s' = ?s\<lparr>audit_events := audit_events ?s @ [a], outbox := outbox ?s @ [e],
        db_drawn := Suc (db_drawn ?s)\<rparr>"
      and "au_id a = db_entropy ?s (db_drawn ?s)" "ob_event_id e = db_entropy ?s (db_drawn ?s)"
      and "au_event_type a = ''task.state_changed''" "au_aggregate_id a = task_id" "au_payload a = ?p"
        "ob_topic e = ''task-state''" "ob_payload e = ?p"
      and "au_id a \<notin> au_id ` set (audit_events ?s)" "ob_event_id e \<notin> ob_event_id ` set (outbox ?s)"
    then show thesis by (intro that[where row = row and d = ?d and a = a and e = e, OF row]) simp_all
  qed
qed

lemma transition_task_succeeds:
  assumes "get_task project_id task_id s = Some row" "tr_version row = v"
    "target \<in> TASK_TRANSITIONS (tr_state row)" "fresh_draw s"
  shows "\<exists>s'. transition_task project_id task_id v target s = Inr s'"
proof -
  define s2 where "s2 = set_task_row task_id (enter_state target (utc_now s))
    (record_state_duration ''task'' (tr_id row) (PTask (tr_state row)) (tr_state_entered_at row) (utc_now s) s)"
  have "fresh_draw s2"
    using assms(4) by (simp add: fresh_draw_def s2_def set_task_row_def record_state_duration_def)
  then show ?thesis
    using assms(1-3) emit_fresh[of s2]
    by (auto simp: transition_task_def require_task_transition_def Let_def simp flip: s2_def)
qed

lemma transition_task_frame:
  assumes "transition_task project_id task_id v target s = Inr s'"
  shows "tasks s' = row_update (\<lambda>r. tr_id r = task_id) (enter_state target (db_clock s)) (tasks s)"
    "leases s' = leases s" "reservations s' = reservations s"
    "graph_executions s' = graph_executions s" "task_attempts s' = task_attempts s"
    "runs s' = runs s" "repositories s' = repositories s" "model_calls s' = model_calls s"
    "db_clock s' = db_clock s" "db_entropy s' = db_entropy s"
    "consumer_receipts s' = consumer_receipts s" "dead_letters s' = dead_letters s"
    "consumer_deliveries s' = consumer_deliveries s" "plan_revisions s' = plan_revisions s"
    "estimates s' = estimates s" "tool_executions s' = tool_executions s"
    "approvals s' = approvals s" "artifacts s' = artifacts s" "projects s' = projects s"
    "repair_mutations s' = repair_mutations s" "node_executions s' = node_executions s"
    "run_stage_attempts s' = run_stage_attempts s" "db_digest s' = db_digest s"
  using assms by (auto elim!: transition_task_cases)

text \<open>
  Property C24: \<open>transition_task\<close> is an audited compare-and-set. It raises \<open>LookupError\<close> for a
  task outside the project, \<open>StaleStateError\<close> for a wrong version and
  \<open>InvalidStateTransition\<close> for an illegal move. When it returns, the row existed with the
  expected version and a legal move, its version is one higher, every other task is
  untouched, and exactly one audit event and one outbox event were appended, both under the
  same fresh identifier and with the same payload.
\<close>

theorem transition_task_audited:
  "(get_task project_id task_id s = None \<longrightarrow>
      transition_task project_id task_id v target s = Inl (LookupError ''task does not exist in project'')) \<and>
   (\<forall>row. get_task project_id task_id s = Some row \<longrightarrow>
      (tr_version row \<noteq> v \<longrightarrow> transition_task project_id task_id v target s = Inl StaleStateError) \<and>
      (tr_version row = v \<and> target \<notin> TASK_TRANSITIONS (tr_state row) \<longrightarrow>
         transition_task project_id task_id v target s = Inl InvalidStateTransition)) \<and>
   (\<forall>s'. transition_task project_id task_id v target s = Inr s' \<longrightarrow>
      (\<exists>row a e. get_task project_id task_id s = Some row \<and> tr_version row = v \<and>
         target \<in> TASK_TRANSITIONS (tr_state row) \<and>
         tasks s' = row_update (\<lambda>r. tr_id r = task_id) (enter_state target (db_clock s)) (tasks s) \<and>
         audit_events s' = audit_events s @ [a] \<and> outbox s' = outbox s @ [e] \<and>
         au_id a = ob_event_id e \<and> au_payload a = ob_payload e \<and>
         au_id a \<notin> au_id ` set (audit_events s) \<and> ob_event_id e \<notin> ob_event_id ` set (outbox s)))"
proof (intro conjI allI impI)
  fix s' assume "transition_task project_id task_id v target s = Inr s'"
  then show "\<exists>row a e. get_task project_id task_id s = Some row \<and> tr_version row = v \<and>
         target \<in> TASK_TRANSITIONS (tr_state row) \<and>
         tasks s' = row_update (\<lambda>r. tr_id r = task_id) (enter_state target (db_clock s)) (tasks s) \<and>
         audit_events s' = audit_events s @ [a] \<and> outbox s' = outbox s @ [e] \<and>
         au_id a = ob_event_id e \<and> au_payload a = ob_payload e \<and>
         au_id a \<notin> au_id ` set (audit_events s) \<and> ob_event_id e \<notin> ob_event_id ` set (outbox s)"
    by (rule transition_task_cases) simp
qed (simp_all add: transition_task_def require_task_transition_def)

definition sample_task :: TaskRow where
  "sample_task = \<lparr>tr_id = 7, tr_run_id = 9, tr_project_id = 3, tr_repository_id = 2,
     tr_plan_revision = 1, tr_title = ''t'', tr_description = ''d'', tr_task_type = TEST,
     tr_dependencies = [], tr_priority = 0, tr_assigned_capability = ''test'',
     tr_acceptance_criteria = [''ok''], tr_allowed_tools = [], tr_risk_ceiling = MEDIUM,
     tr_expected_artifacts = [], tr_repository_paths = [], tr_retry_policy = default_RetryPolicy,
     tr_budget = default_BudgetPolicy, tr_estimate = default_ResourceEstimate,
     tr_state = TaskStatus.READY, tr_version = 1, tr_state_entered_at = 0, tr_created_at = 0\<rparr>"

theorem transition_task_audited_witness:
  "transition_task 3 8 1 TaskStatus.LEASED (empty_db\<lparr>tasks := [sample_task]\<rparr>) =
     Inl (LookupError ''task does not exist in project'') \<and>
   transition_task 3 7 5 TaskStatus.LEASED (empty_db\<lparr>tasks := [sample_task]\<rparr>) = Inl StaleStateError \<and>
   transition_task 3 7 1 TaskStatus.RUNNING (empty_db\<lparr>tasks := [sample_task]\<rparr>) = Inl InvalidStateTransition \<and>
   (\<exists>s'. transition_task 3 7 1 TaskStatus.LEASED (empty_db\<lparr>tasks := [sample_task]\<rparr>) = Inr s' \<and>
      length (audit_events s') = 1)"
proof -
  let ?s = "empty_db\<lparr>tasks := [sample_task]\<rparr>"
  have get: "get_task 3 8 ?s = None" "get_task 3 7 ?s = Some sample_task"
    by (simp_all add: get_task_def sample_task_def)
  have "\<exists>s'. transition_task 3 7 1 TaskStatus.LEASED ?s = Inr s'"
    by (rule transition_task_succeeds[OF get(2)]) (simp_all add: sample_task_def fresh_draw_def empty_db_def)
  then obtain s' where s': "transition_task 3 7 1 TaskStatus.LEASED ?s = Inr s'" by blast
  then have "length (audit_events s') = 1"
    using transition_task_audited[of 3 7 ?s 1 TaskStatus.LEASED] by (auto simp: empty_db_def)
  then show ?thesis
    using s' transition_task_audited[of 3 8 ?s 1 TaskStatus.LEASED]
      transition_task_audited[of 3 7 ?s 5 TaskStatus.LEASED]
      transition_task_audited[of 3 7 ?s 1 TaskStatus.RUNNING] get
    by (simp add: sample_task_def)
qed

subsection \<open>Graph executions\<close>

lemma graph_of_set_same:
  "(\<And>g. gx_task_id (f g) = gx_task_id g) \<Longrightarrow>
   graph_of task_id (set_graph_row task_id f s) = map_option f (graph_of task_id s)"
  by (simp add: graph_of_def set_graph_row_def row_get_update_same)

lemma graph_changed_frame:
  "graph_changed task_id run_id row_id thread_id previous target checkpoint s = Inr s' \<Longrightarrow>
   graph_executions s' = graph_executions s"
  unfolding graph_changed_def by (rule emit_frame)

lemma rollover_cases:
  assumes "rollover row task_id run_id thread_id target s = Inr s'"
  shows "target = GraphExecutionState.RUNNING"
    and "graph_executions s' = row_update (\<lambda>g. gx_task_id g = task_id)
      (\<lambda>g. g\<lparr>gx_thread_id := thread_id, gx_state_entered_at := db_clock s\<rparr>) (graph_executions s)"
  using assms
  by (auto simp: rollover_def bnd_eq_Inr set_graph_row_def utc_now_def dest: emit_frame(4))

lemma transition_graph_row:
  assumes "transition_graph_execution task_id run_id repository_id baseline thread_id target checkpoint s = Inr s'"
    and "graph_of task_id s = Some row"
  shows "\<exists>row'. graph_of task_id s' = Some row' \<and> gx_thread_id row' = thread_id \<and> gx_state row' = target \<and>
    (gx_thread_id row = thread_id \<longrightarrow> gx_state row = target \<or> target \<in> GRAPH_EXECUTION_TRANSITIONS (gx_state row)) \<and>
    (gx_thread_id row \<noteq> thread_id \<longrightarrow> target = GraphExecutionState.RUNNING) \<and>
    gx_run_id row' = gx_run_id row \<and> gx_baseline_commit row' = gx_baseline_commit row"
proof (cases "gx_thread_id row = thread_id \<and> gx_state row = target")
  case True
  then have "s' = set_graph_row task_id
      (\<lambda>g. g\<lparr>gx_checkpoint_id := or_checkpoint checkpoint (gx_checkpoint_id g)\<rparr>) s"
    using assms by (auto simp: transition_graph_execution_def split: if_splits)
  then show ?thesis using True assms(2) by (auto simp: graph_of_set_same)
next
  case False
  define s1r where "s1r = (if gx_thread_id row \<noteq> thread_id then rollover row task_id run_id thread_id target s
                 else bnd (require_graph_transition (gx_state row) target) (\<lambda>_. Inr s))"
  let ?f = "\<lambda>g. g\<lparr>gx_state := target, gx_state_entered_at := db_clock s,
                       gx_checkpoint_id := or_checkpoint checkpoint (gx_checkpoint_id row)\<rparr>"
  obtain s1 s3 where s1: "s1r = Inr s1" and s3: "s3 = set_graph_row task_id ?f s1"
    and s': "graph_executions s' = graph_executions s3"
    using assms False unfolding transition_graph_execution_def s1r_def
    by (auto simp: bnd_eq_Inr Let_def utc_now_def set_graph_row_def record_state_duration_def
        split: if_splits dest!: graph_changed_frame)
  have legal: "gx_thread_id row = thread_id \<longrightarrow> target \<in> GRAPH_EXECUTION_TRANSITIONS (gx_state row)"
    using s1 by (auto simp: s1r_def require_graph_transition_def bnd_eq_Inr)
  have roll: "gx_thread_id row \<noteq> thread_id \<longrightarrow> target = GraphExecutionState.RUNNING"
    using s1 by (auto simp: s1r_def dest: rollover_cases(1))
  have "\<exists>row1. graph_of task_id s1 = Some row1 \<and> gx_thread_id row1 = thread_id \<and>
      gx_run_id row1 = gx_run_id row \<and> gx_baseline_commit row1 = gx_baseline_commit row"
  proof (cases "gx_thread_id row = thread_id")
    case True
    then have "s1 = s" using s1 by (auto simp: s1r_def bnd_eq_Inr)
    then show ?thesis using True assms(2) by simp
  next
    case False
    then have "graph_executions s1 = row_update (\<lambda>g. gx_task_id g = task_id)
      (\<lambda>g. g\<lparr>gx_thread_id := thread_id, gx_state_entered_at := db_clock s\<rparr>) (graph_executions s)"
      using s1 by (auto simp: s1r_def dest: rollover_cases(2))
    then show ?thesis using assms(2) by (simp add: graph_of_def row_get_update_same)
  qed
  then obtain row1 where row1: "graph_of task_id s1 = Some row1" "gx_thread_id row1 = thread_id"
    "gx_run_id row1 = gx_run_id row" "gx_baseline_commit row1 = gx_baseline_commit row" by blast
  have "graph_of task_id s' = Some (?f row1)"
    using row1(1) s' by (simp add: graph_of_def s3 set_graph_row_def row_get_update_same)
  then show ?thesis using row1 legal roll by auto
qed


definition sample_graph :: GraphExecutionRow where
  "sample_graph = \<lparr>gx_id = 20, gx_task_id = 7, gx_run_id = 9, gx_repository_id = 2,
     gx_baseline_commit = replicate 40 CHR ''a'', gx_thread_id = ''t1'',
     gx_state = GraphExecutionState.FAILED, gx_checkpoint_id = None, gx_state_entered_at = 0\<rparr>"


end
