(* ===== verification/Scheduler.thy ===== *)
theory Scheduler
  imports Store
begin

section \<open>The scheduler\<close>

text \<open>
  \<open>src/execution/scheduler/service.py\<close>: admission of READY tasks under concurrency ceilings,
  leases with heartbeats and fencing, dependency promotion, cascading cancellation, attempt and
  cost ceilings, and observed resource usage. A method whose body is one transaction is
  \<open>commit\<close> applied to the body; a method that runs several transactions threads the database
  through them, so an exception in a later one leaves the earlier ones committed. Such a method
  has the type \<open>db \<Rightarrow> 'a result \<times> db\<close>.

  Advisory and row locks have no counterpart: transactions are serial here. Metrics are not
  modelled. The arguments \<open>now\<close> are optional as in the source; \<open>at_time\<close> is \<open>now or datetime.now\<close>.
\<close>

subsection \<open>Policies and pure decisions\<close>

record ConcurrencyPolicy =
  max_parallel_tasks :: int
  max_parallel_tasks_per_project :: int
  max_model_concurrency :: int
  max_sandbox_concurrency :: int
  max_task_attempts :: int
  max_run_cost_usd :: usd

definition ConcurrencyPolicy_fields :: "ConcurrencyPolicy \<Rightarrow> bool" where
  "ConcurrencyPolicy_fields p \<longleftrightarrow> 1 \<le> max_parallel_tasks p \<and> 1 \<le> max_parallel_tasks_per_project p \<and>
     1 \<le> max_model_concurrency p \<and> 1 \<le> max_sandbox_concurrency p \<and>
     1 \<le> max_task_attempts p \<and> max_task_attempts p \<le> 100 \<and> 0 < max_run_cost_usd p"

record AdmissionSnapshot =
  active_tasks :: int
  active_project_tasks :: int
  active_model_slots :: int
  active_sandbox_slots :: int

record ResourceRequest =
  task_slots :: int
  model_slots :: int
  sandbox_slots :: int

definition ResourceRequest_fields :: "ResourceRequest \<Rightarrow> bool" where
  "ResourceRequest_fields r \<longleftrightarrow> task_slots r = 1 \<and> 0 \<le> model_slots r \<and> model_slots r \<le> 1 \<and>
     0 \<le> sandbox_slots r \<and> sandbox_slots r \<le> 1"

record ResourceObservation =
  ro_cpu_time_ms :: int
  ro_peak_memory_bytes :: int
  ro_duration_ms :: int
  ro_output_bytes :: int
  ro_network_requests :: int
  ro_model_tokens :: int
  ro_cost_usd :: usd

record AdmissionDecision =
  admitted :: bool
  admission_reason :: "string option"

record RetryBudget =
  rb_max_attempts :: int
  rb_max_cost_usd :: usd

record RetryDecision =
  rd_retry :: bool
  rd_category :: RetryCategory
  rd_reason :: string

text \<open>
  \<open>_DEPENDENCIES_SATISFIED_SQL\<close>: the dependencies left-joined with the tasks; a dependency
  without a task contributes one row of NULLs. The predicate holds when no joined row is NULL
  or in another state than COMPLETED.
\<close>

definition left_join :: "TaskRow list \<Rightarrow> uuid \<Rightarrow> TaskRow option list" where
  "left_join rows dep =
     (case filter (\<lambda>r. tr_id r = dep) rows of [] \<Rightarrow> [None] | matches \<Rightarrow> map Some matches)"

definition DEPENDENCIES_SATISFIED_SQL :: "TaskRow list \<Rightarrow> TaskRow \<Rightarrow> bool" where
  "DEPENDENCIES_SATISFIED_SQL rows task =
     (length (filter (\<lambda>j. case j of None \<Rightarrow> True | Some r \<Rightarrow> tr_state r \<noteq> TaskStatus.COMPLETED)
        (concat (map (left_join rows) (tr_dependencies task)))) = 0)"

definition TERMINAL_TASK_STATES :: "TaskStatus set" where
  "TERMINAL_TASK_STATES = {TaskStatus.COMPLETED, TaskStatus.FAILED, TaskStatus.CANCELLED}"

record TaskClaim =
  cl_task_id :: uuid
  cl_project_id :: uuid
  cl_owner :: string
  cl_token :: uuid
  cl_expires_at :: time

record TaskExecutionLease =
  xl_task_id :: uuid
  xl_run_id :: uuid
  xl_project_id :: uuid
  xl_repository_id :: uuid
  xl_attempt_id :: uuid
  xl_baseline_commit :: string
  xl_source_path :: string
  xl_task_type :: TaskType
  xl_goal :: string
  xl_allowed_tools :: "string list"
  xl_assigned_capability :: string
  xl_risk_ceiling :: RiskLevel
  xl_dependencies :: "uuid list"
  xl_already_terminal :: bool

definition dependencies_satisfied :: "uuid list \<Rightarrow> (uuid \<Rightarrow> TaskStatus option) \<Rightarrow> bool" where
  "dependencies_satisfied dependencies states =
     list_all (\<lambda>dependency. states dependency = Some TaskStatus.COMPLETED) dependencies"

definition evaluate_admission ::
  "ConcurrencyPolicy \<Rightarrow> AdmissionSnapshot \<Rightarrow> ResourceRequest \<Rightarrow> AdmissionDecision" where
  "evaluate_admission policy snapshot request =
     (if active_tasks snapshot + task_slots request > max_parallel_tasks policy
      then \<lparr>admitted = False, admission_reason = Some ''MAX_PARALLEL_TASKS''\<rparr>
      else if active_project_tasks snapshot + task_slots request > max_parallel_tasks_per_project policy
      then \<lparr>admitted = False, admission_reason = Some ''MAX_PROJECT_PARALLEL_TASKS''\<rparr>
      else if active_model_slots snapshot + model_slots request > max_model_concurrency policy
      then \<lparr>admitted = False, admission_reason = Some ''MAX_MODEL_CONCURRENCY''\<rparr>
      else if active_sandbox_slots snapshot + sandbox_slots request > max_sandbox_concurrency policy
      then \<lparr>admitted = False, admission_reason = Some ''MAX_SANDBOX_CONCURRENCY''\<rparr>
      else \<lparr>admitted = True, admission_reason = None\<rparr>)"

definition evaluate_retry :: "RetryCategory \<Rightarrow> int \<Rightarrow> usd \<Rightarrow> RetryBudget \<Rightarrow> RetryDecision" where
  "evaluate_retry category attempts consumed_cost_usd budget =
     (if category \<noteq> TRANSIENT
      then \<lparr>rd_retry = False, rd_category = category, rd_reason = ''failures are not automatically retried''\<rparr>
      else if attempts \<ge> rb_max_attempts budget
      then \<lparr>rd_retry = False, rd_category = category, rd_reason = ''attempt budget exhausted''\<rparr>
      else if consumed_cost_usd \<ge> rb_max_cost_usd budget
      then \<lparr>rd_retry = False, rd_category = category, rd_reason = ''cost budget exhausted''\<rparr>
      else \<lparr>rd_retry = True, rd_category = category, rd_reason = ''transient failure within budget''\<rparr>)"

subsection \<open>The service\<close>

record SchedulerService =
  policy :: ConcurrencyPolicy
  lease_ttl :: time

definition scheduler_init :: "ConcurrencyPolicy \<Rightarrow> time \<Rightarrow> SchedulerService result" where
  "scheduler_init p ttl =
     bnd (guard (0 < ttl) (ValueError ''lease_ttl must be positive'')) (\<lambda>_.
       Inr \<lparr>policy = p, lease_ttl = ttl\<rparr>)"

definition at_time :: "time option \<Rightarrow> db \<Rightarrow> time" where
  "at_time now s = (case now of None \<Rightarrow> utc_now s | Some t \<Rightarrow> t)"

definition release_reservations :: "uuid \<Rightarrow> time \<Rightarrow> db \<Rightarrow> db" where
  "release_reservations task_id released_at s =
     s\<lparr>reservations := row_update (\<lambda>r. rs_task_id r = task_id \<and> rs_released_at r = None)
        (\<lambda>r. r\<lparr>rs_released_at := Some released_at\<rparr>) (reservations s)\<rparr>"

definition delete_lease :: "uuid \<Rightarrow> db \<Rightarrow> db" where
  "delete_lease task_id s = s\<lparr>leases := row_delete (\<lambda>l. lr_task_id l = task_id) (leases s)\<rparr>"

definition lease_of :: "uuid \<Rightarrow> db \<Rightarrow> LeaseRow option" where
  "lease_of task_id s = row_get lr_task_id task_id (leases s)"

definition active_units :: "(ReservationRow \<Rightarrow> bool) \<Rightarrow> db \<Rightarrow> int" where
  "active_units p s = sum_where (\<lambda>r. rs_released_at r = None \<and> p r) rs_units (reservations s)"

definition admission_snapshot :: "uuid \<Rightarrow> db \<Rightarrow> AdmissionSnapshot" where
  "admission_snapshot project_id s =
     \<lparr>active_tasks = active_units (\<lambda>r. rs_resource r = ''task'') s,
      active_project_tasks = active_units (\<lambda>r. rs_resource r = ''task'' \<and> rs_project_id r = project_id) s,
      active_model_slots = active_units (\<lambda>r. rs_resource r = ''model'') s,
      active_sandbox_slots = active_units (\<lambda>r. rs_resource r = ''sandbox'') s\<rparr>"

definition resource_request :: "TaskRow \<Rightarrow> ResourceRequest result" where
  "resource_request task =
     (let request = \<lparr>task_slots = 1,
            model_slots = (if re_model_tokens (tr_estimate task) > 0 then 1 else 0),
            sandbox_slots = min 1 (re_sandbox_slots (tr_estimate task))\<rparr>
      in bnd (guard (ResourceRequest_fields request) (ValidationError ''ResourceRequest'')) (\<lambda>_. Inr request))"

definition reserve_with_global_cap ::
  "uuid \<Rightarrow> uuid \<Rightarrow> string \<Rightarrow> int \<Rightarrow> int \<Rightarrow> db \<Rightarrow> (bool \<times> db) result" where
  "reserve_with_global_cap task_id project_id resource units cap s =
     (if active_units (\<lambda>r. rs_resource r = resource) s + units \<le> cap
      then bnd (guard (0 < units) IntegrityError) (\<lambda>_.
        Inr (True, s\<lparr>reservations := reservations s @
          [\<lparr>rs_task_id = task_id, rs_project_id = project_id, rs_resource = resource, rs_units = units,
            rs_created_at = utc_now s, rs_released_at = None\<rparr>]\<rparr>))
      else Inr (False, s))"

text \<open>\<open>request.model_slots and not await self._reserve_with_global_cap(...)\<close>, negated.\<close>

definition reserve_if ::
  "int \<Rightarrow> uuid \<Rightarrow> uuid \<Rightarrow> string \<Rightarrow> int \<Rightarrow> db \<Rightarrow> (bool \<times> db) result" where
  "reserve_if slots task_id project_id resource cap s =
     (if slots = 0 then Inr (True, s)
      else reserve_with_global_cap task_id project_id resource slots cap s)"

subsection \<open>Claiming READY tasks\<close>

definition task_order :: "TaskRow \<Rightarrow> int \<times> time \<times> uuid" where
  "task_order r = (- tr_priority r, tr_created_at r, tr_id r)"

definition age_order :: "TaskRow \<Rightarrow> time \<times> uuid" where
  "age_order r = (tr_created_at r, tr_id r)"

definition ready_candidates :: "int \<Rightarrow> db \<Rightarrow> TaskRow list" where
  "ready_candidates limit s =
     take (nat limit) (sort_key task_order (filter (\<lambda>r. tr_state r = TaskStatus.READY) (tasks s)))"

text \<open>The candidates grouped by project, the projects in ascending order.\<close>

definition by_project :: "TaskRow list \<Rightarrow> TaskRow list" where
  "by_project candidates =
     concat (map (\<lambda>p. filter (\<lambda>t. tr_project_id t = p) candidates)
       (sort (fromkeys (map tr_project_id candidates))))"

definition admit_leased ::
  "SchedulerService \<Rightarrow> string \<Rightarrow> uuid \<Rightarrow> time \<Rightarrow> TaskRow \<Rightarrow> TaskClaim list \<times> db \<Rightarrow> (TaskClaim list \<times> db) result" where
  "admit_leased svc owner token current_time task = (\<lambda>(claims, s).
     let expires_at = current_time + lease_ttl svc in
     bnd (transition_task (tr_project_id task) (tr_id task) (tr_version task) TaskStatus.LEASED s) (\<lambda>s1.
     bnd (create_lease (tr_id task) owner token expires_at s1) (\<lambda>s2.
       Inr (claims @ [\<lparr>cl_task_id = tr_id task, cl_project_id = tr_project_id task, cl_owner = owner,
                       cl_token = token, cl_expires_at = expires_at\<rparr>], s2))))"

definition claim_one ::
  "SchedulerService \<Rightarrow> string \<Rightarrow> time \<Rightarrow> TaskRow \<Rightarrow> TaskClaim list \<times> db \<Rightarrow> (TaskClaim list \<times> db) result" where
  "claim_one svc owner current_time task = (\<lambda>(claims, s).
     bnd (resource_request task) (\<lambda>request.
     if \<not> admitted (evaluate_admission (policy svc) (admission_snapshot (tr_project_id task) s) request)
     then Inr (claims, s)
     else let (token, s0) = uuid4 s in
       bnd (reserve_with_global_cap (tr_id task) (tr_project_id task) ''task'' 1
              (max_parallel_tasks (policy svc)) s0) (\<lambda>(ok, s1).
       if \<not> ok then Inr (claims, s1)
       else bnd (reserve_if (model_slots request) (tr_id task) (tr_project_id task) ''model''
              (max_model_concurrency (policy svc)) s1) (\<lambda>(ok, s2).
       if \<not> ok then Inr (claims, release_reservations (tr_id task) current_time s2)
       else bnd (reserve_if (sandbox_slots request) (tr_id task) (tr_project_id task) ''sandbox''
              (max_sandbox_concurrency (policy svc)) s2) (\<lambda>(ok, s3).
       if \<not> ok then Inr (claims, release_reservations (tr_id task) current_time s3)
       else admit_leased svc owner token current_time task (claims, s3))))))"

definition claim_ready ::
  "SchedulerService \<Rightarrow> string \<Rightarrow> int \<Rightarrow> time option \<Rightarrow> db \<Rightarrow> TaskClaim list result \<times> db" where
  "claim_ready svc owner limit now s =
     (if limit < 1 then (Inr [], s)
      else commit (\<lambda>s. for_each (by_project (ready_candidates limit s))
             (claim_one svc owner (at_time now s)) ([], s)) s)"

subsection \<open>Dependency promotion and cascading cancellation\<close>

definition promotable :: "int \<Rightarrow> db \<Rightarrow> TaskRow list" where
  "promotable limit s = take (nat limit) (sort_key age_order
     (filter (\<lambda>r. tr_state r = TaskStatus.PENDING \<and> DEPENDENCIES_SATISFIED_SQL (tasks s) r) (tasks s)))"

definition move_all :: "TaskStatus \<Rightarrow> TaskRow list \<Rightarrow> db \<Rightarrow> db result" where
  "move_all target rows =
     for_each rows (\<lambda>t. transition_task (tr_project_id t) (tr_id t) (tr_version t) target)"

definition promote_round :: "int \<Rightarrow> db \<Rightarrow> (int \<times> db) result" where
  "promote_round limit s =
     (let candidates = promotable limit s
      in bnd (move_all TaskStatus.READY candidates s) (\<lambda>s'. Inr (int (length candidates), s')))"

fun promote_rounds :: "nat \<Rightarrow> int \<Rightarrow> int \<Rightarrow> db \<Rightarrow> int result \<times> db" where
  "promote_rounds 0 limit promoted s = (Inr promoted, s)"
| "promote_rounds (Suc n) limit promoted s =
     (case commit (promote_round limit) s of
        (Inl e, s') \<Rightarrow> (Inl e, s')
      | (Inr moved, s') \<Rightarrow>
          if moved = 0 then (Inr promoted, s')
          else if moved < limit then (Inr (promoted + moved), s')
          else promote_rounds n limit (promoted + moved) s')"

definition promote_dependency_ready :: "int \<Rightarrow> int \<Rightarrow> db \<Rightarrow> int result \<times> db" where
  "promote_dependency_ready limit max_rounds s = promote_rounds (nat max_rounds) limit 0 s"

definition pending_window :: "int \<Rightarrow> db \<Rightarrow> TaskRow list" where
  "pending_window limit s = take (nat limit) (sort_key age_order
     (filter (\<lambda>r. tr_state r = TaskStatus.PENDING) (tasks s)))"

definition terminal_ids :: "uuid set \<Rightarrow> db \<Rightarrow> uuid set" where
  "terminal_ids wanted s =
     set (map tr_id (filter (\<lambda>r. tr_id r \<in> wanted \<and> tr_state r \<in> {TaskStatus.FAILED, TaskStatus.CANCELLED})
       (tasks s)))"

definition blocked_of :: "int \<Rightarrow> db \<Rightarrow> TaskRow list" where
  "blocked_of limit s =
     (let candidates = pending_window limit s;
          wanted = set (concat (map tr_dependencies candidates));
          ended = terminal_ids wanted s
      in filter (\<lambda>t. list_ex (\<lambda>d. d \<in> ended) (tr_dependencies t)) candidates)"

definition cancel_round :: "int \<Rightarrow> db \<Rightarrow> (int \<times> db) result" where
  "cancel_round limit s =
     (let blocked = blocked_of limit s
      in bnd (move_all TaskStatus.CANCELLED blocked s) (\<lambda>s'. Inr (int (length blocked), s')))"

fun cancel_rounds :: "nat \<Rightarrow> int \<Rightarrow> int \<Rightarrow> db \<Rightarrow> int result \<times> db" where
  "cancel_rounds 0 limit cancelled s = (Inr cancelled, s)"
| "cancel_rounds (Suc n) limit cancelled s =
     (case commit (cancel_round limit) s of
        (Inl e, s') \<Rightarrow> (Inl e, s')
      | (Inr moved, s') \<Rightarrow>
          if moved = 0 then (Inr cancelled, s') else cancel_rounds n limit (cancelled + moved) s')"

definition cancel_blocked_dependents :: "int \<Rightarrow> db \<Rightarrow> int result \<times> db" where
  "cancel_blocked_dependents limit s = cancel_rounds 16 limit 0 s"

subsection \<open>Leases: heartbeat, start, finish, reclaim\<close>

definition task_row :: "uuid \<Rightarrow> db \<Rightarrow> TaskRow option" where
  "task_row task_id s = row_get tr_id task_id (tasks s)"

definition heartbeat ::
  "SchedulerService \<Rightarrow> uuid \<Rightarrow> string \<Rightarrow> uuid \<Rightarrow> time option \<Rightarrow> db \<Rightarrow> bool result \<times> db" where
  "heartbeat svc task_id owner token now =
     commit (\<lambda>s. let current_time = at_time now s in
       if (case task_row task_id s of None \<Rightarrow> False
           | Some r \<Rightarrow> tr_state r \<in> {TaskStatus.COMPLETED, TaskStatus.FAILED, TaskStatus.CANCELLED})
       then Inr (False, s)
       else let held = (\<lambda>l. lr_task_id l = task_id \<and> lr_owner l = owner \<and> lr_token l = token)
            in Inr (list_ex held (leases s),
                 s\<lparr>leases := row_update held (\<lambda>l. l\<lparr>lr_expires_at := current_time + lease_ttl svc,
                     lr_heartbeat_at := current_time\<rparr>) (leases s)\<rparr>))"

definition execution_lease ::
  "TaskRow \<Rightarrow> RunRow \<Rightarrow> RepositoryRow \<Rightarrow> uuid \<Rightarrow> bool \<Rightarrow> TaskExecutionLease" where
  "execution_lease task run repository attempt_id already_terminal =
     \<lparr>xl_task_id = tr_id task, xl_run_id = tr_run_id task, xl_project_id = tr_project_id task,
      xl_repository_id = tr_repository_id task, xl_attempt_id = attempt_id,
      xl_baseline_commit = rn_baseline_commit run, xl_source_path = rp_source_path repository,
      xl_task_type = tr_task_type task,
      xl_goal = join_with (CHR 0x0A) [''Run objective: '' @ take 6000 (rn_goal run), ''Task: '' @ tr_title task,
        take 6000 (tr_description task), ''Acceptance criteria:'',
        take 6000 (join_with (CHR 0x0A) (tr_acceptance_criteria task))],
      xl_allowed_tools = tr_allowed_tools task, xl_assigned_capability = tr_assigned_capability task,
      xl_risk_ceiling = tr_risk_ceiling task, xl_dependencies = tr_dependencies task,
      xl_already_terminal = already_terminal\<rparr>"

definition attempts_of :: "uuid \<Rightarrow> db \<Rightarrow> int" where
  "attempts_of task_id s = int (length (filter (\<lambda>a. ta_task_id a = task_id) (task_attempts s)))"

definition run_spend :: "uuid \<Rightarrow> db \<Rightarrow> usd" where
  "run_spend run_id s = sum_where (\<lambda>c. mc_run_id c = run_id) mc_cost_usd (model_calls s)"

definition exhaustion_reason :: "SchedulerService \<Rightarrow> TaskRow \<Rightarrow> RunRow \<Rightarrow> db \<Rightarrow> string option" where
  "exhaustion_reason svc task run s =
     (if attempts_of (tr_id task) s \<ge> max_task_attempts (policy svc)
      then Some ''task exhausted its attempt budget''
      else if run_spend (rn_id run) s \<ge> max_run_cost_usd (policy svc)
      then Some ''run exhausted its cost budget''
      else None)"

definition admit_attempt ::
  "uuid \<Rightarrow> uuid \<Rightarrow> string \<Rightarrow> db \<Rightarrow> db result" where
  "admit_attempt task_id attempt_id agent_spec_hash s =
     (case row_get ta_id attempt_id (task_attempts s) of
        None \<Rightarrow> create_attempt attempt_id task_id agent_spec_hash s
      | Some attempt \<Rightarrow>
          bnd (guard (ta_task_id attempt = task_id \<and> ta_agent_spec_hash attempt = agent_spec_hash)
                 (PermissionError ''worker attempt identity does not match dispatch'')) (\<lambda>_. Inr s))"

definition admit_claim ::
  "SchedulerService \<Rightarrow> uuid \<Rightarrow> uuid \<Rightarrow> string \<Rightarrow> uuid \<Rightarrow> uuid \<Rightarrow> string \<Rightarrow> time \<Rightarrow> db
     \<Rightarrow> (TaskExecutionLease \<times> db) result" where
  "admit_claim svc task_id project_id owner token attempt_id agent_spec_hash current_time s =
     (case get_task project_id task_id s of
        None \<Rightarrow> Inl (LookupError ''task does not exist in project'')
      | Some task \<Rightarrow>
          (case (row_get rn_id (tr_run_id task) (runs s), row_get rp_id (tr_repository_id task) (repositories s)) of
             (Some run, Some repository) \<Rightarrow>
               if tr_state task = TaskStatus.COMPLETED
               then case row_get ta_id attempt_id (task_attempts s) of
                      None \<Rightarrow> Inl (LookupError ''dispatch attempt does not match the completed task'')
                    | Some attempt \<Rightarrow>
                        if ta_task_id attempt \<noteq> task_id
                        then Inl (LookupError ''dispatch attempt does not match the completed task'')
                        else Inr (execution_lease task run repository attempt_id True, s)
               else (case exhaustion_reason svc task run s of
                       Some exhausted \<Rightarrow> Inl (TaskBudgetExhausted exhausted)
                     | None \<Rightarrow>
                         bnd (guard (case lease_of task_id s of None \<Rightarrow> False
                                | Some lease \<Rightarrow> lr_owner lease = owner \<and> lr_token lease = token \<and>
                                    \<not> lr_expires_at lease \<le> current_time)
                                (PermissionError ''worker dispatch lease is missing, expired, or mismatched'')) (\<lambda>_.
                         bnd (if tr_state task = TaskStatus.LEASED
                              then transition_task project_id task_id (tr_version task) TaskStatus.RUNNING s
                              else if tr_state task \<noteq> TaskStatus.RUNNING
                              then Inl (PermissionError ''worker cannot start task'') else Inr s) (\<lambda>s1.
                         bnd (admit_attempt task_id attempt_id agent_spec_hash s1) (\<lambda>s2.
                           Inr (execution_lease task run repository attempt_id False, s2)))))
           | _ \<Rightarrow> Inl (RuntimeError ''task run or repository is missing'')))"

definition refuse_exhausted_task :: "uuid \<Rightarrow> uuid \<Rightarrow> time \<Rightarrow> db \<Rightarrow> (unit \<times> db) result" where
  "refuse_exhausted_task project_id task_id current_time s =
     (case get_task project_id task_id s of
        None \<Rightarrow> Inr ((), s)
      | Some task \<Rightarrow>
          if tr_state task \<in> TERMINAL_TASK_STATES then Inr ((), s)
          else bnd (transition_task project_id task_id (tr_version task) TaskStatus.FAILED
                 (delete_lease task_id (release_reservations task_id current_time s)))
                 (\<lambda>s'. Inr ((), s')))"

definition start_claim ::
  "SchedulerService \<Rightarrow> uuid \<Rightarrow> uuid \<Rightarrow> string \<Rightarrow> uuid \<Rightarrow> uuid \<Rightarrow> string \<Rightarrow> time option \<Rightarrow> db
     \<Rightarrow> TaskExecutionLease result \<times> db" where
  "start_claim svc task_id project_id owner token attempt_id agent_spec_hash now s =
     (let current_time = at_time now s in
      case commit (admit_claim svc task_id project_id owner token attempt_id agent_spec_hash current_time) s of
        (Inl (TaskBudgetExhausted reason), s') \<Rightarrow>
          (case commit (refuse_exhausted_task project_id task_id current_time) s' of
             (Inl e, s'') \<Rightarrow> (Inl e, s'')
           | (Inr _, s'') \<Rightarrow> (Inl (TaskBudgetExhausted reason), s''))
      | other \<Rightarrow> other)"

fun required_graph_state :: "TaskStatus \<Rightarrow> GraphExecutionState option" where
  "required_graph_state TaskStatus.COMPLETED = Some GraphExecutionState.COMPLETED"
| "required_graph_state TaskStatus.FAILED = Some GraphExecutionState.FAILED"
| "required_graph_state TaskStatus.CANCELLED = Some GraphExecutionState.CANCELLED"
| "required_graph_state _ = None"

fun task_status_value :: "TaskStatus \<Rightarrow> string" where
  "task_status_value TaskStatus.PENDING = ''PENDING''"
| "task_status_value TaskStatus.READY = ''READY''"
| "task_status_value TaskStatus.LEASED = ''LEASED''"
| "task_status_value TaskStatus.RUNNING = ''RUNNING''"
| "task_status_value TaskStatus.BLOCKED = ''BLOCKED''"
| "task_status_value TaskStatus.COMPLETED = ''COMPLETED''"
| "task_status_value TaskStatus.FAILED = ''FAILED''"
| "task_status_value TaskStatus.CANCELLED = ''CANCELLED''"

definition close_attempt :: "uuid \<Rightarrow> uuid \<Rightarrow> TaskStatus \<Rightarrow> time \<Rightarrow> db \<Rightarrow> db result" where
  "close_attempt task_id attempt_id target current_time s =
     (case row_get ta_id attempt_id (task_attempts s) of
        None \<Rightarrow> Inl (PermissionError ''worker attempt does not belong to task'')
      | Some attempt \<Rightarrow>
          bnd (guard (ta_task_id attempt = task_id)
                 (PermissionError ''worker attempt does not belong to task'')) (\<lambda>_.
          Inr (s\<lparr>task_attempts := row_update (\<lambda>a. ta_id a = attempt_id)
                 (\<lambda>a. a\<lparr>ta_status := task_status_value target, ta_ended_at := Some current_time\<rparr>)
                 (task_attempts s)\<rparr>)))"

definition finish_claim_body ::
  "SchedulerService \<Rightarrow> uuid \<Rightarrow> uuid \<Rightarrow> string \<Rightarrow> uuid \<Rightarrow> uuid \<Rightarrow> TaskStatus \<Rightarrow> db \<Rightarrow> (unit \<times> db) result" where
  "finish_claim_body svc task_id project_id owner token attempt_id target s =
     (let current_time = utc_now s in
      case get_task project_id task_id s of
        None \<Rightarrow> Inl (LookupError ''task does not exist in project'')
      | Some task \<Rightarrow>
          if tr_state task = target
          then (case lease_of task_id s of
                  None \<Rightarrow> Inr ((), s)
                | Some lease \<Rightarrow>
                    if lr_owner lease \<noteq> owner \<or> lr_token lease \<noteq> token
                    then Inl (PermissionError ''worker cannot finish a claim owned by another dispatcher'')
                    else Inr ((), delete_lease task_id (release_reservations task_id current_time s)))
          else (case lease_of task_id s of
                  None \<Rightarrow> Inl (PermissionError ''worker cannot finish a claim owned by another dispatcher'')
                | Some lease \<Rightarrow>
                    if lr_owner lease \<noteq> owner \<or> lr_token lease \<noteq> token
                    then Inl (PermissionError ''worker cannot finish a claim owned by another dispatcher'')
                    else if lr_expires_at lease \<le> current_time - lease_ttl svc
                    then Inl (PermissionError ''worker lease expired beyond grace; claim ownership lost'')
                    else if map_option gx_state (graph_of task_id s) \<noteq> required_graph_state target
                    then Inl (RuntimeError ''cannot finish task before graph'')
                    else bnd (transition_task project_id task_id (tr_version task) target s) (\<lambda>s1.
                         bnd (close_attempt task_id attempt_id target current_time s1) (\<lambda>s2.
                           Inr ((), delete_lease task_id (release_reservations task_id current_time s2))))))"

definition finish_claim ::
  "SchedulerService \<Rightarrow> uuid \<Rightarrow> uuid \<Rightarrow> string \<Rightarrow> uuid \<Rightarrow> uuid \<Rightarrow> TaskStatus \<Rightarrow> db \<Rightarrow> unit result \<times> db" where
  "finish_claim svc task_id project_id owner token attempt_id target s =
     (if target \<notin> {TaskStatus.COMPLETED, TaskStatus.FAILED, TaskStatus.CANCELLED}
      then (Inl (ValueError ''worker claim may finish only in a terminal state''), s)
      else commit (finish_claim_body svc task_id project_id owner token attempt_id target) s)"

definition expired_candidates :: "time \<Rightarrow> int \<Rightarrow> db \<Rightarrow> uuid list" where
  "expired_candidates current_time limit s =
     map lr_task_id (take (nat limit) (sort_key (\<lambda>l. (lr_expires_at l, lr_task_id l))
       (filter (\<lambda>l. lr_expires_at l \<le> current_time) (leases s))))"

definition reclaim_one :: "time \<Rightarrow> uuid \<Rightarrow> int \<times> db \<Rightarrow> (int \<times> db) result" where
  "reclaim_one current_time task_id = (\<lambda>(reclaimed, s).
     case task_row task_id s of
       None \<Rightarrow> Inr (reclaimed, s)
     | Some task \<Rightarrow>
         (case lease_of task_id s of
            None \<Rightarrow> Inr (reclaimed, s)
          | Some lease \<Rightarrow>
              if lr_expires_at lease > current_time then Inr (reclaimed, s)
              else if tr_state task = TaskStatus.RUNNING then Inr (reclaimed, s)
              else bnd (if tr_state task = TaskStatus.LEASED
                        then transition_task (tr_project_id task) (tr_id task) (tr_version task) TaskStatus.READY s
                        else Inr s) (\<lambda>s1.
                   Inr (reclaimed + 1, delete_lease task_id (release_reservations task_id current_time s1)))))"

definition reclaim_expired :: "time option \<Rightarrow> int \<Rightarrow> db \<Rightarrow> int result \<times> db" where
  "reclaim_expired now limit =
     commit (\<lambda>s. for_each (expired_candidates (at_time now s) limit s) (reclaim_one (at_time now s)) (0, s))"

subsection \<open>Cancellation\<close>

definition cancel_task_body :: "uuid \<Rightarrow> uuid \<Rightarrow> db \<Rightarrow> (unit \<times> db) result" where
  "cancel_task_body project_id task_id s =
     (case get_task project_id task_id s of
        None \<Rightarrow> Inl (LookupError ''task does not exist in project'')
      | Some task \<Rightarrow>
          bnd (if tr_state task \<noteq> TaskStatus.CANCELLED
               then transition_task project_id task_id (tr_version task) TaskStatus.CANCELLED s
               else Inr s) (\<lambda>s1.
            Inr ((), delete_lease task_id (release_reservations task_id (utc_now s) s1))))"

text \<open>The callback \<open>notify\<close> runs after the transaction has committed.\<close>

definition cancel_task ::
  "uuid \<Rightarrow> uuid \<Rightarrow> (uuid \<Rightarrow> db \<Rightarrow> unit result \<times> db) \<Rightarrow> db \<Rightarrow> unit result \<times> db" where
  "cancel_task project_id task_id notify s =
     (case commit (cancel_task_body project_id task_id) s of
        (Inl e, s') \<Rightarrow> (Inl e, s')
      | (Inr _, s') \<Rightarrow> notify task_id s')"

definition noop_notify :: "uuid \<Rightarrow> db \<Rightarrow> unit result \<times> db" where
  "noop_notify task_id s = (Inr (), s)"

fun cancel_each :: "TaskRow list \<Rightarrow> db \<Rightarrow> unit result \<times> db" where
  "cancel_each [] s = (Inr (), s)"
| "cancel_each (t # ts) s =
     (case cancel_task (tr_project_id t) (tr_id t) noop_notify s of
        (Inl e, s') \<Rightarrow> (Inl e, s')
      | (Inr _, s') \<Rightarrow> cancel_each ts s')"

text \<open>The run's own transition; the result says whether the run was resolved here.\<close>

definition cancel_run_row :: "uuid \<Rightarrow> db \<Rightarrow> (bool \<times> db) result" where
  "cancel_run_row run_id s =
     (case row_get rn_id run_id (runs s) of
        None \<Rightarrow> Inr (False, s)
      | Some locked \<Rightarrow>
          if rn_state locked \<in> RUN_TERMINAL_STATES then Inr (False, s)
          else bnd (require_run_transition (rn_state locked) RunStatus.CANCELLED) (\<lambda>_.
            let current_time = utc_now s;
                s1 = record_state_duration ''workflow'' (rn_id locked) (PRun (rn_state locked))
                       (rn_state_entered_at locked) current_time s;
                s2 = s1\<lparr>runs := row_update (\<lambda>r. rn_id r = run_id)
                       (\<lambda>r. r\<lparr>rn_state := RunStatus.CANCELLED, rn_state_entered_at := current_time\<rparr>) (runs s1)\<rparr>
            in bnd (emit ''run.cancelled'' ''run'' run_id
                 [(''run_id'', PId run_id), (''reason'', PText ''operator_cancelled'')] run_id ''run-state'' s2)
                 (\<lambda>s3. Inr (True, s3))))"

definition live_tasks_of :: "uuid \<Rightarrow> db \<Rightarrow> TaskRow list" where
  "live_tasks_of run_id s = filter (\<lambda>r. tr_run_id r = run_id \<and>
     tr_state r \<notin> {TaskStatus.COMPLETED, TaskStatus.FAILED, TaskStatus.CANCELLED}) (tasks s)"

fun cancel_runs :: "RunRow list \<Rightarrow> int \<Rightarrow> db \<Rightarrow> int result \<times> db" where
  "cancel_runs [] resolved s = (Inr resolved, s)"
| "cancel_runs (run # rest) resolved s =
     (case cancel_each (live_tasks_of (rn_id run) s) s of
        (Inl e, s') \<Rightarrow> (Inl e, s')
      | (Inr _, s') \<Rightarrow>
          (case commit (cancel_run_row (rn_id run)) s' of
             (Inl e, s'') \<Rightarrow> (Inl e, s'')
           | (Inr done_here, s'') \<Rightarrow> cancel_runs rest (if done_here then resolved + 1 else resolved) s''))"

definition requested_runs :: "int \<Rightarrow> db \<Rightarrow> RunRow list" where
  "requested_runs limit s = take (nat limit) (sort_key (\<lambda>r. the (rn_cancellation_requested_at r))
     (filter (\<lambda>r. rn_cancellation_requested_at r \<noteq> None \<and> rn_state r \<notin> RUN_TERMINAL_STATES) (runs s)))"

definition cancel_requested_runs :: "int \<Rightarrow> db \<Rightarrow> int result \<times> db" where
  "cancel_requested_runs limit s = cancel_runs (requested_runs limit s) 0 s"

subsection \<open>Observed resource usage\<close>

definition running_average :: "int \<Rightarrow> rat \<Rightarrow> rat \<Rightarrow> rat" where
  "running_average n previous observed = (previous * of_int n + observed) / of_int (n + 1)"

definition merge_observation ::
  "time \<Rightarrow> ResourceObservation \<Rightarrow> ProjectTaskResourceEstimateRow \<Rightarrow> ProjectTaskResourceEstimateRow" where
  "merge_observation now obs row =
     (let average = running_average (es_sample_count row)
      in row\<lparr>es_sample_count := es_sample_count row + 1,
             es_average_cpu_time_ms := average (es_average_cpu_time_ms row) (of_int (ro_cpu_time_ms obs)),
             es_peak_memory_bytes := max (es_peak_memory_bytes row) (ro_peak_memory_bytes obs),
             es_average_duration_ms := average (es_average_duration_ms row) (of_int (ro_duration_ms obs)),
             es_average_output_bytes := average (es_average_output_bytes row) (of_int (ro_output_bytes obs)),
             es_average_network_requests := average (es_average_network_requests row) (of_int (ro_network_requests obs)),
             es_average_model_tokens := average (es_average_model_tokens row) (of_int (ro_model_tokens obs)),
             es_average_cost_usd := average (es_average_cost_usd row) (ro_cost_usd obs),
             es_updated_at := now\<rparr>)"

definition first_observation ::
  "uuid \<Rightarrow> TaskType \<Rightarrow> time \<Rightarrow> ResourceObservation \<Rightarrow> ProjectTaskResourceEstimateRow" where
  "first_observation project_id task_type now obs =
     \<lparr>es_project_id = project_id, es_task_type = task_type, es_sample_count = 1,
      es_average_cpu_time_ms = of_int (ro_cpu_time_ms obs), es_peak_memory_bytes = ro_peak_memory_bytes obs,
      es_average_duration_ms = of_int (ro_duration_ms obs), es_average_output_bytes = of_int (ro_output_bytes obs),
      es_average_network_requests = of_int (ro_network_requests obs),
      es_average_model_tokens = of_int (ro_model_tokens obs), es_average_cost_usd = ro_cost_usd obs,
      es_updated_at = now\<rparr>"

definition estimate_key :: "ProjectTaskResourceEstimateRow \<Rightarrow> uuid \<times> TaskType" where
  "estimate_key row = (es_project_id row, es_task_type row)"

fun observe_rounds :: "nat \<Rightarrow> uuid \<Rightarrow> TaskType \<Rightarrow> ResourceObservation \<Rightarrow> db \<Rightarrow> (unit \<times> db) result" where
  "observe_rounds 0 project_id task_type obs s = Inl (RuntimeError ''resource estimate row could not be recorded'')"
| "observe_rounds (Suc n) project_id task_type obs s =
     (case row_get estimate_key (project_id, task_type) (estimates s) of
        Some _ \<Rightarrow>
          Inr ((), s\<lparr>estimates := row_update (\<lambda>r. estimate_key r = (project_id, task_type))
             (merge_observation (utc_now s) obs) (estimates s)\<rparr>)
      | None \<Rightarrow>
          (case row_insert estimate_key (first_observation project_id task_type (utc_now s) obs) (estimates s) of
             Inr rows \<Rightarrow> Inr ((), s\<lparr>estimates := rows\<rparr>)
           | Inl _ \<Rightarrow> observe_rounds n project_id task_type obs s))"

definition record_observed_usage ::
  "uuid \<Rightarrow> TaskType \<Rightarrow> ResourceObservation \<Rightarrow> db \<Rightarrow> unit result \<times> db" where
  "record_observed_usage project_id task_type obs = commit (observe_rounds 2 project_id task_type obs)"

end
