(* ===== verification/Reconciliation.thy ===== *)
theory Reconciliation
  imports Scheduler
begin

section \<open>Reconciliation of task and graph state\<close>

text \<open>
  \<open>src/execution/scheduler/reconciliation.py\<close>. Two authorities describe the same work: the task
  row of the scheduler and the graph execution row of the workflow. \<open>decide\<close> compares them and
  \<open>reconcile\<close> repairs a divergence in one transaction; \<open>reconcile_due\<close> scans for divergent tasks
  and repairs each in a transaction of its own, logging and skipping failures;
  \<open>resolve_needs_reconciliation\<close> is the operator's exit from quarantine.
\<close>

subsection \<open>Decisions\<close>

datatype ReconciliationAction =
    NOOP | RESUME_CHECKPOINT | FINALIZE_DOMAIN | REQUEUE_MISSING_CHECKPOINT
  | DOMAIN_TERMINAL_WINS | GRAPH_TERMINAL_WINS | QUARANTINE

fun action_value :: "ReconciliationAction \<Rightarrow> string" where
  "action_value NOOP = ''NOOP''"
| "action_value RESUME_CHECKPOINT = ''RESUME_CHECKPOINT''"
| "action_value FINALIZE_DOMAIN = ''FINALIZE_DOMAIN''"
| "action_value REQUEUE_MISSING_CHECKPOINT = ''REQUEUE_MISSING_CHECKPOINT''"
| "action_value DOMAIN_TERMINAL_WINS = ''DOMAIN_TERMINAL_WINS''"
| "action_value GRAPH_TERMINAL_WINS = ''GRAPH_TERMINAL_WINS''"
| "action_value QUARANTINE = ''QUARANTINE''"

definition terminal_graphs :: "GraphExecutionState set" where
  "terminal_graphs = {GraphExecutionState.COMPLETED, GraphExecutionState.FAILED, GraphExecutionState.CANCELLED}"

definition foreign_graph :: "TaskRow \<Rightarrow> RunRow option \<Rightarrow> GraphExecutionRow \<Rightarrow> bool" where
  "foreign_graph task run graph =
     (case run of None \<Rightarrow> True
      | Some r \<Rightarrow> gx_run_id graph \<noteq> tr_run_id task \<or> gx_repository_id graph \<noteq> tr_repository_id task \<or>
          gx_baseline_commit graph \<noteq> rn_baseline_commit r)"

definition decide_running :: "GraphExecutionRow option \<Rightarrow> LeaseRow option \<Rightarrow> time \<Rightarrow> ReconciliationAction" where
  "decide_running graph lease now =
     (case graph of
        None \<Rightarrow> REQUEUE_MISSING_CHECKPOINT
      | Some g \<Rightarrow>
          if gx_state g = GraphExecutionState.COMPLETED then FINALIZE_DOMAIN
          else if (case lease of None \<Rightarrow> False | Some l \<Rightarrow> lr_expires_at l \<le> now) then RESUME_CHECKPOINT
          else NOOP)"

definition decide_terminal :: "TaskStatus \<Rightarrow> GraphExecutionRow option \<Rightarrow> ReconciliationAction" where
  "decide_terminal state graph =
     (case graph of
        None \<Rightarrow> NOOP
      | Some g \<Rightarrow>
          if gx_state g = GraphExecutionState.CANCELLED then NOOP
          else if gx_state g \<in> terminal_graphs
          then (if state = TaskStatus.COMPLETED \<and> gx_state g = GraphExecutionState.COMPLETED \<or>
                   state = TaskStatus.FAILED \<and> gx_state g = GraphExecutionState.FAILED
                then NOOP else QUARANTINE)
          else DOMAIN_TERMINAL_WINS)"

definition decide ::
  "TaskRow \<Rightarrow> RunRow option \<Rightarrow> GraphExecutionRow option \<Rightarrow> LeaseRow option \<Rightarrow> time \<Rightarrow> ReconciliationAction" where
  "decide task run graph lease now =
     (let g_is = (\<lambda>p. case graph of None \<Rightarrow> False | Some g \<Rightarrow> p g) in
      if g_is (\<lambda>g. gx_state g = NEEDS_RECONCILIATION) then NOOP
      else if g_is (\<lambda>g. gx_state g = GraphExecutionState.CANCELLED) \<and> tr_state task \<notin> TERMINAL_TASK_STATES
      then GRAPH_TERMINAL_WINS
      else if g_is (foreign_graph task run) then QUARANTINE
      else if tr_state task \<in> TERMINAL_TASK_STATES then decide_terminal (tr_state task) graph
      else if tr_state task = TaskStatus.RUNNING then decide_running graph lease now
      else NOOP)"

subsection \<open>Repair\<close>

definition set_task_state :: "TaskRow \<Rightarrow> TaskStatus \<Rightarrow> db \<Rightarrow> db result" where
  "set_task_state task target s =
     bnd (transition_task (tr_project_id task) (tr_id task) (tr_version task) target s) (\<lambda>s1.
       Inr (set_task_row (tr_id task) (\<lambda>r. r\<lparr>tr_state_entered_at := utc_now s\<rparr>) s1))"

definition release_lease :: "uuid \<Rightarrow> time \<Rightarrow> db \<Rightarrow> db" where
  "release_lease task_id now s = delete_lease task_id (release_reservations task_id now s)"

definition set_graph_state :: "uuid \<Rightarrow> GraphExecutionState \<Rightarrow> time \<Rightarrow> db \<Rightarrow> db" where
  "set_graph_state task_id state now s =
     set_graph_row task_id (\<lambda>g. g\<lparr>gx_state := state, gx_state_entered_at := now\<rparr>) s"

definition quarantine_target :: "TaskStatus \<Rightarrow> TaskStatus" where
  "quarantine_target state =
     (if TaskStatus.BLOCKED \<in> TASK_TRANSITIONS state then TaskStatus.BLOCKED else TaskStatus.CANCELLED)"

definition apply_action :: "ReconciliationAction \<Rightarrow> TaskRow \<Rightarrow> time \<Rightarrow> db \<Rightarrow> db result" where
  "apply_action action task now s =
     bnd (case action of
            NOOP \<Rightarrow> Inr s
          | RESUME_CHECKPOINT \<Rightarrow> set_task_state task TaskStatus.READY s
          | FINALIZE_DOMAIN \<Rightarrow> set_task_state task TaskStatus.COMPLETED s
          | REQUEUE_MISSING_CHECKPOINT \<Rightarrow> set_task_state task TaskStatus.READY s
          | DOMAIN_TERMINAL_WINS \<Rightarrow> Inr (set_graph_state (tr_id task) GraphExecutionState.CANCELLED now s)
          | GRAPH_TERMINAL_WINS \<Rightarrow> set_task_state task TaskStatus.CANCELLED s
          | QUARANTINE \<Rightarrow>
              bnd (if tr_state task \<in> TERMINAL_TASK_STATES then Inr s
                   else set_task_state task (quarantine_target (tr_state task)) s)
                (\<lambda>s1. Inr (set_graph_state (tr_id task) NEEDS_RECONCILIATION now s1)))
       (\<lambda>s1. Inr (release_lease (tr_id task) now s1))"

definition task_value :: "uuid \<Rightarrow> db \<Rightarrow> pvalue" where
  "task_value task_id s = (case task_row task_id s of None \<Rightarrow> PNone | Some r \<Rightarrow> PTask (tr_state r))"

definition graph_value :: "uuid \<Rightarrow> db \<Rightarrow> pvalue" where
  "graph_value task_id s = (case graph_of task_id s of None \<Rightarrow> PNone | Some g \<Rightarrow> PGraph (gx_state g))"

definition decision ::
  "uuid \<Rightarrow> uuid \<Rightarrow> time \<Rightarrow> db \<Rightarrow> (TaskRow \<times> ReconciliationAction) result" where
  "decision project_id task_id now s =
     (case get_task project_id task_id s of
        None \<Rightarrow> Inl (LookupError ''task does not exist in project'')
      | Some task \<Rightarrow>
          Inr (task, decide task (row_get rn_id (tr_run_id task) (runs s)) (graph_of task_id s)
            (lease_of task_id s) now))"

definition reconcile_body :: "uuid \<Rightarrow> uuid \<Rightarrow> time \<Rightarrow> db \<Rightarrow> (ReconciliationAction \<times> db) result" where
  "reconcile_body project_id task_id now s =
     bnd (decision project_id task_id now s) (\<lambda>(task, action).
     if action = NOOP then Inr (action, s)
     else bnd (apply_action action task now s) (\<lambda>s1.
          bnd (emit (''reconciliation.'' @ casefold (action_value action)) ''task'' task_id
                 [(''action'', PText (action_value action)), (''task_id'', PId task_id),
                  (''domain_state'', task_value task_id s1), (''graph_state'', graph_value task_id s1)]
                 (tr_run_id task) ''reconciliation'' s1) (\<lambda>s2.
            Inr (action, s2))))"

definition reconcile ::
  "uuid \<Rightarrow> uuid \<Rightarrow> time option \<Rightarrow> db \<Rightarrow> ReconciliationAction result \<times> db" where
  "reconcile project_id task_id now s =
     commit (reconcile_body project_id task_id (at_time now s)) s"

subsection \<open>The periodic scan\<close>

definition in_flight_due :: "time \<Rightarrow> db \<Rightarrow> TaskRow list" where
  "in_flight_due now s = filter (\<lambda>r.
     tr_state r \<in> {TaskStatus.RUNNING, TaskStatus.LEASED} \<and>
     (tr_id r \<in> lr_task_id ` set (filter (\<lambda>l. lr_expires_at l \<le> now) (leases s)) \<or>
      tr_id r \<in> gx_task_id ` set (filter (\<lambda>g. gx_state g \<in> {GraphExecutionState.COMPLETED,
        GraphExecutionState.FAILED, GraphExecutionState.CANCELLED}) (graph_executions s)))) (tasks s)"

definition disagrees :: "TaskStatus \<Rightarrow> GraphExecutionState \<Rightarrow> bool" where
  "disagrees t g \<longleftrightarrow> t = TaskStatus.COMPLETED \<and> g \<noteq> GraphExecutionState.COMPLETED \<or>
     t = TaskStatus.FAILED \<and> g \<noteq> GraphExecutionState.FAILED \<or>
     t = TaskStatus.CANCELLED \<and> g \<noteq> GraphExecutionState.CANCELLED"

definition settled_but_divergent :: "db \<Rightarrow> TaskRow list" where
  "settled_but_divergent s = concat (map (\<lambda>r.
     map (\<lambda>_. r) (filter (\<lambda>g. gx_task_id g = tr_id r \<and> disagrees (tr_state r) (gx_state g))
       (graph_executions s))) (tasks s))"

definition oldest :: "int \<Rightarrow> TaskRow list \<Rightarrow> (uuid \<times> uuid) list" where
  "oldest limit rows =
     map (\<lambda>r. (tr_project_id r, tr_id r)) (take (nat limit) (sort_key tr_state_entered_at rows))"

definition due :: "int \<Rightarrow> time \<Rightarrow> db \<Rightarrow> (uuid \<times> uuid) list" where
  "due limit now s = fromkeys (oldest limit (in_flight_due now s) @ oldest limit (settled_but_divergent s))"

fun reconcile_each ::
  "(uuid \<times> uuid) list \<Rightarrow> time \<Rightarrow> (uuid \<times> ReconciliationAction) list \<Rightarrow> db
     \<Rightarrow> (uuid \<times> ReconciliationAction) list \<times> db" where
  "reconcile_each [] now results s = (results, s)"
| "reconcile_each ((project_id, task_id) # rows) now results s =
     (case reconcile project_id task_id (Some now) s of
        (Inl e, s') \<Rightarrow> reconcile_each rows now results s'
      | (Inr action, s') \<Rightarrow> reconcile_each rows now (results @ [(task_id, action)]) s')"

definition reconcile_due ::
  "int \<Rightarrow> time option \<Rightarrow> db \<Rightarrow> (uuid \<times> ReconciliationAction) list \<times> db" where
  "reconcile_due limit now s = reconcile_each (due limit (at_time now s) s) (at_time now s) [] s"

subsection \<open>The operator's exit\<close>

datatype resolution = Fail | Retry

fun resolution_value :: "resolution \<Rightarrow> string" where
  "resolution_value Fail = ''fail''"
| "resolution_value Retry = ''retry''"

definition settle_graph :: "uuid \<Rightarrow> GraphExecutionRow \<Rightarrow> GraphExecutionState \<Rightarrow> db \<Rightarrow> db result" where
  "settle_graph task_id graph target s =
     transition_graph_execution task_id (gx_run_id graph) (gx_repository_id graph)
       (gx_baseline_commit graph) (gx_thread_id graph) target (gx_checkpoint_id graph) s"

definition resolution_action :: "resolution \<Rightarrow> ReconciliationAction" where
  "resolution_action r = (case r of Fail \<Rightarrow> DOMAIN_TERMINAL_WINS | Retry \<Rightarrow> GRAPH_TERMINAL_WINS)"

definition apply_resolution :: "resolution \<Rightarrow> TaskRow \<Rightarrow> GraphExecutionRow \<Rightarrow> db \<Rightarrow> db result" where
  "apply_resolution res task graph s =
     (case res of
        Fail \<Rightarrow>
          bnd (settle_graph (tr_id task) graph GraphExecutionState.FAILED s) (\<lambda>s1.
            if tr_state task \<noteq> TaskStatus.FAILED
            then set_task_state task TaskStatus.FAILED s1 else Inr s1)
      | Retry \<Rightarrow>
          bnd (settle_graph (tr_id task) graph GraphExecutionState.CANCELLED s)
            (set_task_state task TaskStatus.READY))"

definition resolve_body ::
  "uuid \<Rightarrow> uuid \<Rightarrow> resolution \<Rightarrow> time \<Rightarrow> db \<Rightarrow> (ReconciliationAction \<times> db) result" where
  "resolve_body project_id task_id res now s =
     (case get_task project_id task_id s of
        None \<Rightarrow> Inl (LookupError ''task does not exist in project'')
      | Some task \<Rightarrow>
          (case graph_of task_id s of
             None \<Rightarrow> Inl (ValueError ''task is not parked in NEEDS_RECONCILIATION'')
           | Some graph \<Rightarrow>
               bnd (guard (gx_state graph = NEEDS_RECONCILIATION)
                      (ValueError ''task is not parked in NEEDS_RECONCILIATION'')) (\<lambda>_.
               bnd (apply_resolution res task graph s) (\<lambda>s2.
               let s3 = release_lease task_id now s2;
                   action = resolution_action res
               in bnd (emit (''reconciliation.resolved.'' @ resolution_value res) ''task'' task_id
                         [(''action'', PText (action_value action)), (''resolution'', PText (resolution_value res)),
                          (''task_id'', PId task_id), (''domain_state'', task_value task_id s3),
                          (''graph_state'', graph_value task_id s3)]
                         (tr_run_id task) ''reconciliation'' s3) (\<lambda>s4.
                    Inr (action, s4))))))"

definition resolve_needs_reconciliation ::
  "uuid \<Rightarrow> uuid \<Rightarrow> resolution \<Rightarrow> time option \<Rightarrow> db \<Rightarrow> ReconciliationAction result \<times> db" where
  "resolve_needs_reconciliation project_id task_id res now s =
     commit (resolve_body project_id task_id res (at_time now s)) s"

end
