(* ===== verification/Scheduler_Safety.thy ===== *)
theory Scheduler_Safety
  imports Reconciliation
begin

section \<open>Safety of the scheduler and the reconciler\<close>

text \<open>
  The invariant the scheduler and the reconciler keep together. A task is in flight when it is
  LEASED or RUNNING. In-flight tasks are exactly the tasks with a lease and exactly the tasks
  with an active \<open>task\<close> reservation; only they hold active reservations; and the active units
  stay within the ceilings of the policy. Every operation of the two services is a step, and
  steps may follow each other in any order.
\<close>

subsection \<open>The invariant\<close>

definition in_flight :: "TaskStatus \<Rightarrow> bool" where
  "in_flight st \<longleftrightarrow> st = TaskStatus.LEASED \<or> st = TaskStatus.RUNNING"

definition active :: "db \<Rightarrow> ReservationRow list" where
  "active s = filter (\<lambda>r. rs_released_at r = None) (reservations s)"

definition flying :: "db \<Rightarrow> uuid set" where
  "flying s = tr_id ` {r \<in> set (tasks s). in_flight (tr_state r)}"

definition task_slots_held :: "db \<Rightarrow> ReservationRow list" where
  "task_slots_held s = filter (\<lambda>r. rs_resource r = ''task'') (active s)"

definition sched_inv :: "db \<Rightarrow> bool" where
  "sched_inv s \<longleftrightarrow>
     keyed tr_id (tasks s) \<and> keyed lr_task_id (leases s) \<and>
     lr_task_id ` set (leases s) = flying s \<and>
     (\<forall>r \<in> set (active s). 1 \<le> rs_units r \<and> (\<exists>t \<in> set (tasks s). tr_id t = rs_task_id r \<and>
        tr_project_id t = rs_project_id r \<and> in_flight (tr_state t))) \<and>
     keyed rs_task_id (task_slots_held s) \<and>
     rs_task_id ` set (task_slots_held s) = flying s \<and>
     (\<forall>r \<in> set (task_slots_held s). rs_units r = 1)"

definition cap_inv :: "SchedulerService \<Rightarrow> db \<Rightarrow> bool" where
  "cap_inv svc s \<longleftrightarrow>
     active_units (\<lambda>r. rs_resource r = ''task'') s \<le> max_parallel_tasks (policy svc) \<and>
     (\<forall>p. active_units (\<lambda>r. rs_resource r = ''task'' \<and> rs_project_id r = p) s
            \<le> max_parallel_tasks_per_project (policy svc)) \<and>
     active_units (\<lambda>r. rs_resource r = ''model'') s \<le> max_model_concurrency (policy svc) \<and>
     active_units (\<lambda>r. rs_resource r = ''sandbox'') s \<le> max_sandbox_concurrency (policy svc)"

definition safe :: "SchedulerService \<Rightarrow> db \<Rightarrow> bool" where
  "safe svc s \<longleftrightarrow> sched_inv s \<and> cap_inv svc s"

lemma active_units_active: "active_units p s = sum_where p rs_units (active s)"
  by (simp add: active_units_def active_def sum_where_def conj_commute)

lemma safe_refresh:
  assumes "tasks s' = tasks s" "map lr_task_id (leases s') = map lr_task_id (leases s)" "active s' = active s"
  shows "safe svc s' = safe svc s"
proof -
  have "lr_task_id ` set (leases s') = lr_task_id ` set (leases s)"
    using arg_cong[OF assms(2), of set] by simp
  then show ?thesis using assms
    by (simp add: safe_def sched_inv_def keyed_def cap_inv_def flying_def task_slots_held_def active_units_active)
qed

lemma safe_cong:
  "tasks s' = tasks s \<Longrightarrow> leases s' = leases s \<Longrightarrow> active s' = active s \<Longrightarrow> safe svc s' = safe svc s"
  by (rule safe_refresh) simp_all

lemma active_release:
  "active (release_reservations task_id now s) = filter (\<lambda>r. rs_task_id r \<noteq> task_id) (active s)"
proof -
  have "filter (\<lambda>r. rs_released_at r = None)
      (row_update (\<lambda>r. rs_task_id r = task_id \<and> rs_released_at r = None)
        (\<lambda>r. r\<lparr>rs_released_at := Some now\<rparr>) rows) =
    filter (\<lambda>r. rs_task_id r \<noteq> task_id) (filter (\<lambda>r. rs_released_at r = None) rows)" for rows
    by (induction rows) auto
  then show ?thesis by (simp add: active_def release_reservations_def)
qed

lemma flyingE:
  assumes "task_id \<in> flying s"
  obtains t where "t \<in> set (tasks s)" "tr_id t = task_id" "in_flight (tr_state t)"
  using assms by (auto simp: flying_def)

lemma not_flying:
  assumes "keyed tr_id (tasks s)" "row \<in> set (tasks s)" "\<not> in_flight (tr_state row)"
  shows "tr_id row \<notin> flying s"
  using assms(2,3) by (fastforce elim!: flyingE dest: keyed_unique[OF assms(1,2), OF _ sym])

lemma lease_flying: "sched_inv s \<Longrightarrow> l \<in> set (leases s) \<Longrightarrow> lr_task_id l \<in> flying s"
  unfolding sched_inv_def by blast

lemma active_flying: "sched_inv s \<Longrightarrow> r \<in> set (active s) \<Longrightarrow> rs_task_id r \<in> flying s"
  unfolding sched_inv_def flying_def by (metis (mono_tags, lifting) image_eqI mem_Collect_eq)

lemma flying_update:
  assumes "keyed tr_id (tasks s)" "row \<in> set (tasks s)"
    and "tasks s' = row_update (\<lambda>r. tr_id r = tr_id row) (enter_state target now) (tasks s)"
  shows "flying s' = (if in_flight target then insert (tr_id row) (flying s) else flying s - {tr_id row})"
proof -
  have "set (map tr_id (filter (\<lambda>r. in_flight (tr_state r)) (row_update (\<lambda>r. tr_id r = t) (enter_state target now) rows))) =
    (if in_flight target \<and> t \<in> tr_id ` set rows then {t} else {}) \<union>
    (set (map tr_id (filter (\<lambda>r. in_flight (tr_state r)) rows)) - {t})" for t rows
    by (induction rows) auto
  then show ?thesis using assms(2) by (auto simp: flying_def assms(3))
qed

lemma task_after_update:
  assumes "t \<in> set (tasks s)" "tr_id t \<noteq> task_id"
    and "tasks s' = row_update (\<lambda>r. tr_id r = task_id) f (tasks s)"
  shows "t \<in> set (tasks s')"
  using assms by (auto simp: set_row_update intro!: image_eqI[of _ _ t])

lemma cap_inv_filter:
  assumes "cap_inv svc s" "sched_inv s" "active s' = filter q (active s)"
  shows "cap_inv svc s'"
proof -
  have "active_units p s' \<le> active_units p s" for p
  proof -
    have "sum_where p rs_units (filter q rows) \<le> sum_where p rs_units rows"
      if "\<forall>r \<in> set rows. 1 \<le> rs_units r" for rows
      using that by (induction rows) auto
    then show ?thesis using assms(2,3) by (simp add: active_units_active sched_inv_def)
  qed
  then show ?thesis using assms(1) unfolding cap_inv_def by (meson order_trans)
qed

subsection \<open>The elementary moves\<close>

text \<open>A task leaves the flight: its state changes, its lease and reservations go.\<close>

lemma settle_safe:
  assumes "safe svc s" "row \<in> set (tasks s)" "\<not> in_flight target"
    and tasks': "tasks s' = row_update (\<lambda>r. tr_id r = tr_id row) (enter_state target now) (tasks s)"
    and leases': "leases s' = row_delete (\<lambda>l. lr_task_id l = tr_id row) (leases s)"
    and active': "active s' = filter (\<lambda>r. rs_task_id r \<noteq> tr_id row) (active s)"
  shows "safe svc s'"
proof -
  have inv: "sched_inv s" and cap: "cap_inv svc s" using assms(1) by (simp_all add: safe_def)
  have keyed: "keyed tr_id (tasks s)" using inv by (simp add: sched_inv_def)
  have fly: "flying s' = flying s - {tr_id row}"
    using flying_update[OF keyed assms(2) tasks'] assms(3) by simp
  have slots: "task_slots_held s' = filter (\<lambda>r. rs_task_id r \<noteq> tr_id row) (task_slots_held s)"
    by (simp add: task_slots_held_def active' conj_commute)
  have "sched_inv s'"
    unfolding sched_inv_def
  proof (intro conjI)
    show "keyed tr_id (tasks s')" using keyed by (auto simp: tasks')
    show "keyed lr_task_id (leases s')" using inv by (auto simp: leases' sched_inv_def)
    show "lr_task_id ` set (leases s') = flying s'" using inv by (auto simp: leases' fly sched_inv_def)
    show "\<forall>r\<in>set (active s'). 1 \<le> rs_units r \<and> (\<exists>t\<in>set (tasks s'). tr_id t = rs_task_id r \<and>
        tr_project_id t = rs_project_id r \<and> in_flight (tr_state t))"
    proof
      fix r assume "r \<in> set (active s')"
      then have r: "r \<in> set (active s)" "rs_task_id r \<noteq> tr_id row" by (simp_all add: active')
      then obtain t where "1 \<le> rs_units r" and t: "t \<in> set (tasks s)" "tr_id t = rs_task_id r"
        "tr_project_id t = rs_project_id r" "in_flight (tr_state t)"
        using inv by (auto simp: sched_inv_def)
      moreover have "t \<in> set (tasks s')"
        by (rule task_after_update[OF t(1) _ tasks']) (use t(2) r(2) in simp)
      ultimately show "1 \<le> rs_units r \<and> (\<exists>t\<in>set (tasks s'). tr_id t = rs_task_id r \<and>
        tr_project_id t = rs_project_id r \<and> in_flight (tr_state t))" by blast
    qed
    show "keyed rs_task_id (task_slots_held s')"
      using inv by (simp add: slots keyed_def sched_inv_def distinct_map_filter)
    show "rs_task_id ` set (task_slots_held s') = flying s'" using inv by (auto simp: slots fly sched_inv_def)
    show "\<forall>r\<in>set (task_slots_held s'). rs_units r = 1" using inv by (simp add: slots sched_inv_def)
  qed
  then show ?thesis using cap_inv_filter[OF cap inv active'] by (simp add: safe_def)
qed

text \<open>Cleaning up after a task that is not in flight changes nothing.\<close>

lemma clean_safe:
  assumes "safe svc s" "row \<in> set (tasks s)" "\<not> in_flight (tr_state row)"
    and "tasks s' = tasks s" "leases s' = row_delete (\<lambda>l. lr_task_id l = tr_id row) (leases s)"
    and "active s' = filter (\<lambda>r. rs_task_id r \<noteq> tr_id row) (active s)"
  shows "safe svc s'"
proof -
  have inv: "sched_inv s" using assms(1) by (simp add: safe_def)
  have away: "tr_id row \<notin> flying s"
    by (rule not_flying) (use inv assms(2,3) in \<open>simp_all add: sched_inv_def\<close>)
  have "leases s' = leases s"
    unfolding assms(5) by (rule row_delete_none) (use lease_flying[OF inv] away in metis)
  moreover have "active s' = active s"
    unfolding assms(6) by (rule filter_True) (use active_flying[OF inv] away in metis)
  ultimately show ?thesis using safe_cong[OF assms(4)] assms(1) by simp
qed

text \<open>A task changes state on one side of the flight.\<close>

lemma move_safe:
  assumes "safe svc s" "row \<in> set (tasks s)" "in_flight (tr_state row) = in_flight target"
    and tasks': "tasks s' = row_update (\<lambda>r. tr_id r = tr_id row) (enter_state target now) (tasks s)"
    and rest: "leases s' = leases s" "active s' = active s"
  shows "safe svc s'"
proof -
  have inv: "sched_inv s" and cap: "cap_inv svc s" using assms(1) by (simp_all add: safe_def)
  have keyed: "keyed tr_id (tasks s)" using inv by (simp add: sched_inv_def)
  have "tr_id row \<in> flying s \<longleftrightarrow> in_flight (tr_state row)"
    using not_flying[OF keyed assms(2)] assms(2) by (auto simp: flying_def)
  then have fly: "flying s' = flying s"
    using flying_update[OF keyed assms(2) tasks'] assms(3) by auto
  have slots: "task_slots_held s' = task_slots_held s" by (simp add: task_slots_held_def rest)
  have "\<exists>t\<in>set (tasks s'). tr_id t = rs_task_id r \<and> tr_project_id t = rs_project_id r \<and> in_flight (tr_state t)"
    if r: "r \<in> set (active s)" for r
  proof -
    obtain t where t: "t \<in> set (tasks s)" "tr_id t = rs_task_id r"
        "tr_project_id t = rs_project_id r" "in_flight (tr_state t)"
      using inv r by (auto simp: sched_inv_def)
    show ?thesis
    proof (cases "tr_id t = tr_id row")
      case True
      then have "t = row" using keyed_unique[OF keyed t(1) assms(2)] by simp
      moreover have "enter_state target now row \<in> set (tasks s')"
        using assms(2) by (auto simp: tasks' set_row_update intro!: image_eqI[of _ _ row])
      ultimately show ?thesis using t assms(3) by (intro bexI[of _ "enter_state target now row"]) auto
    next
      case False
      then show ?thesis using task_after_update[OF t(1) False tasks'] t by blast
    qed
  qed
  moreover have "keyed tr_id (tasks s')" using keyed by (auto simp: tasks')
  ultimately have "sched_inv s'" using inv unfolding sched_inv_def fly slots rest by auto
  moreover have "cap_inv svc s'" using cap by (simp add: cap_inv_def active_units_active rest)
  ultimately show ?thesis by (simp add: safe_def)
qed

text \<open>A READY task takes off with a lease and its reservations.\<close>

lemma admit_sched_inv:
  assumes inv: "sched_inv s" and row: "row \<in> set (tasks s)" "\<not> in_flight (tr_state row)"
    and tasks': "tasks s' = row_update (\<lambda>r. tr_id r = tr_id row) (enter_state target now) (tasks s)"
    and "in_flight target"
    and leases': "leases s' = leases s @ [l]" "lr_task_id l = tr_id row"
    and active': "active s' = active s @ new"
    and new: "\<forall>r \<in> set new. rs_task_id r = tr_id row \<and> rs_project_id r = tr_project_id row \<and> 1 \<le> rs_units r"
    and slot: "filter (\<lambda>r. rs_resource r = ''task'') new = [r0]" "rs_units r0 = 1"
  shows "sched_inv s'"
proof -
  have keyed: "keyed tr_id (tasks s)" using inv by (simp add: sched_inv_def)
  have fly: "flying s' = insert (tr_id row) (flying s)"
    using flying_update[OF keyed row(1) tasks'] assms(5) by simp
  have away: "tr_id row \<notin> flying s" by (rule not_flying[OF keyed row])
  have r0: "rs_task_id r0 = tr_id row"
  proof -
    have "r0 \<in> set (filter (\<lambda>r. rs_resource r = ''task'') new)" unfolding slot by simp
    then show ?thesis using new by auto
  qed
  have slots: "task_slots_held s' = task_slots_held s @ [r0]"
    by (simp add: task_slots_held_def active' slot)
  have here: "enter_state target now row \<in> set (tasks s')"
    using row(1) by (auto simp: tasks' set_row_update intro!: image_eqI[of _ _ row])
  show ?thesis
    unfolding sched_inv_def
  proof (intro conjI)
    show "keyed tr_id (tasks s')" using keyed by (auto simp: tasks')
    show "keyed lr_task_id (leases s')"
      using inv away by (auto simp: leases' keyed_def sched_inv_def)
    show "lr_task_id ` set (leases s') = flying s'" using inv by (auto simp: leases' fly sched_inv_def)
    show "\<forall>r\<in>set (active s'). 1 \<le> rs_units r \<and> (\<exists>t\<in>set (tasks s'). tr_id t = rs_task_id r \<and>
        tr_project_id t = rs_project_id r \<and> in_flight (tr_state t))"
    proof
      fix r assume "r \<in> set (active s')"
      then consider "r \<in> set (active s)" | "r \<in> set new" by (auto simp: active')
      then show "1 \<le> rs_units r \<and> (\<exists>t\<in>set (tasks s'). tr_id t = rs_task_id r \<and>
        tr_project_id t = rs_project_id r \<and> in_flight (tr_state t))"
      proof cases
        case 1
        then obtain t where "1 \<le> rs_units r" and t: "t \<in> set (tasks s)" "tr_id t = rs_task_id r"
          "tr_project_id t = rs_project_id r" "in_flight (tr_state t)"
          using inv by (auto simp: sched_inv_def)
        moreover have "tr_id t \<noteq> tr_id row" using away active_flying[OF inv 1] t(2) by metis
        ultimately show ?thesis using task_after_update[OF t(1) _ tasks'] by blast
      next
        case 2
        then show ?thesis using new here assms(5) by (intro conjI bexI[OF _ here]) auto
      qed
    qed
    show "keyed rs_task_id (task_slots_held s')"
      using inv away r0 by (auto simp: slots keyed_def sched_inv_def)
    show "rs_task_id ` set (task_slots_held s') = flying s'"
      using inv r0 by (auto simp: slots fly sched_inv_def)
    show "\<forall>r\<in>set (task_slots_held s'). rs_units r = 1" using inv slot(2) by (auto simp: slots sched_inv_def)
  qed
qed

subsection \<open>The operations\<close>

lemma transition_task_row:
  assumes "transition_task project_id task_id v target s = Inr s'"
  obtains row where "row \<in> set (tasks s)" "tr_id row = task_id" "tr_version row = v"
    "target \<in> TASK_TRANSITIONS (tr_state row)"
    "tasks s' = row_update (\<lambda>r. tr_id r = tr_id row) (enter_state target (db_clock s)) (tasks s)"
proof -
  obtain row where row: "get_task project_id task_id s = Some row" "tr_version row = v"
    "target \<in> TASK_TRANSITIONS (tr_state row)"
    using assms by (auto elim!: transition_task_cases)
  show thesis
    by (rule that[of row]) (use row get_task_Some[OF row(1)] transition_task_frame(1)[OF assms] in auto)
qed

lemma emit_core:
  "emit event_type aggregate_type aggregate_id payload correlation_id topic s = Inr s' \<Longrightarrow>
   tasks s' = tasks s \<and> leases s' = leases s \<and> reservations s' = reservations s"
  by (auto elim!: emit_cases)

lemma active_frame: "reservations s' = reservations s \<Longrightarrow> active s' = active s"
  by (simp add: active_def)

lemma release_frame [simp]:
  "tasks (release_reservations t now s) = tasks s" "leases (release_reservations t now s) = leases s"
  "tasks (delete_lease t s) = tasks s" "leases (delete_lease t s) = row_delete (\<lambda>l. lr_task_id l = t) (leases s)"
  "active (delete_lease t s) = active s" "task_attempts (release_reservations t now s) = task_attempts s"
  by (simp_all add: release_reservations_def delete_lease_def active_def)

lemma active_release_simp [simp]:
  "active (release_reservations task_id now s) = filter (\<lambda>r. rs_task_id r \<noteq> task_id) (active s)"
  by (rule active_release)

text \<open>The two orders in which the code settles a task.\<close>

lemma settle_after_safe:
  assumes "safe svc s" "transition_task project_id task_id v target s = Inr s1" "\<not> in_flight target"
    and "tasks s' = tasks s1" "leases s' = row_delete (\<lambda>l. lr_task_id l = task_id) (leases s1)"
    and "active s' = filter (\<lambda>r. rs_task_id r \<noteq> task_id) (active s1)"
  shows "safe svc s'"
proof (rule transition_task_row[OF assms(2)])
  fix row
  assume row: "row \<in> set (tasks s)" "tr_id row = task_id"
    "tasks s1 = row_update (\<lambda>r. tr_id r = tr_id row) (enter_state target (db_clock s)) (tasks s)"
  have active': "active s' = filter (\<lambda>r. rs_task_id r \<noteq> tr_id row) (active s)"
    using assms(6) row(2) active_frame[OF transition_task_frame(3)[OF assms(2)]] by simp
  show ?thesis
    by (rule settle_safe[OF assms(1) row(1) assms(3) _ _ active'])
      (use row assms(4,5) transition_task_frame(2)[OF assms(2)] in simp_all)
qed

lemma settle_before_safe:
  assumes "safe svc s"
    and "transition_task project_id task_id v target (delete_lease task_id (release_reservations task_id now s)) = Inr s'"
    and "\<not> in_flight target"
  shows "safe svc s'"
proof (rule transition_task_row[OF assms(2)])
  fix row
  assume row: "row \<in> set (tasks (delete_lease task_id (release_reservations task_id now s)))" "tr_id row = task_id"
    "tasks s' = row_update (\<lambda>r. tr_id r = tr_id row)
       (enter_state target (db_clock (delete_lease task_id (release_reservations task_id now s))))
       (tasks (delete_lease task_id (release_reservations task_id now s)))"
  have row': "row \<in> set (tasks s)" using row(1) by simp
  have active': "active s' = filter (\<lambda>r. rs_task_id r \<noteq> tr_id row) (active s)"
    using active_frame[OF transition_task_frame(3)[OF assms(2)]] row(2) by simp
  show ?thesis
    by (rule settle_safe[OF assms(1) row' assms(3) _ _ active'])
      (use row transition_task_frame(2)[OF assms(2)] in simp_all)
qed

lemma commit_safe:
  assumes "safe svc s" "\<And>a s'. body s = Inr (a, s') \<Longrightarrow> safe svc s'"
  shows "safe svc (snd (commit body s))"
  using assms by (auto simp: commit_def split: sum.splits)

lemma terminal_not_flying:
  "st \<in> TERMINAL_TASK_STATES \<Longrightarrow> \<not> in_flight st"
  by (auto simp: TERMINAL_TASK_STATES_def in_flight_def)

lemma cancel_task_body_safe:
  assumes "safe svc s" "cancel_task_body project_id task_id s = Inr (u, s')"
  shows "safe svc s'"
proof -
  obtain task s1 where task: "get_task project_id task_id s = Some task"
    and s1: "(if tr_state task \<noteq> TaskStatus.CANCELLED
       then transition_task project_id task_id (tr_version task) TaskStatus.CANCELLED s else Inr s) = Inr s1"
    and s': "s' = delete_lease task_id (release_reservations task_id (utc_now s) s1)"
    using assms(2) by (auto simp: cancel_task_body_def bnd_eq_Inr split: option.splits)
  note row = get_task_Some[OF task]
  show ?thesis
  proof (cases "tr_state task = TaskStatus.CANCELLED")
    case True
    then have "s1 = s" using s1 by simp
    then show ?thesis
      by (intro clean_safe[OF assms(1) row(1)]) (use True row(2) in \<open>simp_all add: s' in_flight_def\<close>)
  next
    case False
    then have "transition_task project_id task_id (tr_version task) TaskStatus.CANCELLED s = Inr s1"
      using s1 by simp
    from settle_after_safe[OF assms(1) this] show ?thesis by (simp add: s' in_flight_def)
  qed
qed

lemma refuse_safe:
  assumes "safe svc s" "refuse_exhausted_task project_id task_id now s = Inr (u, s')"
  shows "safe svc s'"
  using assms(2) assms(1)
  by (auto simp: refuse_exhausted_task_def bnd_eq_Inr in_flight_def split: option.splits if_splits
      elim!: settle_before_safe)

lemma admit_attempt_frame:
  assumes "admit_attempt task_id attempt_id h s = Inr s'"
  shows "tasks s' = tasks s" "leases s' = leases s" "reservations s' = reservations s"
  using assms by (auto simp: admit_attempt_def create_attempt_def bnd_eq_Inr split: option.splits)

lemma admit_claim_cases:
  assumes "admit_claim svc task_id project_id owner token attempt_id h now s = Inr (x, s')"
  obtains (finished) task where "get_task project_id task_id s = Some task" "tr_state task = TaskStatus.COMPLETED" "s' = s"
  | (started) task run lease s1 where "get_task project_id task_id s = Some task"
      "row_get rn_id (tr_run_id task) (runs s) = Some run" "exhaustion_reason svc task run s = None"
      "lease_of task_id s = Some lease" "lr_owner lease = owner" "lr_token lease = token"
      "now < lr_expires_at lease"
      "tr_state task = TaskStatus.LEASED \<and>
         transition_task project_id task_id (tr_version task) TaskStatus.RUNNING s = Inr s1 \<or>
       tr_state task = TaskStatus.RUNNING \<and> s1 = s"
      "admit_attempt task_id attempt_id h s1 = Inr s'"
  using assms
  by (auto simp: admit_claim_def bnd_eq_Inr not_le split: option.splits if_splits)

lemma admit_claim_safe:
  assumes "safe svc s" "admit_claim svc' task_id project_id owner token attempt_id h now s = Inr (x, s')"
  shows "safe svc s'"
  using assms(2)
proof (cases rule: admit_claim_cases)
  case (finished task)
  then show ?thesis using assms(1) by simp
next
  case (started task run lease s1)
  note row = get_task_Some[OF started(1)]
  have "safe svc s1"
    using started(8)
  proof
    assume leased: "tr_state task = TaskStatus.LEASED \<and>
      transition_task project_id task_id (tr_version task) TaskStatus.RUNNING s = Inr s1"
    note frame = transition_task_frame[OF conjunct2[OF leased]]
    show ?thesis
      by (rule move_safe[OF assms(1) row(1) _ _ frame(2) active_frame[OF frame(3)]])
        (use leased row(2) frame(1) in \<open>simp_all add: in_flight_def\<close>)
  qed (use assms(1) in simp)
  then show ?thesis
    using admit_attempt_frame[OF started(9)] safe_cong active_frame by metis
qed

lemma start_claim_safe:
  assumes "safe svc s"
  shows "safe svc (snd (start_claim svc' task_id project_id owner token attempt_id h now s))"
proof -
  let ?now = "at_time now s"
  obtain r s1 where admit: "commit (admit_claim svc' task_id project_id owner token attempt_id h ?now) s = (r, s1)"
    by fastforce
  have s1: "safe svc s1"
    using commit_safe[OF assms admit_claim_safe[OF assms], of "\<lambda>s. admit_claim svc' task_id project_id owner token attempt_id h ?now s"]
    by (simp add: admit)
  have "safe svc (snd (commit (refuse_exhausted_task project_id task_id ?now) s1))"
    by (rule commit_safe[OF s1 refuse_safe[OF s1]])
  then show ?thesis using s1 admit
    by (auto simp: start_claim_def Let_def split: prod.splits sum.splits py_error.splits)
qed

lemma heartbeat_safe:
  assumes "safe svc s"
  shows "safe svc (snd (heartbeat svc' task_id owner token now s))"
  unfolding heartbeat_def
proof (rule commit_safe[OF assms])
  fix a s'
  let ?held = "\<lambda>l. lr_task_id l = task_id \<and> lr_owner l = owner \<and> lr_token l = token"
  let ?f = "\<lambda>l. l\<lparr>lr_expires_at := at_time now s + lease_ttl svc', lr_heartbeat_at := at_time now s\<rparr>"
  assume "(let current_time = at_time now s in
       if (case task_row task_id s of None \<Rightarrow> False
           | Some r \<Rightarrow> tr_state r \<in> {TaskStatus.COMPLETED, TaskStatus.FAILED, TaskStatus.CANCELLED})
       then Inr (False, s)
       else let held = ?held
            in Inr (list_ex held (leases s),
                 s\<lparr>leases := row_update held (\<lambda>l. l\<lparr>lr_expires_at := current_time + lease_ttl svc',
                     lr_heartbeat_at := current_time\<rparr>) (leases s)\<rparr>)) = Inr (a, s')"
  then consider "s' = s" | "s' = s\<lparr>leases := row_update ?held ?f (leases s)\<rparr>"
    by (auto simp: Let_def split: if_splits)
  then show "safe svc s'"
  proof cases
    case 2
    have "map lr_task_id (leases s') = map lr_task_id (leases s)"
      unfolding 2 by (simp add: map_row_update)
    then show ?thesis using assms safe_refresh[of s' s] by (simp add: 2 active_def)
  qed (use assms in simp)
qed

lemma close_attempt_frame:
  assumes "close_attempt task_id attempt_id target now s = Inr s'"
  shows "tasks s' = tasks s" "leases s' = leases s" "reservations s' = reservations s"
  using assms by (auto simp: close_attempt_def bnd_eq_Inr split: option.splits)

lemma finish_claim_cases:
  assumes "finish_claim_body svc task_id project_id owner token attempt_id target s = Inr (u, s')"
  obtains (replayed) task where "get_task project_id task_id s = Some task" "tr_state task = target"
      "lease_of task_id s = None" "s' = s"
  | (cleaned) task lease where "get_task project_id task_id s = Some task" "tr_state task = target"
      "lease_of task_id s = Some lease" "lr_owner lease = owner" "lr_token lease = token"
      "s' = delete_lease task_id (release_reservations task_id (utc_now s) s)"
  | (finished) task lease s1 s2 where "get_task project_id task_id s = Some task" "tr_state task \<noteq> target"
      "lease_of task_id s = Some lease" "lr_owner lease = owner" "lr_token lease = token"
      "utc_now s - lease_ttl svc < lr_expires_at lease"
      "map_option gx_state (graph_of task_id s) = required_graph_state target"
      "transition_task project_id task_id (tr_version task) target s = Inr s1"
      "close_attempt task_id attempt_id target (utc_now s) s1 = Inr s2"
      "s' = delete_lease task_id (release_reservations task_id (utc_now s) s2)"
  using assms
  by (auto simp: finish_claim_body_def Let_def bnd_eq_Inr not_le split: option.splits if_splits)

lemma finish_claim_safe:
  assumes "safe svc s"
  shows "safe svc (snd (finish_claim svc' task_id project_id owner token attempt_id target s))"
proof (cases "target \<in> TERMINAL_TASK_STATES")
  case True
  note out = terminal_not_flying[OF True]
  have "safe svc s'"
    if "finish_claim_body svc' task_id project_id owner token attempt_id target s = Inr (u, s')" for u s'
    using that
  proof (cases rule: finish_claim_cases)
    case (replayed task)
    then show ?thesis using assms by simp
  next
    case (cleaned task lease)
    note row = get_task_Some[OF cleaned(1)]
    show ?thesis
      by (rule clean_safe[OF assms row(1)]) (use cleaned out row(2) in simp_all)
  next
    case (finished task lease s1 s2)
    note frame = close_attempt_frame[OF finished(9)]
    show ?thesis
      by (rule settle_after_safe[OF assms finished(8) out])
        (use frame active_frame[OF frame(3)] in \<open>simp_all add: finished(10)\<close>)
  qed
  then have "safe svc (snd (commit (finish_claim_body svc' task_id project_id owner token attempt_id target) s))"
    by (rule commit_safe[OF assms])
  then show ?thesis using True by (simp add: finish_claim_def TERMINAL_TASK_STATES_def assms)
qed (use assms in \<open>simp add: finish_claim_def TERMINAL_TASK_STATES_def\<close>)

lemma reclaim_one_cases:
  assumes "reclaim_one now task_id (n, s) = Inr acc'"
  obtains (same) "acc' = (n, s)"
  | (requeued) task lease s1 where "task_row task_id s = Some task" "tr_id task = task_id"
      "tr_state task = TaskStatus.LEASED" "lease_of task_id s = Some lease" "lr_expires_at lease \<le> now"
      "transition_task (tr_project_id task) task_id (tr_version task) TaskStatus.READY s = Inr s1"
      "acc' = (n + 1, delete_lease task_id (release_reservations task_id now s1))"
  | (cleaned) task lease where "task_row task_id s = Some task" "tr_id task = task_id"
      "\<not> in_flight (tr_state task)" "lease_of task_id s = Some lease" "lr_expires_at lease \<le> now"
      "acc' = (n + 1, delete_lease task_id (release_reservations task_id now s))"
proof -
  have id: "tr_id r = task_id" if "task_row task_id s = Some r" for r
    using that row_get_Some(2) unfolding task_row_def by metis
  show thesis
    using assms that id
    by (auto simp: reclaim_one_def bnd_eq_Inr in_flight_def not_less split: option.splits if_splits)
qed

lemma reclaim_one_safe:
  assumes "safe svc (snd acc)" "reclaim_one now task_id acc = Inr acc'"
  shows "safe svc (snd acc')"
proof -
  obtain n s where acc: "acc = (n, s)" by fastforce
  have s: "safe svc s" using assms(1) by (simp add: acc)
  from assms(2)[unfolded acc] show ?thesis
  proof (cases rule: reclaim_one_cases)
    case same
    then show ?thesis using s by simp
  next
    case (requeued task lease s1)
    show ?thesis
      by (rule settle_after_safe[OF s requeued(6)]) (simp_all add: requeued(7) in_flight_def)
  next
    case (cleaned task lease)
    have row: "task \<in> set (tasks s)" by (rule row_get_Some(1)[OF cleaned(1)[unfolded task_row_def]])
    show ?thesis by (rule clean_safe[OF s row cleaned(3)]) (simp_all add: cleaned(2,6))
  qed
qed

lemma reclaim_expired_safe:
  assumes "safe svc s"
  shows "safe svc (snd (reclaim_expired now limit s))"
  unfolding reclaim_expired_def
proof (rule commit_safe[OF assms])
  fix a s'
  assume "for_each (expired_candidates (at_time now s) limit s) (reclaim_one (at_time now s)) (0, s) = Inr (a, s')"
  then have "safe svc (snd (a, s'))"
    by (rule for_each_inv[where P = "\<lambda>acc. safe svc (snd acc)"]) (use assms in \<open>simp_all add: reclaim_one_safe\<close>)
  then show "safe svc s'" by simp
qed

lemma cancel_task_safe:
  assumes "safe svc s"
  shows "safe svc (snd (cancel_task project_id task_id noop_notify s))"
  using commit_safe[where body = "cancel_task_body project_id task_id", OF assms cancel_task_body_safe[OF assms]]
  by (auto simp: cancel_task_def noop_notify_def split: prod.splits sum.splits)

lemma cancel_each_safe: "safe svc s \<Longrightarrow> safe svc (snd (cancel_each ts s))"
proof (induction ts arbitrary: s)
  case (Cons t ts)
  then show ?case
    using cancel_task_safe[OF Cons.prems, of "tr_project_id t" "tr_id t"]
    by (auto split: prod.splits sum.splits)
qed simp

lemma cancel_run_row_safe:
  assumes "safe svc s" "cancel_run_row run_id s = Inr (b, s')"
  shows "safe svc s'"
proof -
  have "tasks s' = tasks s \<and> leases s' = leases s \<and> reservations s' = reservations s"
    using assms(2)
    by (auto simp: cancel_run_row_def bnd_eq_Inr Let_def record_state_duration_def
        split: option.splits if_splits dest!: emit_core)
  then show ?thesis using safe_cong active_frame assms(1) by metis
qed

lemma cancel_runs_safe: "safe svc s \<Longrightarrow> safe svc (snd (cancel_runs rs n s))"
proof (induction rs arbitrary: s n)
  case (Cons r rs)
  obtain x s1 where each: "cancel_each (live_tasks_of (rn_id r) s) s = (x, s1)" by fastforce
  have s1: "safe svc s1" using cancel_each_safe[OF Cons.prems] each by (metis snd_conv)
  obtain y s2 where row: "commit (cancel_run_row (rn_id r)) s1 = (y, s2)" by fastforce
  have "safe svc s2" 
    using commit_safe[where body = "cancel_run_row (rn_id r)", OF s1 cancel_run_row_safe[OF s1]] by (simp add: row)
  then show ?case using s1 Cons.IH by (auto simp: each row split: sum.splits)
qed simp

lemma observe_safe:
  assumes "safe svc s"
  shows "safe svc (snd (record_observed_usage project_id task_type obs s))"
  unfolding record_observed_usage_def
proof (rule commit_safe[OF assms])
  fix a s' assume "observe_rounds 2 project_id task_type obs s = Inr (a, s')"
  then have "tasks s' = tasks s \<and> leases s' = leases s \<and> reservations s' = reservations s"
    by (auto simp: numeral_2_eq_2 split: option.splits sum.splits)
  then show "safe svc s'" using safe_cong active_frame assms by metis
qed

text \<open>Promotion and cascading: the rows still to be moved are as they were read.\<close>

definition awaiting :: "TaskStatus \<Rightarrow> TaskRow list \<Rightarrow> db \<Rightarrow> bool" where
  "awaiting st rows s \<longleftrightarrow> distinct (map tr_id rows) \<and> set rows \<subseteq> {r \<in> set (tasks s). tr_state r = st}"

lemma awaiting_step:
  assumes "awaiting st (x # rows) s" "tasks s' = row_update (\<lambda>r. tr_id r = tr_id x) f (tasks s)"
  shows "awaiting st rows s'"
proof -
  have "r \<in> set (tasks s')" if r: "r \<in> set rows" for r
  proof (rule task_after_update[OF _ _ assms(2)])
    have "tr_id x \<notin> tr_id ` set rows" using assms(1) by (simp add: awaiting_def)
    then show "tr_id r \<noteq> tr_id x" using r by (metis image_eqI)
    show "r \<in> set (tasks s)" using assms(1) r by (auto simp: awaiting_def)
  qed
  then show ?thesis using assms(1) by (auto simp: awaiting_def)
qed

lemma awaiting_selected:
  assumes "keyed tr_id (tasks s)"
  shows "awaiting st (take n (sort_key k (filter (\<lambda>r. tr_state r = st \<and> q r) (tasks s)))) s"
    (is "awaiting st (take n ?sorted) s")
proof -
  have "distinct (map tr_id (filter (\<lambda>r. tr_state r = st \<and> q r) (tasks s)))"
    using assms by (simp add: keyed_def distinct_map_filter)
  then have "distinct (map tr_id ?sorted)"
    by (simp add: distinct_map inj_on_def)
  then have "distinct (map tr_id (take n ?sorted))" by (simp add: take_map [symmetric])
  then show ?thesis by (auto simp: awaiting_def dest: in_set_takeD)
qed

lemma awaiting_filter: "awaiting st rows s \<Longrightarrow> awaiting st (filter q rows) s"
  by (auto simp: awaiting_def distinct_map_filter)

lemma safe_keyed: "safe svc s \<Longrightarrow> keyed tr_id (tasks s)"
  by (simp add: safe_def sched_inv_def)

lemma move_all_safe:
  assumes "safe svc s" "awaiting st rows s" "in_flight st = in_flight target" "move_all target rows s = Inr s'"
  shows "safe svc s'"
proof -
  have "safe svc s' \<and> awaiting st [] s'"
    using assms(4)[unfolded move_all_def]
  proof (rule for_each_rest[where P = "\<lambda>rows s. safe svc s \<and> awaiting st rows s"])
    show "safe svc s \<and> awaiting st rows s" using assms(1,2) by simp
    fix x xs s t
    assume pre: "safe svc s \<and> awaiting st (x # xs) s"
      and run: "transition_task (tr_project_id x) (tr_id x) (tr_version x) target s = Inr t"
    note frame = transition_task_frame[OF run]
    have x: "x \<in> set (tasks s)" "tr_state x = st" using pre by (auto simp: awaiting_def)
    have "safe svc t"
      by (rule move_safe[OF _ x(1) _ _ frame(2) active_frame[OF frame(3)]])
        (use pre x assms(3) frame(1) in simp_all)
    then show "safe svc t \<and> awaiting st xs t" using awaiting_step[OF conjunct2[OF pre] frame(1)] by simp
  qed
  then show ?thesis by simp
qed

lemma promote_rounds_safe: "safe svc s \<Longrightarrow> safe svc (snd (promote_rounds n limit k s))"
proof (induction n arbitrary: k s)
  case (Suc n)
  obtain r s1 where round: "commit (promote_round limit) s = (r, s1)" by fastforce
  have await: "awaiting TaskStatus.PENDING (promotable limit s) s"
    unfolding promotable_def by (rule awaiting_selected[OF safe_keyed[OF Suc.prems]])
  have "safe svc (snd (commit (promote_round limit) s))"
  proof (rule commit_safe[OF Suc.prems])
    fix a s' assume "promote_round limit s = Inr (a, s')"
    then have "move_all TaskStatus.READY (promotable limit s) s = Inr s'"
      by (auto simp: promote_round_def Let_def bnd_eq_Inr)
    then show "safe svc s'"
      by (rule move_all_safe[OF Suc.prems await, rotated]) (simp add: in_flight_def)
  qed
  then have "safe svc s1" by (simp add: round)
  then show ?case using Suc.IH by (auto simp: round split: sum.splits)
qed simp

lemma cancel_rounds_safe: "safe svc s \<Longrightarrow> safe svc (snd (cancel_rounds n limit k s))"
proof (induction n arbitrary: k s)
  case (Suc n)
  obtain r s1 where round: "commit (cancel_round limit) s = (r, s1)" by fastforce
  have "awaiting TaskStatus.PENDING (pending_window limit s) s"
    using awaiting_selected[OF safe_keyed[OF Suc.prems], of _ _ _ "\<lambda>_. True"] by (simp add: pending_window_def)
  then have await: "awaiting TaskStatus.PENDING (blocked_of limit s) s"
    by (simp add: blocked_of_def Let_def awaiting_filter)
  have "safe svc (snd (commit (cancel_round limit) s))"
  proof (rule commit_safe[OF Suc.prems])
    fix a s' assume "cancel_round limit s = Inr (a, s')"
    then have "move_all TaskStatus.CANCELLED (blocked_of limit s) s = Inr s'"
      by (auto simp: cancel_round_def Let_def bnd_eq_Inr)
    then show "safe svc s'"
      by (rule move_all_safe[OF Suc.prems await, rotated]) (simp add: in_flight_def)
  qed
  then have "safe svc s1" by (simp add: round)
  then show ?case using Suc.IH by (auto simp: round split: sum.splits)
qed simp

text \<open>Claiming.\<close>

lemma reserve_cases:
  assumes "reserve_with_global_cap task_id project_id resource units cap s = Inr (ok, s')"
  obtains (refused) "\<not> ok" "s' = s"
  | (reserved) r where "ok" "rs_task_id r = task_id" "rs_project_id r = project_id" "rs_resource r = resource"
      "rs_units r = units" "0 < units" "rs_released_at r = None" "s' = s\<lparr>reservations := reservations s @ [r]\<rparr>"
      "active_units (\<lambda>r. rs_resource r = resource) s + units \<le> cap"
proof (cases "active_units (\<lambda>r. rs_resource r = resource) s + units \<le> cap")
  case True
  let ?r = "\<lparr>rs_task_id = task_id, rs_project_id = project_id, rs_resource = resource, rs_units = units,
            rs_created_at = utc_now s, rs_released_at = None\<rparr>"
  show thesis
    by (rule reserved[of ?r]) (use assms True in \<open>auto simp: reserve_with_global_cap_def bnd_eq_Inr\<close>)
next
  case False
  then show thesis using assms refused by (simp add: reserve_with_global_cap_def)
qed

lemma reserve_if_cases:
  assumes "reserve_if slots task_id project_id resource cap s = Inr (ok, s')"
  obtains (refused) "\<not> ok" "s' = s"
  | (reserved) new where "ok" "s' = s\<lparr>reservations := reservations s @ new\<rparr>"
      "\<forall>r \<in> set new. rs_task_id r = task_id \<and> rs_project_id r = project_id \<and> rs_resource r = resource \<and>
         1 \<le> rs_units r \<and> rs_released_at r = None"
      "new = [] \<or> active_units (\<lambda>r. rs_resource r = resource) s + sum_list (map rs_units new) \<le> cap"
proof (cases "slots = 0")
  case True
  then show thesis using assms reserved[of "[]"] by (simp add: reserve_if_def)
next
  case False
  then have "reserve_with_global_cap task_id project_id resource slots cap s = Inr (ok, s')"
    using assms by (simp add: reserve_if_def)
  then show thesis
  proof (cases rule: reserve_cases)
    case (reserved r)
    then show thesis by (intro that(2)[of "[r]"]) simp_all
  qed (rule that(1))
qed

lemma active_append:
  "\<forall>r \<in> set new. rs_released_at r = None \<Longrightarrow> active (s\<lparr>reservations := reservations s @ new\<rparr>) = active s @ new"
  by (simp add: active_def)

lemma claim_one_cases:
  assumes "claim_one svc owner now task (claims, s) = Inr (claims', s')"
  obtains (skipped) new where "claims' = claims" "tasks s' = tasks s" "leases s' = leases s"
      "task_attempts s' = task_attempts s"
      "\<forall>r \<in> set new. rs_task_id r = tr_id task"
      "active s' = active s \<or> active s' = filter (\<lambda>r. rs_task_id r \<noteq> tr_id task) (active s @ new)"
  | (admitted) request r0 nm ns token s3 where "resource_request task = Inr request"
      "AdmissionDecision.admitted (evaluate_admission (policy svc) (admission_snapshot (tr_project_id task) s) request)"
      "rs_resource r0 = ''task''" "rs_units r0 = 1" "rs_task_id r0 = tr_id task" "rs_project_id r0 = tr_project_id task"
      "\<forall>r \<in> set nm. rs_task_id r = tr_id task \<and> rs_project_id r = tr_project_id task \<and>
         rs_resource r = ''model'' \<and> 1 \<le> rs_units r"
      "\<forall>r \<in> set ns. rs_task_id r = tr_id task \<and> rs_project_id r = tr_project_id task \<and>
         rs_resource r = ''sandbox'' \<and> 1 \<le> rs_units r"
      "nm = [] \<or> active_units (\<lambda>r. rs_resource r = ''model'') s + sum_list (map rs_units nm) \<le> max_model_concurrency (policy svc)"
      "ns = [] \<or> active_units (\<lambda>r. rs_resource r = ''sandbox'') s + sum_list (map rs_units ns) \<le> max_sandbox_concurrency (policy svc)"
      "task_attempts s3 = task_attempts s" "tasks s3 = tasks s" "leases s3 = leases s" "active s3 = active s @ r0 # nm @ ns"
      "admit_leased svc owner token now task (claims, s3) = Inr (claims', s')"
proof -
  obtain request where req: "resource_request task = Inr request"
    using assms by (auto simp: claim_one_def bnd_eq_Inr)
  show thesis
  proof (cases "AdmissionDecision.admitted (evaluate_admission (policy svc) (admission_snapshot (tr_project_id task) s) request)")
    case False
    then show thesis using assms req by (intro skipped[of "[]"]) (simp_all add: claim_one_def)
  next
    case adm: True
    let ?s0 = "s\<lparr>db_drawn := Suc (db_drawn s)\<rparr>"
    let ?token = "db_entropy s (db_drawn s)"
    note run = assms[unfolded claim_one_def, simplified, unfolded req, simplified, simplified adm uuid4_def, simplified]
    obtain ok1 s1 where r1: "reserve_with_global_cap (tr_id task) (tr_project_id task) ''task'' 1
        (max_parallel_tasks (policy svc)) ?s0 = Inr (ok1, s1)"
      using run by (auto simp: bnd_eq_Inr)
    from r1 show thesis
    proof (cases rule: reserve_cases)
      case refused
      then have "claims' = claims" "s' = ?s0" using run r1 by auto
      then show thesis by (intro skipped[of "[]"]) (simp_all add: active_def)
    next
      case (reserved r0)
      note t = this
      have active1: "active s1 = active s @ [r0]" using t(7,8) by (simp add: active_def)
      obtain ok2 s2 where r2: "reserve_if (model_slots request) (tr_id task) (tr_project_id task) ''model''
          (max_model_concurrency (policy svc)) s1 = Inr (ok2, s2)"
        using run r1 t(1) by (auto simp: bnd_eq_Inr)
      from r2 show thesis
      proof (cases rule: reserve_if_cases)
        case refused
        then have "claims' = claims" "s' = release_reservations (tr_id task) now s1" using run r1 r2 t(1) by auto
        then show thesis using t(2,8) active1 by (intro skipped[of "[r0]"]) simp_all
      next
        case (reserved nm)
        note m = this
        have active2: "active s2 = active s @ r0 # nm"
          using active_append[of nm s1] m active1 by simp
        have units2: "active_units (\<lambda>r. rs_resource r = ''model'') s1 = active_units (\<lambda>r. rs_resource r = ''model'') s"
          using t(4) by (simp add: active_units_active active1)
        obtain ok3 s3 where r3: "reserve_if (sandbox_slots request) (tr_id task) (tr_project_id task) ''sandbox''
            (max_sandbox_concurrency (policy svc)) s2 = Inr (ok3, s3)"
          using run r1 t(1) r2 m(1) by (auto simp: bnd_eq_Inr)
        from r3 show thesis
        proof (cases rule: reserve_if_cases)
          case refused
          then have "claims' = claims" "s' = release_reservations (tr_id task) now s2"
            using run r1 r2 r3 t(1) m(1) by auto
          then show thesis using t(2,8) m(2,3) active2 by (intro skipped[of "r0 # nm"]) simp_all
        next
          case (reserved ns)
          note n = this
          have "sum_where (\<lambda>r. rs_resource r = ''sandbox'') rs_units nm = 0"
            using m(3) by (simp add: sum_where_def filter_empty_conv)
          then have units3: "active_units (\<lambda>r. rs_resource r = ''sandbox'') s2 =
              active_units (\<lambda>r. rs_resource r = ''sandbox'') s"
            using t(4) by (simp add: active_units_active active2)
          have active3: "active s3 = active s @ r0 # nm @ ns"
            using active_append[of ns s2] n active2 by simp
          have out: "admit_leased svc owner ?token now task (claims, s3) = Inr (claims', s')"
            using run r1 r2 r3 t(1) m(1) n(1) by simp
          show thesis
            by (rule admitted[OF req adm t(4,5,2,3) _ _ _ _ _ _ _ active3 out])
              (use t(8) m n units2 units3 in simp_all)
        qed
      qed
    qed
  qed
qed

lemma admit_leased_cases:
  assumes "admit_leased svc owner token now task (claims, s) = Inr (claims', s')"
  obtains s1 l where "transition_task (tr_project_id task) (tr_id task) (tr_version task) TaskStatus.LEASED s = Inr s1"
    "leases s' = leases s @ [l]" "lr_task_id l = tr_id task" "lr_owner l = owner" "lr_token l = token"
    "lr_expires_at l = now + lease_ttl svc" "tasks s' = tasks s1" "active s' = active s"
    "claims' = claims @ [\<lparr>cl_task_id = tr_id task, cl_project_id = tr_project_id task, cl_owner = owner,
       cl_token = token, cl_expires_at = now + lease_ttl svc\<rparr>]"
proof -
  obtain s1 where s1: "transition_task (tr_project_id task) (tr_id task) (tr_version task) TaskStatus.LEASED s = Inr s1"
    "create_lease (tr_id task) owner token (now + lease_ttl svc) s1 = Inr s'"
    "claims' = claims @ [\<lparr>cl_task_id = tr_id task, cl_project_id = tr_project_id task, cl_owner = owner,
       cl_token = token, cl_expires_at = now + lease_ttl svc\<rparr>]"
    using assms by (auto simp: admit_leased_def Let_def bnd_eq_Inr)
  note frame = transition_task_frame(2,3)[OF s1(1)]
  show thesis
    by (rule that[OF s1(1), of "\<lparr>lr_task_id = tr_id task, lr_owner = owner, lr_token = token,
        lr_expires_at = now + lease_ttl svc, lr_heartbeat_at = utc_now s1, lr_created_at = utc_now s1\<rparr>"])
      (use s1(2,3) frame in \<open>auto simp: create_lease_def bnd_eq_Inr row_simps active_def\<close>)
qed

lemma admitted_bounds:
  assumes "admitted (evaluate_admission p snapshot request)"
  shows "active_tasks snapshot + task_slots request \<le> max_parallel_tasks p"
    "active_project_tasks snapshot + task_slots request \<le> max_parallel_tasks_per_project p"
    "active_model_slots snapshot + model_slots request \<le> max_model_concurrency p"
    "active_sandbox_slots snapshot + sandbox_slots request \<le> max_sandbox_concurrency p"
  using assms by (auto simp: evaluate_admission_def split: if_splits)

lemma sum_where_all: "(\<And>r. r \<in> set rows \<Longrightarrow> p r) \<Longrightarrow> sum_where p w rows = sum_list (map w rows)"
  by (simp add: sum_where_def)

lemma sum_where_no: "(\<And>r. r \<in> set rows \<Longrightarrow> \<not> p r) \<Longrightarrow> sum_where p w rows = 0"
  by (simp add: sum_where_def filter_False)

lemma claim_one_safe:
  assumes "safe svc s" "task \<in> set (tasks s)" "tr_state task = TaskStatus.READY"
    and "claim_one svc owner now task (claims, s) = Inr (claims', s')"
  shows "safe svc s' \<and> (\<exists>f. tasks s' = row_update (\<lambda>r. tr_id r = tr_id task) f (tasks s))"
  using assms(4)
proof (cases rule: claim_one_cases)
  case (skipped new)
  have inv: "sched_inv s" using assms(1) by (simp add: safe_def)
  have "tr_id task \<notin> flying s"
    by (rule not_flying[OF safe_keyed[OF assms(1)] assms(2)]) (simp add: assms(3) in_flight_def)
  then have "filter (\<lambda>r. rs_task_id r \<noteq> tr_id task) (active s) = active s"
    by (intro filter_True) (use active_flying[OF inv] in metis)
  then have "active s' = active s" using skipped(5,6) by (auto simp: filter_False)
  then have "safe svc s'" using safe_cong[OF skipped(2,3)] assms(1) by blast
  moreover have "tasks s' = row_update (\<lambda>r. tr_id r = tr_id task) (\<lambda>r. r) (tasks s)"
    by (simp add: skipped(2) row_update_def)
  ultimately show ?thesis by blast
next
  case (admitted request r0 nm ns token s3)
  from admitted(15) show ?thesis
  proof (cases rule: admit_leased_cases)
    case (1 s1 l)
    have tasks': "tasks s' = row_update (\<lambda>r. tr_id r = tr_id task) (enter_state TaskStatus.LEASED (db_clock s3)) (tasks s)"
      using transition_task_frame(1)[OF 1(1)] admitted(12) 1(7) by simp
    have active': "active s' = active s @ r0 # nm @ ns" using 1(8) admitted(14) by simp
    have inv: "sched_inv s" and cap: "cap_inv svc s" using assms(1) by (simp_all add: safe_def)
    have slot: "filter (\<lambda>r. rs_resource r = ''task'') (r0 # nm @ ns) = [r0]"
      using admitted(3,7,8) by (auto simp: filter_empty_conv)
    have "sched_inv s'"
      by (rule admit_sched_inv[OF inv assms(2) _ tasks' _ _ 1(3) active' _ slot admitted(4)])
        (use assms(3) 1(2) admitted(4-8,13) in \<open>auto simp: in_flight_def\<close>)
    moreover have "cap_inv svc s'"
    proof -
      have slots: "task_slots request = 1" using admitted(1) by (auto simp: resource_request_def Let_def bnd_eq_Inr)
      note fit = admitted_bounds[OF admitted(2), unfolded slots admission_snapshot_def, simplified]
      have m: "sum_where (\<lambda>r. rs_resource r = ''model'') rs_units nm = sum_list (map rs_units nm)"
        "sum_where (\<lambda>r. rs_resource r = ''model'') rs_units ns = 0"
        "sum_where (\<lambda>r. rs_resource r = ''sandbox'') rs_units nm = 0"
        "sum_where (\<lambda>r. rs_resource r = ''sandbox'') rs_units ns = sum_list (map rs_units ns)"
        "sum_where (\<lambda>r. rs_resource r = ''task'') rs_units nm = 0"
        "sum_where (\<lambda>r. rs_resource r = ''task'') rs_units ns = 0"
        "sum_where (\<lambda>r. rs_resource r = ''task'' \<and> rs_project_id r = p) rs_units nm = 0"
        "sum_where (\<lambda>r. rs_resource r = ''task'' \<and> rs_project_id r = p) rs_units ns = 0" for p
        using admitted(7,8) by (auto intro!: sum_where_all sum_where_no)
      show ?thesis
        using cap fit admitted(3,4,6,9,10)
        by (auto simp: cap_inv_def active_units_active active' m)
    qed
    ultimately show ?thesis using tasks' by (auto simp: safe_def)
  qed
qed

lemma by_project_awaiting:
  assumes "awaiting st rows s"
  shows "awaiting st (by_project rows) s"
proof -
  have "distinct (concat (map (\<lambda>p. filter (\<lambda>t. tr_project_id t = p) rows) ps))"
    if "distinct ps" "distinct rows" for ps
    using that by (induction ps) auto
  moreover have "distinct rows" and inj: "inj_on tr_id (set rows)"
    using assms by (auto simp: awaiting_def distinct_map)
  ultimately have "distinct (by_project rows)" by (simp add: by_project_def)
  moreover have sub: "set (by_project rows) \<subseteq> set rows" by (auto simp: by_project_def)
  ultimately have "distinct (map tr_id (by_project rows))"
    by (simp add: distinct_map inj_on_subset[OF inj])
  then show ?thesis using sub assms by (auto simp: awaiting_def)
qed

lemma claim_ready_safe:
  assumes "safe svc s"
  shows "safe svc (snd (claim_ready svc owner limit now s))"
proof -
  have await: "awaiting TaskStatus.READY (by_project (ready_candidates limit s)) s"
    using awaiting_selected[OF safe_keyed[OF assms], of TaskStatus.READY "nat limit" task_order "\<lambda>_. True"]
    by (simp add: ready_candidates_def by_project_awaiting)
  have "safe svc s'"
    if run: "for_each (by_project (ready_candidates limit s)) (claim_one svc owner (at_time now s)) ([], s) = Inr (a, s')"
    for a s'
  proof -
    have "safe svc (snd (a, s')) \<and> awaiting TaskStatus.READY [] (snd (a, s'))"
      using run
    proof (rule for_each_rest[where P = "\<lambda>rows acc. safe svc (snd acc) \<and> awaiting TaskStatus.READY rows (snd acc)"])
      show "safe svc (snd ([], s)) \<and> awaiting TaskStatus.READY (by_project (ready_candidates limit s)) (snd ([], s))"
        using assms await by simp
      fix x xs acc acc'
      assume pre: "safe svc (snd acc) \<and> awaiting TaskStatus.READY (x # xs) (snd acc)"
        and one: "claim_one svc owner (at_time now s) x acc = Inr acc'"
      have "safe svc (snd acc') \<and>
          (\<exists>f. tasks (snd acc') = row_update (\<lambda>r. tr_id r = tr_id x) f (tasks (snd acc)))"
        by (rule claim_one_safe[where claims = "fst acc" and claims' = "fst acc'"])
          (use pre one in \<open>auto simp: awaiting_def\<close>)
      then show "safe svc (snd acc') \<and> awaiting TaskStatus.READY xs (snd acc')"
        using awaiting_step[OF conjunct2[OF pre]] by blast
    qed
    then show ?thesis by simp
  qed
  then have "safe svc (snd (commit (\<lambda>s. for_each (by_project (ready_candidates limit s))
      (claim_one svc owner (at_time now s)) ([], s)) s))"
    by (rule commit_safe[OF assms])
  then show ?thesis by (simp add: claim_ready_def assms)
qed

text \<open>The reconciler.\<close>

lemma row_update_twice:
  "(\<And>r. p r \<Longrightarrow> g (f r) = f r) \<Longrightarrow> (\<And>r. p r \<Longrightarrow> p (f r)) \<Longrightarrow>
   row_update p g (row_update p f rows) = row_update p f rows"
  by (induction rows) auto

lemma set_task_state_transition:
  assumes "set_task_state task target s = Inr s'"
  obtains s1 where "transition_task (tr_project_id task) (tr_id task) (tr_version task) target s = Inr s1"
    "tasks s' = tasks s1" "leases s' = leases s1" "reservations s' = reservations s1"
    "graph_executions s' = graph_executions s" "runs s' = runs s"
proof -
  obtain s1 where s1: "transition_task (tr_project_id task) (tr_id task) (tr_version task) target s = Inr s1"
    and s': "s' = set_task_row (tr_id task) (\<lambda>r. r\<lparr>tr_state_entered_at := utc_now s\<rparr>) s1"
    using assms by (auto simp: set_task_state_def bnd_eq_Inr)
  have "tasks s' = tasks s1"
    unfolding s' set_task_row_def transition_task_frame(1)[OF s1]
    by (simp add: transition_task_frame(1)[OF s1] row_update_twice enter_state_def utc_now_def)
  then show thesis
    using that[OF s1] s' transition_task_frame[OF s1] by (simp add: set_task_row_def)
qed

lemma set_graph_state_frame [simp]:
  "tasks (set_graph_state t st now s) = tasks s" "leases (set_graph_state t st now s) = leases s"
  "active (set_graph_state t st now s) = active s" "reservations (set_graph_state t st now s) = reservations s"
  by (simp_all add: set_graph_state_def set_graph_row_def active_def)

lemma settled_safe:
  assumes "safe svc s" "set_task_state task target s = Inr s1" "\<not> in_flight target"
    and "tasks s' = tasks s1" "leases s' = row_delete (\<lambda>l. lr_task_id l = tr_id task) (leases s1)"
    and "active s' = filter (\<lambda>r. rs_task_id r \<noteq> tr_id task) (active s1)"
  shows "safe svc s'"
  using assms(2)
proof (rule set_task_state_transition)
  fix s2
  assume s2: "transition_task (tr_project_id task) (tr_id task) (tr_version task) target s = Inr s2"
    "tasks s1 = tasks s2" "leases s1 = leases s2" "reservations s1 = reservations s2"
  show ?thesis
    by (rule settle_after_safe[OF assms(1) s2(1) assms(3)])
      (use assms(4-6) s2(2,3) active_frame[OF s2(4)] in simp_all)
qed

lemma release_lease_frame [simp]:
  "tasks (release_lease t now s) = tasks s"
  "leases (release_lease t now s) = row_delete (\<lambda>l. lr_task_id l = t) (leases s)"
  "active (release_lease t now s) = filter (\<lambda>r. rs_task_id r \<noteq> t) (active s)"
  by (simp_all add: release_lease_def)

lemma decide_terminal_only:
  "decide task run graph lease now = DOMAIN_TERMINAL_WINS \<Longrightarrow> tr_state task \<in> TERMINAL_TASK_STATES"
  by (auto simp: decide_def decide_running_def Let_def split: if_splits option.splits)

lemma apply_action_safe:
  assumes "safe svc s" "task \<in> set (tasks s)" "apply_action action task now s = Inr s'"
    and "action \<noteq> NOOP" "action = DOMAIN_TERMINAL_WINS \<Longrightarrow> tr_state task \<in> TERMINAL_TASK_STATES"
  shows "safe svc s'"
proof -
  have settled: "safe svc s'"
    if "set_task_state task target s = Inr s1" "\<not> in_flight target"
      "s' = release_lease (tr_id task) now s1 \<or> s' = release_lease (tr_id task) now (set_graph_state (tr_id task) st now s1)"
    for target s1 st
    using that by (intro settled_safe[OF assms(1) that(1,2)]) auto
  have cleaned: "safe svc s'"
    if "tr_state task \<in> TERMINAL_TASK_STATES" "s' = release_lease (tr_id task) now (set_graph_state (tr_id task) st now s)"
    for st
    by (rule clean_safe[OF assms(1,2) terminal_not_flying[OF that(1)]]) (simp_all add: that(2))
  have out: "\<not> in_flight (quarantine_target st)" for st by (simp add: quarantine_target_def in_flight_def)
  show ?thesis
    using assms(3-5) settled cleaned out
    by (cases action) (auto simp: apply_action_def bnd_eq_Inr in_flight_def split: if_splits)
qed

lemma reconcile_cases:
  assumes "reconcile_body project_id task_id now s = Inr (action, s')"
  obtains (quiet) "action = NOOP" "s' = s"
  | (repaired) task s1 where "get_task project_id task_id s = Some task" "action \<noteq> NOOP"
      "action = decide task (row_get rn_id (tr_run_id task) (runs s)) (graph_of task_id s) (lease_of task_id s) now"
      "apply_action action task now s = Inr s1" "tasks s' = tasks s1" "leases s' = leases s1"
      "reservations s' = reservations s1" "graph_executions s' = graph_executions s1" "runs s' = runs s1"
  using assms
  by (auto simp: reconcile_body_def decision_def bnd_eq_Inr split: option.splits if_splits elim!: emit_cases)

lemma reconcile_safe:
  assumes "safe svc s"
  shows "safe svc (snd (reconcile project_id task_id now s))"
  unfolding reconcile_def
proof (rule commit_safe[OF assms])
  fix a s' assume "reconcile_body project_id task_id (at_time now s) s = Inr (a, s')"
  then show "safe svc s'"
  proof (cases rule: reconcile_cases)
    case quiet
    then show ?thesis using assms by simp
  next
    case (repaired task s1)
    have "safe svc s1"
      by (rule apply_action_safe[OF assms get_task_Some(1)[OF repaired(1)] repaired(4,2)])
        (use repaired(3) decide_terminal_only in metis)
    then show ?thesis using safe_cong[OF repaired(5,6) active_frame[OF repaired(7)]] by simp
  qed
qed

lemma reconcile_each_safe: "safe svc s \<Longrightarrow> safe svc (snd (reconcile_each rows now acc s))"
proof (induction rows now acc s rule: reconcile_each.induct)
  case (2 project_id task_id rows now results s)
  obtain r s1 where one: "reconcile project_id task_id (Some now) s = (r, s1)" by fastforce
  have "safe svc s1" using reconcile_safe[OF 2(3), of project_id task_id "Some now"] by (simp add: one)
  then show ?case using 2(1,2)[OF one[symmetric]] by (auto simp: one split: sum.splits)
qed simp

lemma rollover_core:
  "rollover row task_id run_id thread target s = Inr s1 \<Longrightarrow>
   tasks s1 = tasks s \<and> leases s1 = leases s \<and> reservations s1 = reservations s"
  by (auto simp: rollover_def bnd_eq_Inr set_graph_row_def dest!: emit_core)

lemma record_graph_core:
  "record_graph_execution task_id run_id repo base thread target cp s = Inr (row, s1) \<Longrightarrow>
   tasks s1 = tasks s \<and> leases s1 = leases s \<and> reservations s1 = reservations s"
  by (auto simp: record_graph_execution_def uuid4_def Let_def bnd_eq_Inr)

lemma transition_graph_core:
  "transition_graph_execution task_id run_id repo base thread target cp s = Inr s' \<Longrightarrow>
   tasks s' = tasks s \<and> leases s' = leases s \<and> reservations s' = reservations s"
  by (auto simp: transition_graph_execution_def graph_changed_def bnd_eq_Inr Let_def set_graph_row_def
      record_state_duration_def split: option.splits if_splits
      dest!: emit_core rollover_core record_graph_core)

lemma apply_resolution_cases:
  assumes "apply_resolution res task graph s = Inr s2"
  obtains s1 where "tasks s1 = tasks s \<and> leases s1 = leases s \<and> reservations s1 = reservations s"
    "set_task_state task TaskStatus.FAILED s1 = Inr s2 \<or> set_task_state task TaskStatus.READY s1 = Inr s2 \<or>
     tr_state task = TaskStatus.FAILED \<and> s2 = s1"
proof -
  obtain st s1 where s1: "settle_graph (tr_id task) graph st s = Inr s1"
    and t: "set_task_state task TaskStatus.FAILED s1 = Inr s2 \<or> set_task_state task TaskStatus.READY s1 = Inr s2 \<or>
     tr_state task = TaskStatus.FAILED \<and> s2 = s1"
    using assms by (cases res) (auto simp: apply_resolution_def bnd_eq_Inr split: if_splits)
  show thesis by (rule that[OF transition_graph_core[OF s1[unfolded settle_graph_def]] t])
qed

lemma resolve_cases:
  assumes "resolve_body project_id task_id res now s = Inr (action, s')"
  obtains task graph s2 where "get_task project_id task_id s = Some task" "graph_of task_id s = Some graph"
    "gx_state graph = NEEDS_RECONCILIATION" "apply_resolution res task graph s = Inr s2"
    "tasks s' = tasks s2" "leases s' = row_delete (\<lambda>l. lr_task_id l = task_id) (leases s2)"
    "active s' = filter (\<lambda>r. rs_task_id r \<noteq> task_id) (active s2)"
proof -
  obtain task graph s2 where a: "get_task project_id task_id s = Some task" "graph_of task_id s = Some graph"
    "gx_state graph = NEEDS_RECONCILIATION" "apply_resolution res task graph s = Inr s2"
    and e: "emit (''reconciliation.resolved.'' @ resolution_value res) ''task'' task_id
       [(''action'', PText (action_value (resolution_action res))), (''resolution'', PText (resolution_value res)),
        (''task_id'', PId task_id), (''domain_state'', task_value task_id (release_lease task_id now s2)),
        (''graph_state'', graph_value task_id (release_lease task_id now s2))]
       (tr_run_id task) ''reconciliation'' (release_lease task_id now s2) = Inr s'"
    using assms by (auto simp: resolve_body_def Let_def bnd_eq_Inr split: option.splits)
  show thesis
    by (rule that[OF a]) (use emit_core[OF e] active_frame[of s' "release_lease task_id now s2"] in simp_all)
qed

lemma resolve_safe:
  assumes "safe svc s"
  shows "safe svc (snd (resolve_needs_reconciliation project_id task_id res now s))"
  unfolding resolve_needs_reconciliation_def
proof (rule commit_safe[OF assms])
  fix a s' assume "resolve_body project_id task_id res (at_time now s) s = Inr (a, s')"
  then show "safe svc s'"
  proof (cases rule: resolve_cases)
    case (1 task graph s2)
    note row = get_task_Some[OF 1(1)] and after = 1(5,6,7)
    from 1(4) show ?thesis
    proof (cases rule: apply_resolution_cases)
      case (1 s1)
      have s1: "safe svc s1" using assms 1(1) safe_cong[of s1 s] active_frame[of s1 s] by simp
      consider target where "set_task_state task target s1 = Inr s2" "\<not> in_flight target"
        | "\<not> in_flight (tr_state task)" "s2 = s1"
        using 1(2) by (auto simp: in_flight_def)
      then show ?thesis
      proof cases
        case (1 target)
        show ?thesis by (rule settled_safe[OF s1 1]) (use after row(2) in simp_all)
      next
        case 2
        show ?thesis by (rule clean_safe[OF s1 _ 2(1)]) (use 1(1) after row 2(2) in simp_all)
      qed
    qed
  qed
qed

subsection \<open>Runs of the two services\<close>

text \<open>
  One step is one call of a service method, with any arguments, or the passing of time, the
  creation of a task, or a graph transition by a worker. Whether the call returns or raises,
  the step leads to the database it leaves behind.
\<close>

datatype call =
    Claim string int "time option"
  | Promote int int
  | Cascade int
  | Heartbeat uuid string uuid "time option"
  | Start uuid uuid string uuid uuid string "time option"
  | Finish uuid uuid string uuid uuid TaskStatus
  | Reclaim "time option" int
  | Cancel_Task uuid uuid
  | Cancel_Runs int
  | Observe uuid TaskType ResourceObservation
  | Reconcile uuid uuid "time option"
  | Reconcile_Due int "time option"
  | Resolve uuid uuid resolution "time option"
  | Create_Task uuid TaskSpec
  | Graph_Transition uuid uuid uuid string string GraphExecutionState "string option"
  | Tick time

definition keep :: "(db \<Rightarrow> db result) \<Rightarrow> db \<Rightarrow> db" where
  "keep body s = snd (commit (\<lambda>s. bnd (body s) (\<lambda>s'. Inr ((), s'))) s)"

fun perform :: "SchedulerService \<Rightarrow> call \<Rightarrow> db \<Rightarrow> db" where
  "perform svc (Claim owner limit now) s = snd (claim_ready svc owner limit now s)"
| "perform svc (Promote limit rounds) s = snd (promote_dependency_ready limit rounds s)"
| "perform svc (Cascade limit) s = snd (cancel_blocked_dependents limit s)"
| "perform svc (Heartbeat t owner token now) s = snd (heartbeat svc t owner token now s)"
| "perform svc (Start t p owner token a h now) s = snd (start_claim svc t p owner token a h now s)"
| "perform svc (Finish t p owner token a target) s = snd (finish_claim svc t p owner token a target s)"
| "perform svc (Reclaim now limit) s = snd (reclaim_expired now limit s)"
| "perform svc (Cancel_Task p t) s = snd (cancel_task p t noop_notify s)"
| "perform svc (Cancel_Runs limit) s = snd (cancel_requested_runs limit s)"
| "perform svc (Observe p ty obs) s = snd (record_observed_usage p ty obs s)"
| "perform svc (Reconcile p t now) s = snd (reconcile p t now s)"
| "perform svc (Reconcile_Due limit now) s = snd (reconcile_due limit now s)"
| "perform svc (Resolve p t res now) s = snd (resolve_needs_reconciliation p t res now s)"
| "perform svc (Create_Task run spec) s = keep (create_task run spec) s"
| "perform svc (Graph_Transition t run repo base thread target cp) s =
     keep (transition_graph_execution t run repo base thread target cp) s"
| "perform svc (Tick t) s = s\<lparr>db_clock := db_clock s + abs t\<rparr>"

inductive sched_step :: "SchedulerService \<Rightarrow> db \<Rightarrow> db \<Rightarrow> bool" for svc where
  call: "sched_step svc s (perform svc c s)"

lemma keep_safe: "safe svc s \<Longrightarrow> (\<And>s'. body s = Inr s' \<Longrightarrow> safe svc s') \<Longrightarrow> safe svc (keep body s)"
  unfolding keep_def by (rule commit_safe) (auto simp: bnd_eq_Inr)

lemma create_task_safe:
  assumes "safe svc s" "create_task run_id spec s = Inr s'"
  shows "safe svc s'"
proof -
  obtain t where t: "tasks s' = tasks s @ [t]" "tr_id t \<notin> tr_id ` set (tasks s)" "tr_state t = TaskStatus.PENDING"
    and rest: "leases s' = leases s" "reservations s' = reservations s"
    using assms(2) by (auto simp: create_task_def bnd_eq_Inr row_simps)
  have fly: "flying s' = flying s" using t(3) by (auto simp: flying_def t(1) in_flight_def)
  have act: "active s' = active s" by (rule active_frame[OF rest(2)])
  have "sched_inv s'"
    using assms(1) t(2) unfolding safe_def sched_inv_def fly rest(1) act task_slots_held_def t(1) keyed_def
    by auto
  then show ?thesis using assms(1) by (simp add: safe_def cap_inv_def active_units_active act)
qed

lemma perform_safe: "safe svc s \<Longrightarrow> safe svc (perform svc c s)"
proof (cases c)
  case (Graph_Transition t run repo base thread target cp)
  assume s: "safe svc s"
  have "safe svc (keep (transition_graph_execution t run repo base thread target cp) s)"
    by (rule keep_safe[OF s]) (use transition_graph_core safe_cong active_frame s in metis)
  then show ?thesis by (simp add: Graph_Transition)
next
  case (Tick t)
  assume "safe svc s"
  then show ?thesis using safe_cong[of "s\<lparr>db_clock := db_clock s + abs t\<rparr>" s] by (simp add: Tick active_def)
qed (simp_all add: claim_ready_safe promote_dependency_ready_def promote_rounds_safe cancel_blocked_dependents_def
    cancel_rounds_safe heartbeat_safe start_claim_safe finish_claim_safe reclaim_expired_safe cancel_task_safe
    cancel_requested_runs_def cancel_runs_safe observe_safe reconcile_safe reconcile_due_def reconcile_each_safe
    resolve_safe keep_safe create_task_safe)

interpretation running: step_invariant "sched_step svc" "safe svc" for svc
  by unfold_locales (auto elim!: sched_step.cases intro: perform_safe)

lemma keyed_count:
  "keyed key rows \<Longrightarrow> length (filter (\<lambda>r. key r = k) rows) = (if k \<in> key ` set rows then 1 else 0)"
  unfolding keyed_def by (induction rows) (auto simp: filter_empty_conv image_iff)

lemma card_flying_project:
  assumes "sched_inv s"
  shows "int (card {t \<in> flying s. p t}) =
    sum_where (\<lambda>r. rs_resource r = ''task'' \<and> p (rs_task_id r)) rs_units (active s)"
proof -
  let ?slots = "filter (\<lambda>r. p (rs_task_id r)) (task_slots_held s)"
  have inv: "keyed rs_task_id (task_slots_held s)" "rs_task_id ` set (task_slots_held s) = flying s"
    "\<forall>r \<in> set (task_slots_held s). rs_units r = 1"
    using assms by (simp_all add: sched_inv_def)
  have "distinct (map rs_task_id ?slots)" using inv(1) by (simp add: keyed_def distinct_map_filter)
  moreover have "set (map rs_task_id ?slots) = {t \<in> flying s. p t}" using inv(2) by auto
  ultimately have "card {t \<in> flying s. p t} = length ?slots" by (metis distinct_card length_map)
  moreover have "sum_list (map rs_units ?slots) = int (length ?slots)"
  proof -
    have "sum_list (map rs_units rows) = int (length rows)" if "\<forall>r \<in> set rows. rs_units r = 1"
      for rows :: "ReservationRow list"
      using that by (induction rows) auto
    then show ?thesis using inv(3) by simp
  qed
  ultimately show ?thesis by (simp add: sum_where_def task_slots_held_def conj_commute)
qed

definition flying_in :: "uuid \<Rightarrow> db \<Rightarrow> uuid set" where
  "flying_in project_id s = tr_id ` {r \<in> set (tasks s). in_flight (tr_state r) \<and> tr_project_id r = project_id}"

lemma flying_in_slots:
  assumes "sched_inv s"
  shows "int (card (flying_in project_id s)) = active_units (\<lambda>r. rs_resource r = ''task'' \<and> rs_project_id r = project_id) s"
proof -
  have keyed: "keyed tr_id (tasks s)" using assms by (simp add: sched_inv_def)
  have only: "{t \<in> flying s. t \<in> flying_in project_id s} = flying_in project_id s"
    by (auto simp: flying_in_def flying_def)
  have "rs_task_id r \<in> flying_in project_id s \<longleftrightarrow> rs_project_id r = project_id" if r: "r \<in> set (active s)" for r
  proof -
    obtain t where t: "t \<in> set (tasks s)" "tr_id t = rs_task_id r" "tr_project_id t = rs_project_id r" "in_flight (tr_state t)"
      using assms r by (auto simp: sched_inv_def)
    show ?thesis
    proof
      assume "rs_task_id r \<in> flying_in project_id s"
      then obtain t' where t': "t' \<in> set (tasks s)" "tr_project_id t' = project_id" "tr_id t' = rs_task_id r"
        by (auto simp: flying_in_def)
      then have "t = t'" by (intro keyed_unique[OF keyed t(1)]) (simp_all add: t(2))
      then show "rs_project_id r = project_id" using t(3) t'(2) by simp
    next
      assume "rs_project_id r = project_id"
      then show "rs_task_id r \<in> flying_in project_id s"
        unfolding flying_in_def using t by (intro image_eqI[of _ tr_id t]) simp_all
    qed
  qed
  then have "sum_where (\<lambda>r. rs_resource r = ''task'' \<and> rs_task_id r \<in> flying_in project_id s) rs_units (active s) =
      sum_where (\<lambda>r. rs_resource r = ''task'' \<and> rs_project_id r = project_id) rs_units (active s)"
    by (intro sum_where_cong) blast
  then show ?thesis
    using card_flying_project[OF assms, of "\<lambda>t. t \<in> flying_in project_id s"]
    unfolding only active_units_active by (rule trans[rotated])
qed

text \<open>
  Property C1: whatever calls the scheduler and the reconciler serve, in whatever order and
  whether they return or raise, the number of tasks that are LEASED or RUNNING stays within
  \<open>max_parallel_tasks\<close>, their number within each project stays within
  \<open>max_parallel_tasks_per_project\<close>, and the active model and sandbox reservations stay within
  their ceilings.
\<close>

theorem in_flight_within_ceilings:
  assumes "safe svc s0" and "reaches (sched_step svc) s0 s"
  shows "int (card (flying s)) \<le> max_parallel_tasks (policy svc) \<and>
    int (card (flying_in project_id s)) \<le> max_parallel_tasks_per_project (policy svc) \<and>
    active_units (\<lambda>r. rs_resource r = ''model'') s \<le> max_model_concurrency (policy svc) \<and>
    active_units (\<lambda>r. rs_resource r = ''sandbox'') s \<le> max_sandbox_concurrency (policy svc)"
proof -
  have "safe svc s" by (rule running.reaches_keeps[OF assms(2,1)])
  then have inv: "sched_inv s" and cap: "cap_inv svc s" by (simp_all add: safe_def)
  have "int (card (flying s)) = active_units (\<lambda>r. rs_resource r = ''task'') s"
    using card_flying_project[OF inv, of "\<lambda>_. True"] by (simp add: active_units_active)
  then show ?thesis using cap flying_in_slots[OF inv] by (simp add: cap_inv_def)
qed

text \<open>
  Property C7: in every state the two services reach, a task is LEASED or RUNNING exactly when
  it has a lease, and exactly when it holds an active \<open>task\<close> reservation; a task has at most
  one lease and at most one active \<open>task\<close> reservation; and no other task holds an active
  reservation of any kind.
\<close>

theorem in_flight_iff_leased:
  assumes "safe svc s0" and "reaches (sched_step svc) s0 s" and "t \<in> set (tasks s)"
  shows "(in_flight (tr_state t) \<longleftrightarrow> lease_of (tr_id t) s \<noteq> None) \<and>
    length (filter (\<lambda>l. lr_task_id l = tr_id t) (leases s)) = (if in_flight (tr_state t) then 1 else 0) \<and>
    length (filter (\<lambda>r. rs_resource r = ''task'' \<and> rs_task_id r = tr_id t) (active s)) =
      (if in_flight (tr_state t) then 1 else 0) \<and>
    (\<not> in_flight (tr_state t) \<longrightarrow> (\<forall>r \<in> set (active s). rs_task_id r \<noteq> tr_id t))"
proof -
  have safe: "safe svc s" by (rule running.reaches_keeps[OF assms(2,1)])
  then have inv: "sched_inv s" by (simp add: safe_def)
  have fly: "tr_id t \<in> flying s \<longleftrightarrow> in_flight (tr_state t)"
    using not_flying[OF safe_keyed[OF safe] assms(3)] assms(3) by (auto simp: flying_def)
  have "length (filter (\<lambda>l. lr_task_id l = tr_id t) (leases s)) = (if in_flight (tr_state t) then 1 else 0)"
    using keyed_count[of lr_task_id "leases s" "tr_id t"] inv fly by (simp add: sched_inv_def)
  moreover have "length (filter (\<lambda>r. rs_task_id r = tr_id t) (task_slots_held s)) = (if in_flight (tr_state t) then 1 else 0)"
    using keyed_count[of rs_task_id "task_slots_held s" "tr_id t"] inv fly by (simp add: sched_inv_def)
  moreover have "lease_of (tr_id t) s \<noteq> None \<longleftrightarrow> in_flight (tr_state t)"
    using inv fly by (simp add: lease_of_def row_get_None sched_inv_def)
  moreover have "\<not> in_flight (tr_state t) \<longrightarrow> (\<forall>r \<in> set (active s). rs_task_id r \<noteq> tr_id t)"
    using active_flying[OF inv] fly by metis
  ultimately show ?thesis by (simp add: task_slots_held_def conj_commute)
qed

definition sample_service :: SchedulerService where
  "sample_service = \<lparr>policy = \<lparr>max_parallel_tasks = 1, max_parallel_tasks_per_project = 1,
     max_model_concurrency = 1, max_sandbox_concurrency = 1, max_task_attempts = 3, max_run_cost_usd = 25\<rparr>,
     lease_ttl = 60\<rparr>"

definition sample_db :: db where
  "sample_db = empty_db\<lparr>tasks := [sample_task, sample_task\<lparr>tr_id := 8\<rparr>]\<rparr>"

lemma idle_safe:
  assumes "ConcurrencyPolicy_fields (policy svc)" "keyed tr_id (tasks s)"
    "\<forall>t \<in> set (tasks s). \<not> in_flight (tr_state t)" "leases s = []" "active s = []"
  shows "safe svc s"
proof -
  have "flying s = {}" using assms(3) by (auto simp: flying_def)
  then show ?thesis using assms
    by (simp add: safe_def sched_inv_def cap_inv_def task_slots_held_def active_units_active ConcurrencyPolicy_fields_def)
qed

lemma sample_safe: "safe sample_service sample_db"
  by (rule idle_safe) (simp_all add: sample_db_def sample_service_def empty_db_def sample_task_def
      keyed_def in_flight_def active_def ConcurrencyPolicy_fields_def)

definition sample_claimed :: db where
  "sample_claimed = perform sample_service (Claim ''w'' 5 None) sample_db"

lemma sample_reached: "reaches (sched_step sample_service) sample_db sample_claimed"
  unfolding sample_claimed_def by (rule reaches.further, rule reaches.here, rule sched_step.call)

lemma sample_claimed_tasks: "map (\<lambda>t. (tr_id t, tr_state t)) (tasks sample_claimed) = [(7, TaskStatus.LEASED), (8, TaskStatus.READY)]"
  by code_simp

lemma sample_flying: "flying sample_claimed = {7}"
proof -
  have "flying s = set (map fst (filter (\<lambda>p. in_flight (snd p)) (map (\<lambda>t. (tr_id t, tr_state t)) (tasks s))))" for s
    by (force simp: flying_def)
  from this[of sample_claimed, unfolded sample_claimed_tasks] show ?thesis by (simp add: in_flight_def)
qed

theorem in_flight_within_ceilings_witness:
  "flying sample_claimed = {7} \<and> int (card (flying sample_claimed)) \<le> max_parallel_tasks (policy sample_service) \<and>
   int (card (flying_in 3 sample_claimed)) \<le> max_parallel_tasks_per_project (policy sample_service)"
  using in_flight_within_ceilings[OF sample_safe sample_reached, of 3] sample_flying by blast

theorem in_flight_iff_leased_witness:
  "hd (tasks sample_claimed) \<in> set (tasks sample_claimed) \<and>
   length (filter (\<lambda>l. lr_task_id l = 7) (leases sample_claimed)) = 1 \<and> lease_of 7 sample_claimed \<noteq> None"
proof -
  obtain t u where ts: "tasks sample_claimed = [t, u]"
    and t: "tr_id t = 7" "tr_state t = TaskStatus.LEASED"
    using sample_claimed_tasks by (auto simp: map_eq_Cons_conv)
  have "t \<in> set (tasks sample_claimed)" by (simp add: ts)
  from in_flight_iff_leased[OF sample_safe sample_reached this] show ?thesis
    by (simp add: t ts in_flight_def)
qed

end
