(* ===== verification/Attempt_Ceiling.thy ===== *)
theory Attempt_Ceiling
  imports Scheduler_Safety
begin

section \<open>The attempt ceiling\<close>

text \<open>
  \<open>_exhaustion_reason\<close> is consulted before an attempt is recorded. This theory shows that no
  other path of the scheduler or the reconciler records attempts, so the ceiling
  \<open>max_task_attempts\<close> holds along every run of the two services.
\<close>

definition attempted :: "db \<Rightarrow> uuid list" where
  "attempted s = map ta_task_id (task_attempts s)"

definition attempt_inv :: "SchedulerService \<Rightarrow> db \<Rightarrow> bool" where
  "attempt_inv svc s \<longleftrightarrow> (\<forall>t. attempts_of t s \<le> max_task_attempts (policy svc))"

lemma attempts_attempted: "attempts_of t s = int (length (filter (\<lambda>u. u = t) (attempted s)))"
  by (simp add: attempts_of_def attempted_def filter_map comp_def)

lemma commit_attempted:
  assumes "\<And>a s'. body s = Inr (a, s') \<Longrightarrow> attempted s' = attempted s"
  shows "attempted (snd (commit body s)) = attempted s"
  using assms by (auto simp: commit_def split: sum.splits)

lemma attempted_frame: "task_attempts s' = task_attempts s \<Longrightarrow> attempted s' = attempted s"
  by (simp add: attempted_def)

lemma transition_attempted: "transition_task p t v target s = Inr s' \<Longrightarrow> attempted s' = attempted s"
  by (rule attempted_frame) (rule transition_task_frame(5))

lemma emit_attempted: "emit et ty ai pl c tp s = Inr s' \<Longrightarrow> attempted s' = attempted s"
  by (rule attempted_frame) (rule emit_frame(5))

lemma release_attempted [simp]:
  "attempted (release_reservations t now s) = attempted s" "attempted (delete_lease t s) = attempted s"
  "attempted (release_lease t now s) = attempted s" "attempted (set_graph_state t st now s) = attempted s"
  "attempted (set_task_row t f s) = attempted s" "attempted (set_graph_row t g s) = attempted s"
  "attempted (record_state_duration ty ai pv en ex s) = attempted s"
  by (simp_all add: attempted_def release_reservations_def delete_lease_def release_lease_def
      set_graph_state_def set_graph_row_def set_task_row_def record_state_duration_def)

lemma set_task_state_attempted: "set_task_state task target s = Inr s' \<Longrightarrow> attempted s' = attempted s"
  by (auto simp: set_task_state_def bnd_eq_Inr dest: transition_attempted)

lemma admit_leased_attempted:
  "admit_leased svc owner token now task acc = Inr acc' \<Longrightarrow> attempted (snd acc') = attempted (snd acc)"
  by (cases acc)
    (auto simp: admit_leased_def create_lease_def Let_def bnd_eq_Inr attempted_def dest: transition_task_frame(5))

lemma claim_one_attempted:
  assumes "claim_one svc owner now task acc = Inr acc'"
  shows "attempted (snd acc') = attempted (snd acc)"
proof -
  obtain claims s claims' s' where acc: "acc = (claims, s)" "acc' = (claims', s')" by fastforce
  have "claim_one svc owner now task (claims, s) = Inr (claims', s')" using assms by (simp add: acc)
  then show ?thesis
  proof (cases rule: claim_one_cases)
    case (skipped new)
    show ?thesis using attempted_frame[OF skipped(4)] by (simp add: acc)
  next
    case (admitted request r0 nm ns token s3)
    show ?thesis
      using admit_leased_attempted[OF admitted(15)] attempted_frame[OF admitted(11)] by (simp add: acc)
  qed
qed

lemma for_each_attempted:
  assumes "for_each xs body acc = Inr acc'"
    and "\<And>x a b. body x a = Inr b \<Longrightarrow> attempted (snd b) = attempted (snd a)"
  shows "attempted (snd acc') = attempted (snd acc)"
  by (rule for_each_inv[where P = "\<lambda>a. attempted (snd a) = attempted (snd acc)", OF assms(1)]) (use assms(2) in auto)

lemma move_all_attempted: "move_all target rows s = Inr s' \<Longrightarrow> attempted s' = attempted s"
  unfolding move_all_def
  by (erule for_each_inv[where P = "\<lambda>u. attempted u = attempted s"]) (auto dest: transition_attempted)

lemma claim_ready_attempted: "attempted (snd (claim_ready svc owner limit now s)) = attempted s"
  unfolding claim_ready_def
  by (auto intro!: commit_attempted dest!: for_each_attempted[OF _ claim_one_attempted])

lemma promote_attempted: "attempted (snd (promote_rounds n limit k s)) = attempted s"
proof (induction n arbitrary: k s)
  case (Suc n)
  have "attempted (snd (commit (promote_round limit) s)) = attempted s"
    by (rule commit_attempted) (auto simp: promote_round_def Let_def bnd_eq_Inr dest: move_all_attempted)
  then show ?case using Suc.IH by (auto split: prod.splits sum.splits)
qed simp

lemma cascade_attempted: "attempted (snd (cancel_rounds n limit k s)) = attempted s"
proof (induction n arbitrary: k s)
  case (Suc n)
  have "attempted (snd (commit (cancel_round limit) s)) = attempted s"
    by (rule commit_attempted) (auto simp: cancel_round_def Let_def bnd_eq_Inr dest: move_all_attempted)
  then show ?case using Suc.IH by (auto split: prod.splits sum.splits)
qed simp

lemma heartbeat_attempted: "attempted (snd (heartbeat svc t owner token now s)) = attempted s"
  unfolding heartbeat_def by (rule commit_attempted) (auto simp: Let_def attempted_def split: if_splits)

lemma finish_attempted: "attempted (snd (finish_claim svc t p owner token a target s)) = attempted s"
proof -
  have close: "attempted s2 = attempted s1" if "close_attempt t a target now s1 = Inr s2" for s1 s2 now
    using that by (auto simp: close_attempt_def attempted_def bnd_eq_Inr map_row_update split: option.splits)
  have "attempted s' = attempted s" if "finish_claim_body svc t p owner token a target s = Inr (u, s')" for u s'
    using that by (cases rule: finish_claim_cases) (auto dest!: close transition_attempted)
  then show ?thesis unfolding finish_claim_def by (auto intro!: commit_attempted)
qed

lemma reclaim_attempted: "attempted (snd (reclaim_expired now limit s)) = attempted s"
proof -
  have "attempted (snd b) = attempted (snd a)" if "reclaim_one now t a = Inr b" for now t a b
    using that by (cases a)
      (auto simp: reclaim_one_def bnd_eq_Inr split: option.splits if_splits dest!: transition_attempted)
  then show ?thesis unfolding reclaim_expired_def
    by (auto intro!: commit_attempted dest!: for_each_attempted)
qed

lemma cancel_task_attempted: "attempted (snd (cancel_task p t noop_notify s)) = attempted s"
proof -
  have "attempted (snd (commit (cancel_task_body p t) s)) = attempted s"
    by (rule commit_attempted)
      (auto simp: cancel_task_body_def bnd_eq_Inr split: option.splits if_splits dest!: transition_attempted)
  then show ?thesis by (auto simp: cancel_task_def noop_notify_def split: prod.splits sum.splits)
qed

lemma cancel_each_attempted: "attempted (snd (cancel_each ts s)) = attempted s"
proof (induction ts arbitrary: s)
  case (Cons t ts)
  then show ?case using cancel_task_attempted[of "tr_project_id t" "tr_id t" s]
    by (auto split: prod.splits sum.splits)
qed simp

lemma cancel_runs_attempted: "attempted (snd (cancel_runs rs n s)) = attempted s"
proof (induction rs arbitrary: s n)
  case (Cons r rs)
  have "attempted (snd (commit (cancel_run_row (rn_id r)) u)) = attempted u" for u
    by (rule commit_attempted)
      (auto simp: cancel_run_row_def bnd_eq_Inr Let_def split: option.splits if_splits
        dest!: emit_attempted, simp add: attempted_def record_state_duration_def)
  then show ?case using Cons.IH cancel_each_attempted[of "live_tasks_of (rn_id r) s" s]
    by (auto split: prod.splits sum.splits) (metis snd_conv)+
qed simp

lemma apply_action_attempted: "apply_action action task now s = Inr s' \<Longrightarrow> attempted s' = attempted s"
  by (cases action) (auto simp: apply_action_def bnd_eq_Inr split: if_splits dest!: set_task_state_attempted)

lemma reconcile_attempted: "attempted (snd (reconcile p t now s)) = attempted s"
  unfolding reconcile_def
  by (rule commit_attempted)
    (auto simp: reconcile_body_def bnd_eq_Inr split: if_splits dest!: emit_attempted apply_action_attempted)

lemma reconcile_each_attempted: "attempted (snd (reconcile_each rows now acc s)) = attempted s"
proof (induction rows now acc s rule: reconcile_each.induct)
  case (2 project_id task_id rows now results s)
  obtain r s1 where one: "reconcile project_id task_id (Some now) s = (r, s1)" by fastforce
  have "attempted s1 = attempted s" using reconcile_attempted[of project_id task_id "Some now" s] by (simp add: one)
  then show ?case using 2(1,2)[OF one[symmetric]] by (auto simp: one split: sum.splits)
qed simp

lemma rollover_attempted: "rollover row t r th target s = Inr s' \<Longrightarrow> attempted s' = attempted s"
  by (auto simp: rollover_def bnd_eq_Inr dest!: emit_attempted)

lemma record_graph_attempted: "record_graph_execution t r repo b th st cp s = Inr (row, s') \<Longrightarrow> attempted s' = attempted s"
  by (auto simp: record_graph_execution_def uuid4_def Let_def bnd_eq_Inr attempted_def)

lemma transition_graph_attempted:
  "transition_graph_execution t run repo base thread target cp s = Inr s' \<Longrightarrow> attempted s' = attempted s"
  by (auto simp: transition_graph_execution_def graph_changed_def bnd_eq_Inr Let_def split: option.splits if_splits
      dest!: emit_attempted rollover_attempted record_graph_attempted)

lemma resolve_attempted: "attempted (snd (resolve_needs_reconciliation p t res now s)) = attempted s"
proof -
  have "attempted s2 = attempted s1" if "apply_resolution res task graph s1 = Inr s2" for task graph s1 s2
    using that by (cases res) (auto simp: apply_resolution_def settle_graph_def bnd_eq_Inr split: if_splits
        dest!: transition_graph_attempted set_task_state_attempted)
  then show ?thesis unfolding resolve_needs_reconciliation_def
    by (intro commit_attempted)
      (auto simp: resolve_body_def Let_def bnd_eq_Inr split: option.splits dest!: emit_attempted)
qed

lemma observe_attempted: "attempted (snd (record_observed_usage p ty obs s)) = attempted s"
  unfolding record_observed_usage_def
  by (rule commit_attempted) (auto simp: numeral_2_eq_2 attempted_def split: option.splits sum.splits)

lemma keep_attempted:
  "(\<And>s'. body s = Inr s' \<Longrightarrow> attempted s' = attempted s) \<Longrightarrow> attempted (keep body s) = attempted s"
  unfolding keep_def by (rule commit_attempted) (auto simp: bnd_eq_Inr)

lemma refuse_attempted: "refuse_exhausted_task p t now s = Inr (u, s') \<Longrightarrow> attempted s' = attempted s"
  by (auto simp: refuse_exhausted_task_def bnd_eq_Inr split: option.splits if_splits dest!: transition_attempted)

lemma admit_attempt_attempted:
  "admit_attempt t a h s = Inr s' \<Longrightarrow> attempted s' = attempted s \<or> attempted s' = attempted s @ [t]"
  by (auto simp: admit_attempt_def create_attempt_def bnd_eq_Inr row_simps attempted_def split: option.splits)

lemma admit_claim_attempts:
  assumes "attempt_inv svc s" "admit_claim svc t p owner token a h now s = Inr (x, s')"
  shows "attempt_inv svc s'"
  using assms(2)
proof (cases rule: admit_claim_cases)
  case (finished task)
  then show ?thesis using assms(1) by simp
next
  case (started task run lease s1)
  have s1: "attempted s1 = attempted s" using started(8) transition_attempted by auto
  have room: "attempts_of t s < max_task_attempts (policy svc)"
    using started(3) get_task_Some(2)[OF started(1)] by (auto simp: exhaustion_reason_def split: if_splits)
  show ?thesis
    using admit_attempt_attempted[OF started(9)] assms(1) room
    by (auto simp: attempt_inv_def attempts_attempted s1)
qed

lemma start_claim_attempts:
  assumes "attempt_inv svc s"
  shows "attempt_inv svc (snd (start_claim svc t p owner token a h now s))"
proof -
  let ?now = "at_time now s"
  obtain r s1 where admit: "commit (admit_claim svc t p owner token a h ?now) s = (r, s1)" by fastforce
  have s1: "attempt_inv svc s1"
    using admit assms admit_claim_attempts[OF assms, of t p owner token a h ?now]
    by (auto simp: commit_def split: sum.splits)
  have "attempted (snd (commit (refuse_exhausted_task p t ?now) s1)) = attempted s1"
    by (rule commit_attempted) (rule refuse_attempted)
  then have "attempt_inv svc (snd (commit (refuse_exhausted_task p t ?now) s1))"
    using s1 by (simp add: attempt_inv_def attempts_attempted)
  then show ?thesis using s1 admit
    by (auto simp: start_claim_def Let_def split: prod.splits sum.splits py_error.splits)
qed

lemma perform_attempts: "attempt_inv svc s \<Longrightarrow> attempt_inv svc (perform svc c s)"
proof (cases c)
  case (Start t p owner token a h now)
  assume "attempt_inv svc s"
  then show ?thesis by (simp add: Start start_claim_attempts)
next
  case (Create_Task r spec)
  assume s: "attempt_inv svc s"
  have "attempted (keep (create_task r spec) s) = attempted s"
    by (rule keep_attempted) (auto simp: create_task_def bnd_eq_Inr attempted_def)
  then show ?thesis using s by (simp add: Create_Task attempt_inv_def attempts_attempted)
next
  case (Tick t)
  assume "attempt_inv svc s"
  then show ?thesis by (simp add: Tick attempt_inv_def attempts_of_def)
qed (simp_all add: attempt_inv_def attempts_attempted claim_ready_attempted promote_dependency_ready_def promote_attempted
    cancel_blocked_dependents_def cascade_attempted heartbeat_attempted finish_attempted reclaim_attempted
    cancel_task_attempted cancel_requested_runs_def cancel_runs_attempted observe_attempted reconcile_attempted
    reconcile_due_def reconcile_each_attempted resolve_attempted keep_attempted transition_graph_attempted)

interpretation paying: step_invariant "sched_step svc" "attempt_inv svc" for svc
  by unfold_locales (auto elim!: sched_step.cases intro: perform_attempts)

text \<open>
  Property C14: no sequence of calls ever records more than \<open>max_task_attempts\<close> attempts for
  one task, so a worker that keeps dying cannot be paid for indefinitely.
\<close>

theorem attempts_bounded:
  assumes "attempt_inv svc s0" and "reaches (sched_step svc) s0 s"
  shows "attempts_of task_id s \<le> max_task_attempts (policy svc)"
  using paying.reaches_keeps[OF assms(2,1)] by (simp add: attempt_inv_def)

theorem attempts_bounded_witness:
  "attempt_inv sample_service sample_db \<and> attempts_of 7 sample_claimed \<le> 3"
proof -
  have inv: "attempt_inv sample_service sample_db"
    by (simp add: attempt_inv_def attempts_of_def sample_db_def empty_db_def sample_service_def)
  show ?thesis using inv attempts_bounded[OF inv sample_reached, of 7] by (simp add: sample_service_def)
qed

end
