(* ===== verification/Scheduler_Contracts.thy ===== *)
theory Scheduler_Contracts
  imports Scheduler_Safety
begin

section \<open>What the scheduler's operations promise\<close>

text \<open>
  Contracts of single operations of \<open>src/execution/scheduler/service.py\<close>: the SQL predicate and
  the Python function agree, promotion reaches every eligible task, starting and finishing a
  claim are fenced by the lease, reclaiming leaves RUNNING work alone, and observed usage is
  the exact mean of the observations.
\<close>

subsection \<open>Dependencies\<close>

lemma left_join_keyed:
  assumes "keyed tr_id rows"
  shows "left_join rows dep = [row_get tr_id dep rows]"
proof -
  let ?hits = "filter (\<lambda>r. tr_id r = dep) rows"
  show ?thesis
  proof (cases "row_get tr_id dep rows")
    case None
    then have "?hits = []" by (auto simp: row_get_None filter_empty_conv)
    then show ?thesis by (simp add: left_join_def None)
  next
    case (Some r)
    note r = row_get_Some[OF Some]
    have "length ?hits = 1" using keyed_count[OF assms, of dep] r by (simp add: image_iff, blast)
    moreover have "r \<in> set ?hits" using r by simp
    ultimately have "?hits = [r]" by (cases ?hits) auto
    then show ?thesis by (simp add: left_join_def Some)
  qed
qed

lemma sql_mirror:
  assumes "keyed tr_id (tasks s)"
  shows "DEPENDENCIES_SATISFIED_SQL (tasks s) task =
    dependencies_satisfied (tr_dependencies task) (\<lambda>d. map_option tr_state (task_row d s))"
  unfolding DEPENDENCIES_SATISFIED_SQL_def dependencies_satisfied_def left_join_keyed[OF assms] task_row_def
  by (auto simp: list_all_iff filter_empty_conv split: option.splits)

text \<open>
  The server-side promotion predicate mirrors \<open>dependencies_satisfied\<close> exactly, a
  dependency that resolves to no task included.
\<close>

theorem sql_predicate_mirrors_python:
  assumes "keyed tr_id (tasks s)"
  shows "DEPENDENCIES_SATISFIED_SQL (tasks s) task =
    dependencies_satisfied (tr_dependencies task) (\<lambda>d. map_option tr_state (task_row d s))"
  by (rule sql_mirror[OF assms])

theorem sql_predicate_mirrors_python_witness:
  "keyed tr_id (tasks (empty_db\<lparr>tasks := [sample_task]\<rparr>)) \<and>
   DEPENDENCIES_SATISFIED_SQL (tasks (empty_db\<lparr>tasks := [sample_task]\<rparr>)) (sample_task\<lparr>tr_dependencies := [99]\<rparr>) = False"
proof -
  have keyed: "keyed tr_id (tasks (empty_db\<lparr>tasks := [sample_task]\<rparr>))" by (simp add: keyed_def)
  show ?thesis
    using keyed sql_predicate_mirrors_python[OF keyed, of "sample_task\<lparr>tr_dependencies := [99]\<rparr>"]
    by (simp add: dependencies_satisfied_def task_row_def sample_task_def)
qed

subsection \<open>Promotion\<close>

text \<open>Identifiers still to be drawn are new.\<close>

definition fresh_stream :: "db \<Rightarrow> bool" where
  "fresh_stream s \<longleftrightarrow> inj (db_entropy s) \<and> (\<forall>n \<ge> db_drawn s. db_entropy s n \<notin> au_id ` set (audit_events s) \<and>
     db_entropy s n \<notin> ob_event_id ` set (outbox s))"

lemma fresh_stream_draw: "fresh_stream s \<Longrightarrow> fresh_draw s"
  by (simp add: fresh_stream_def fresh_draw_def)

lemma transition_fresh_stream:
  assumes "fresh_stream s" "transition_task p t v target s = Inr s'"
  shows "fresh_stream s'"
  using assms(2)
proof (rule transition_task_cases)
  fix row a e d
  assume s': "s' = s\<lparr>state_durations := state_durations s @ [d],
      tasks := row_update (\<lambda>r. tr_id r = t) (enter_state target (db_clock s)) (tasks s),
      audit_events := audit_events s @ [a], outbox := outbox s @ [e], db_drawn := Suc (db_drawn s)\<rparr>"
    and id: "au_id a = db_entropy s (db_drawn s)" "ob_event_id e = au_id a"
  have "db_entropy s n \<noteq> db_entropy s (db_drawn s)" if "Suc (db_drawn s) \<le> n" for n
    using assms(1) that by (auto simp: fresh_stream_def dest: injD)
  then show ?thesis using assms(1) by (auto simp: fresh_stream_def s' id)
qed

lemma row_update_or:
  "(\<And>r. k (f r) = k r) \<Longrightarrow> x \<notin> K \<Longrightarrow>
   row_update (\<lambda>r. k r \<in> K) f (row_update (\<lambda>r. k r = x) f rows) = row_update (\<lambda>r. k r \<in> insert x K) f rows"
  by (induction rows) auto

lemma move_all_succeeds:
  assumes "keyed tr_id (tasks s)" "fresh_stream s" "awaiting st rows s" "target \<in> TASK_TRANSITIONS st"
  shows "\<exists>s'. move_all target rows s = Inr s' \<and> fresh_stream s' \<and> db_clock s' = db_clock s \<and>
    tasks s' = row_update (\<lambda>r. tr_id r \<in> tr_id ` set rows) (enter_state target (db_clock s)) (tasks s)"
  using assms(1-3)
proof (induction rows arbitrary: s)
  case Nil
  have "row_update (\<lambda>r. False) f rows = rows" for f :: "TaskRow \<Rightarrow> TaskRow" and rows
    by (rule row_update_none) simp
  then show ?case using Nil.prems(2) by (simp add: move_all_def)
next
  case (Cons x rows)
  have x: "x \<in> set (tasks s)" "tr_state x = st" using Cons.prems(3) by (auto simp: awaiting_def)
  obtain s1 where s1: "transition_task (tr_project_id x) (tr_id x) (tr_version x) target s = Inr s1"
    using transition_task_succeeds[OF get_task_keyed[OF Cons.prems(1) x(1)] refl _ fresh_stream_draw[OF Cons.prems(2)]]
      assms(4) x(2) by auto
  note frame = transition_task_frame[OF s1]
  have keyed: "keyed tr_id (tasks s1)" using Cons.prems(1) by (auto simp: frame(1))
  obtain s' where s': "move_all target rows s1 = Inr s'" "fresh_stream s'" "db_clock s' = db_clock s1"
    "tasks s' = row_update (\<lambda>r. tr_id r \<in> tr_id ` set rows) (enter_state target (db_clock s1)) (tasks s1)"
    using Cons.IH[OF keyed transition_fresh_stream[OF Cons.prems(2) s1] awaiting_step[OF Cons.prems(3) frame(1)]]
    by blast
  have "tr_id x \<notin> tr_id ` set rows" using Cons.prems(3) by (simp add: awaiting_def)
  then have "tasks s' = row_update (\<lambda>r. tr_id r \<in> tr_id ` set (x # rows)) (enter_state target (db_clock s)) (tasks s)"
    using row_update_or[of tr_id "enter_state target (db_clock s)" "tr_id x" "tr_id ` set rows" "tasks s"]
    by (simp add: s'(4) frame(1,9))
  then show ?case using s'(1-3) s1 frame(9) by (simp add: move_all_def)
qed

definition eligible :: "db \<Rightarrow> TaskRow list" where
  "eligible s = filter (\<lambda>r. tr_state r = TaskStatus.PENDING \<and> DEPENDENCIES_SATISFIED_SQL (tasks s) r) (tasks s)"

lemma eligible_after:
  assumes keyed: "keyed tr_id (tasks s)" and sub: "set rows \<subseteq> set (eligible s)"
    and tasks': "tasks s' = row_update (\<lambda>r. tr_id r \<in> tr_id ` set rows) (enter_state TaskStatus.READY now) (tasks s)"
  shows "eligible s' = filter (\<lambda>r. tr_id r \<notin> tr_id ` set rows) (eligible s)"
proof -
  let ?C = "tr_id ` set rows"
  let ?f = "enter_state TaskStatus.READY now"
  have keyed': "keyed tr_id (tasks s')" using keyed by (auto simp: tasks')
  have pending: "tr_state r = TaskStatus.PENDING" if "r \<in> set (tasks s)" "tr_id r \<in> ?C" for r
    using that sub keyed_unique[OF keyed that(1)] by (auto simp: eligible_def)
  have same: "map_option tr_state (task_row d s') = Some TaskStatus.COMPLETED \<longleftrightarrow>
      map_option tr_state (task_row d s) = Some TaskStatus.COMPLETED" for d
  proof (cases "d \<in> ?C")
    case False
    then have "task_row d s' = task_row d s"
      unfolding task_row_def tasks' by (intro row_get_update_other) auto
    then show ?thesis by simp
  next
    case True
    have "row_get tr_id d (row_update (\<lambda>r. tr_id r \<in> ?C) ?f ts) = map_option ?f (row_get tr_id d ts)" for ts
      using True by (induction ts) auto
    then have "task_row d s' = map_option ?f (task_row d s)" by (simp add: task_row_def tasks')
    moreover have "tr_state r = TaskStatus.PENDING" if "task_row d s = Some r" for r
      using row_get_Some[OF that[unfolded task_row_def]] pending True by blast
    ultimately show ?thesis by (cases "task_row d s") auto
  qed
  have sat: "DEPENDENCIES_SATISFIED_SQL (tasks s') r = DEPENDENCIES_SATISFIED_SQL (tasks s) r" for r
    by (simp only: sql_mirror[OF keyed'] sql_mirror[OF keyed] dependencies_satisfied_def same)
  have "filter (\<lambda>r. tr_state r = TaskStatus.PENDING \<and> Q r) (row_update (\<lambda>r. tr_id r \<in> ?C) ?f ts) =
    filter (\<lambda>r. tr_id r \<notin> ?C) (filter (\<lambda>r. tr_state r = TaskStatus.PENDING \<and> Q r) ts)" for Q ts
    by (induction ts) auto
  then show ?thesis by (simp add: eligible_def tasks' sat[unfolded tasks'])
qed

lemma promotable_eligible: "promotable limit s = take (nat limit) (sort_key age_order (eligible s))"
  by (simp add: promotable_def eligible_def)

lemma promote_round_succeeds:
  assumes keyed: "keyed tr_id (tasks s)" and "fresh_stream s"
  shows "\<exists>s'. promote_round limit s = Inr (int (length (promotable limit s)), s') \<and> keyed tr_id (tasks s') \<and>
    fresh_stream s' \<and> length (eligible s') = length (eligible s) - length (promotable limit s)"
proof -
  let ?c = "promotable limit s" and ?sorted = "sort_key age_order (eligible s)"
  have await: "awaiting TaskStatus.PENDING ?c s"
    unfolding promotable_def by (rule awaiting_selected[OF keyed])
  obtain s' where s': "move_all TaskStatus.READY ?c s = Inr s'" "fresh_stream s'"
    "tasks s' = row_update (\<lambda>r. tr_id r \<in> tr_id ` set ?c) (enter_state TaskStatus.READY (db_clock s)) (tasks s)"
    using move_all_succeeds[OF keyed assms(2) await, of TaskStatus.READY] by auto
  have sub: "set ?c \<subseteq> set (eligible s)" by (auto simp: promotable_eligible dest: in_set_takeD)
  have split: "?sorted = ?c @ drop (nat limit) ?sorted" by (simp add: promotable_eligible)
  have "distinct (map tr_id ?sorted)"
    using keyed by (simp add: keyed_def distinct_map eligible_def inj_on_def)
  then have "filter (\<lambda>r. tr_id r \<notin> tr_id ` set ?c) ?sorted = drop (nat limit) ?sorted"
    by (subst split, subst (asm) split) (auto simp: filter_empty_conv intro!: filter_True)
  moreover have "length (filter q (eligible s)) = length (filter q ?sorted)" for q
    by (simp add: filter_sort)
  ultimately have "length (eligible s') = length (drop (nat limit) ?sorted)"
    using eligible_after[OF keyed sub s'(3)] by simp
  then have len: "length (eligible s') = length (eligible s) - length ?c"
    by (simp add: promotable_eligible)
  have "keyed tr_id (tasks s')" using keyed by (auto simp: s'(3))
  then show ?thesis using s'(1,2) len by (auto simp: promote_round_def Let_def)
qed

lemma promote_rounds_keyed:
  assumes "keyed tr_id (tasks s)"
  shows "keyed tr_id (tasks (snd (promote_rounds n limit k s)))"
  using assms
proof (induction n arbitrary: k s)
  case (Suc n)
  have "keyed tr_id (tasks s')" if "promote_round limit s = Inr (m, s')" for m s'
  proof -
    have "move_all TaskStatus.READY (promotable limit s) s = Inr s'"
      using that by (auto simp: promote_round_def Let_def bnd_eq_Inr)
    then show ?thesis unfolding move_all_def
      by (rule for_each_inv[where P = "\<lambda>s. keyed tr_id (tasks s)"])
        (use Suc.prems transition_task_frame(1) in auto)
  qed
  then have "keyed tr_id (tasks (snd (commit (promote_round limit) s)))"
    using Suc.prems by (auto simp: commit_def split: sum.splits)
  then show ?case using Suc.IH by (auto split: prod.splits sum.splits)
qed simp

lemma promote_rounds_complete:
  assumes "keyed tr_id (tasks s)" "fresh_stream s" "1 \<le> limit" "int (length (eligible s)) \<le> limit * int n"
  shows "\<exists>s'. promote_rounds n limit k s = (Inr (k + int (length (eligible s))), s') \<and> eligible s' = []"
  using assms(1,2,4)
proof (induction n arbitrary: k s)
  case 0
  then show ?case by simp
next
  case (Suc n)
  let ?m = "length (promotable limit s)"
  obtain s1 where s1: "promote_round limit s = Inr (int ?m, s1)" "keyed tr_id (tasks s1)" "fresh_stream s1"
    "length (eligible s1) = length (eligible s) - ?m"
    using promote_round_succeeds[OF Suc.prems(1,2)] by blast
  have m: "?m = min (length (eligible s)) (nat limit)" by (simp add: promotable_eligible)
  have run: "commit (promote_round limit) s = (Inr (int ?m), s1)" by (rule commit_Inr) (rule s1(1))
  consider "length (eligible s) = 0" | "0 < length (eligible s)" "int (length (eligible s)) < limit"
    | "limit \<le> int (length (eligible s))"
    by linarith
  then show ?case
  proof cases
    case 1
    then show ?thesis using run m s1(4) by auto
  next
    case 2
    then have "?m = length (eligible s)" using m by linarith
    then show ?thesis using run s1(4) 2 by auto
  next
    case 3
    then have full: "int ?m = limit" using m assms(3) by linarith
    have rest: "int (length (eligible s1)) = int (length (eligible s)) - limit"
      using s1(4) full 3 by linarith
    have "int (length (eligible s1)) \<le> limit * int n" using Suc.prems(3) rest by (simp add: algebra_simps)
    from Suc.IH[OF s1(2,3) this, of "k + limit"] show ?thesis
      using run full rest assms(3) by auto
  qed
qed

text \<open>
  Property C17: \<open>promote_dependency_ready\<close> leaves no eligible task behind. With unique task
  identifiers, unused event identifiers and a round budget that covers the eligible tasks, it
  returns their number, and afterwards no PENDING task has all its dependencies COMPLETED.
\<close>

theorem promotion_reaches_every_eligible_task:
  assumes "keyed tr_id (tasks s)" and "fresh_stream s" and "1 \<le> limit"
    and "int (length (eligible s)) \<le> limit * int (nat max_rounds)"
  shows "\<exists>s'. promote_dependency_ready limit max_rounds s = (Inr (int (length (eligible s))), s') \<and>
    (\<forall>t \<in> set (tasks s'). tr_state t = TaskStatus.PENDING \<longrightarrow>
       \<not> dependencies_satisfied (tr_dependencies t) (\<lambda>d. map_option tr_state (task_row d s')))"
proof -
  obtain s' where s': "promote_rounds (nat max_rounds) limit 0 s = (Inr (int (length (eligible s))), s')" "eligible s' = []"
    using promote_rounds_complete[OF assms, of 0] by auto
  have "keyed tr_id (tasks s')"
    using promote_rounds_keyed[OF assms(1), of "nat max_rounds" limit 0] s'(1) by simp
  then show ?thesis
    using s' by (auto simp: promote_dependency_ready_def eligible_def filter_empty_conv sql_mirror)
qed

definition sample_chain :: db where
  "sample_chain = empty_db\<lparr>tasks := [sample_task\<lparr>tr_state := TaskStatus.COMPLETED\<rparr>,
     sample_task\<lparr>tr_id := 8, tr_state := TaskStatus.PENDING, tr_dependencies := [7]\<rparr>]\<rparr>"

lemma fresh_stream_empty: "audit_events s = [] \<Longrightarrow> outbox s = [] \<Longrightarrow> db_entropy s = db_entropy empty_db \<Longrightarrow> fresh_stream s"
  by (simp add: fresh_stream_def empty_db_def inj_def)

theorem promotion_reaches_every_eligible_task_witness:
  "length (eligible sample_chain) = 1 \<and>
   (\<exists>s'. promote_dependency_ready 1 1 sample_chain = (Inr 1, s') \<and>
      {t \<in> set (tasks s'). tr_state t = TaskStatus.PENDING \<and>
         dependencies_satisfied (tr_dependencies t) (\<lambda>d. map_option tr_state (task_row d s'))} = {})"
proof -
  have keyed: "keyed tr_id (tasks sample_chain)" by (simp add: keyed_def sample_chain_def sample_task_def)
  have fresh: "fresh_stream sample_chain"
    by (rule fresh_stream_empty) (simp_all add: sample_chain_def empty_db_def)
  have one: "length (eligible sample_chain) = 1"
    by (simp add: eligible_def sql_mirror[OF keyed] dependencies_satisfied_def task_row_def)
      (simp add: sample_chain_def sample_task_def)
  have "\<exists>s'. promote_dependency_ready 1 1 sample_chain = (Inr (int (length (eligible sample_chain))), s') \<and>
    (\<forall>t \<in> set (tasks s'). tr_state t = TaskStatus.PENDING \<longrightarrow>
       \<not> dependencies_satisfied (tr_dependencies t) (\<lambda>d. map_option tr_state (task_row d s')))"
    by (rule promotion_reaches_every_eligible_task[OF keyed fresh]) (simp_all add: one)
  then show ?thesis using one by auto
qed

subsection \<open>Starting a claim\<close>

lemma get_task_update:
  assumes "tasks s' = row_update (\<lambda>r. tr_id r = task_id) f (tasks s)"
    and "\<And>r. tr_id (f r) = tr_id r" "\<And>r. tr_project_id (f r) = tr_project_id r"
  shows "get_task project_id task_id s' = map_option f (get_task project_id task_id s)"
proof -
  have "find (\<lambda>r. tr_id r = task_id \<and> tr_project_id r = project_id) (row_update (\<lambda>r. tr_id r = task_id) f rows) =
    map_option f (find (\<lambda>r. tr_id r = task_id \<and> tr_project_id r = project_id) rows)" for rows
    using assms(2,3) by (induction rows) auto
  then show ?thesis by (simp add: get_task_def assms(1))
qed

text \<open>
  Property C26: a worker that starts a task which is not already COMPLETED holds, at that moment,
  the exact lease: same owner, same token, not expired. The task was LEASED or RUNNING, its
  attempt and cost ceilings were not reached; afterwards it is RUNNING and the attempt is on
  record for this task and this agent specification.
\<close>

theorem start_claim_requires_live_lease:
  assumes "start_claim svc task_id project_id owner token attempt_id agent_spec_hash now s = (Inr x, s')"
    and "\<not> xl_already_terminal x"
  shows "\<exists>task lease attempt. get_task project_id task_id s = Some task \<and> in_flight (tr_state task) \<and>
    lease_of task_id s = Some lease \<and> lr_owner lease = owner \<and> lr_token lease = token \<and>
    at_time now s < lr_expires_at lease \<and>
    attempts_of task_id s < max_task_attempts (policy svc) \<and>
    run_spend (tr_run_id task) s < max_run_cost_usd (policy svc) \<and>
    map_option tr_state (get_task project_id task_id s') = Some TaskStatus.RUNNING \<and>
    row_get ta_id attempt_id (task_attempts s') = Some attempt \<and> ta_task_id attempt = task_id \<and>
    ta_agent_spec_hash attempt = agent_spec_hash"
proof -
  have admit: "admit_claim svc task_id project_id owner token attempt_id agent_spec_hash (at_time now s) s = Inr (x, s')"
    using assms(1) by (auto simp: start_claim_def commit_def Let_def split: sum.splits prod.splits py_error.splits)
  from admit show ?thesis
  proof (cases rule: admit_claim_cases)
    case (finished task)
    then have "xl_already_terminal x"
      using admit by (auto simp: admit_claim_def execution_lease_def split: option.splits if_splits)
    then show ?thesis using assms(2) by simp
  next
    case (started task run lease s1)
    note row = get_task_Some[OF started(1)]
    have run: "rn_id run = tr_run_id task" by (rule row_get_Some(2)[OF started(2)])
    have room: "attempts_of task_id s < max_task_attempts (policy svc)" "run_spend (tr_run_id task) s < max_run_cost_usd (policy svc)"
      using started(3) row(2) run by (auto simp: exhaustion_reason_def split: if_splits)
    have "\<exists>attempt. row_get ta_id attempt_id (task_attempts s') = Some attempt \<and> ta_task_id attempt = task_id \<and>
        ta_agent_spec_hash attempt = agent_spec_hash"
      using started(9)
      by (cases "row_get ta_id attempt_id (task_attempts s1)")
        (auto simp: admit_attempt_def create_attempt_def bnd_eq_Inr row_insert_Inr row_get_append)
    moreover have "map_option tr_state (get_task project_id task_id s1) = Some TaskStatus.RUNNING"
      using started(8)
    proof
      assume *: "tr_state task = TaskStatus.LEASED \<and>
        transition_task project_id task_id (tr_version task) TaskStatus.RUNNING s = Inr s1"
      then show ?thesis
        using started(1) transition_task_frame(1)[of project_id task_id "tr_version task" TaskStatus.RUNNING s s1]
        by (simp add: get_task_update)
    qed (use started(1) in auto)
    moreover have "get_task project_id task_id s' = get_task project_id task_id s1"
      using admit_attempt_frame(1)[OF started(9)] by (simp add: get_task_def)
    moreover have "in_flight (tr_state task)" using started(8) by (auto simp: in_flight_def)
    ultimately show ?thesis using started(1,4-7) room by auto
  qed
qed

definition sample_run :: RunRow where
  "sample_run = \<lparr>rn_id = 9, rn_project_id = 3, rn_repository_id = 2, rn_goal = ''g'',
     rn_baseline_commit = replicate 40 CHR ''a'', rn_state = RunStatus.EXECUTING,
     rn_state_entered_at = 0, rn_cancellation_requested_at = None\<rparr>"

definition sample_repository :: RepositoryRow where
  "sample_repository = \<lparr>rp_id = 2, rp_project_id = 3, rp_source_path = ''/r'', rp_default_branch = ''main''\<rparr>"

definition sample_lease :: LeaseRow where
  "sample_lease = \<lparr>lr_task_id = 7, lr_owner = ''w'', lr_token = 5, lr_expires_at = 100, lr_heartbeat_at = 0, lr_created_at = 0\<rparr>"

definition sample_slot :: ReservationRow where
  "sample_slot = \<lparr>rs_task_id = 7, rs_project_id = 3, rs_resource = ''task'', rs_units = 1, rs_created_at = 0, rs_released_at = None\<rparr>"

definition sample_leased :: db where
  "sample_leased = empty_db\<lparr>runs := [sample_run], repositories := [sample_repository],
     tasks := [sample_task\<lparr>tr_state := TaskStatus.LEASED\<rparr>], leases := [sample_lease], reservations := [sample_slot]\<rparr>"

lemma sample_start:
  "case start_claim sample_service 7 3 ''w'' 5 11 (replicate 64 CHR ''f'') (Some 10) sample_leased of
     (Inr x, s') \<Rightarrow> \<not> xl_already_terminal x | (Inl _, _) \<Rightarrow> False"
  by code_simp

theorem start_claim_requires_live_lease_witness:
  "\<exists>x s' task lease. start_claim sample_service 7 3 ''w'' 5 11 (replicate 64 CHR ''f'') (Some 10) sample_leased = (Inr x, s') \<and>
     get_task 3 7 sample_leased = Some task \<and> in_flight (tr_state task) \<and> lease_of 7 sample_leased = Some lease \<and>
     lr_token lease = 5 \<and> map_option tr_state (get_task 3 7 s') = Some TaskStatus.RUNNING"
proof -
  obtain x s' where run: "start_claim sample_service 7 3 ''w'' 5 11 (replicate 64 CHR ''f'') (Some 10) sample_leased = (Inr x, s')"
    "\<not> xl_already_terminal x"
    using sample_start by (auto split: prod.splits sum.splits)
  show ?thesis using start_claim_requires_live_lease[OF run] run(1) by auto
qed

subsection \<open>Finishing a claim\<close>

text \<open>
  Property C27: finishing a claim is fenced and idempotent. When \<open>finish_claim\<close> changes the
  database, the caller held the lease with its owner name and token. When it returns, the task
  is in the target state and has no lease, and a repetition of the same call returns and
  changes nothing. When it raises, the database is unchanged.
\<close>

theorem finish_claim_fenced_and_idempotent:
  assumes "finish_claim svc task_id project_id owner token attempt_id target s = (r, s')"
  shows "(s' \<noteq> s \<longrightarrow> (\<exists>lease. lease_of task_id s = Some lease \<and> lr_owner lease = owner \<and> lr_token lease = token)) \<and>
    (\<forall>e. r = Inl e \<longrightarrow> s' = s) \<and>
    (r = Inr () \<longrightarrow> map_option tr_state (get_task project_id task_id s') = Some target \<and>
       lease_of task_id s' = None \<and>
       finish_claim svc task_id project_id owner token attempt_id target s' = (Inr (), s'))"
proof (cases "r = Inr ()")
  case False
  then have "s' = s" "\<exists>e. r = Inl e"
    using assms by (auto simp: finish_claim_def commit_def split: if_splits sum.splits prod.splits)
  then show ?thesis using False by auto
next
  case True
  then have body: "finish_claim_body svc task_id project_id owner token attempt_id target s = Inr ((), s')"
    and target: "target \<in> TERMINAL_TASK_STATES"
    using assms by (auto simp: finish_claim_def commit_def TERMINAL_TASK_STATES_def split: if_splits sum.splits prod.splits)
  have "map_option tr_state (get_task project_id task_id s') = Some target \<and> lease_of task_id s' = None \<and>
    (s' \<noteq> s \<longrightarrow> (\<exists>lease. lease_of task_id s = Some lease \<and> lr_owner lease = owner \<and> lr_token lease = token))"
    using body
  proof (cases rule: finish_claim_cases)
    case (finished task lease s1 s2)
    have "tasks s' = row_update (\<lambda>r. tr_id r = task_id) (enter_state target (db_clock s)) (tasks s)"
      using transition_task_frame(1)[OF finished(8)] close_attempt_frame(1)[OF finished(9)] finished(10) by simp
    from get_task_update[OF this] show ?thesis
      using finished(1,3,4,5,10) by (simp add: lease_of_def)
  qed (auto simp: lease_of_def get_task_def)
  moreover from this have "finish_claim svc task_id project_id owner token attempt_id target s' = (Inr (), s')"
    using target by (auto simp: finish_claim_def commit_def finish_claim_body_def TERMINAL_TASK_STATES_def Let_def)
  ultimately show ?thesis using True by auto
qed

definition sample_running :: db where
  "sample_running = sample_leased\<lparr>tasks := [sample_task\<lparr>tr_state := TaskStatus.RUNNING\<rparr>],
     task_attempts := [\<lparr>ta_id = 11, ta_task_id = 7, ta_agent_spec_hash = replicate 64 CHR ''f'',
       ta_status = ''RUNNING'', ta_started_at = 0, ta_ended_at = None\<rparr>],
     graph_executions := [sample_graph\<lparr>gx_state := GraphExecutionState.COMPLETED\<rparr>]\<rparr>"

lemma sample_finish:
  "case finish_claim sample_service 7 3 ''w'' 5 11 TaskStatus.COMPLETED sample_running of
     (Inr _, s') \<Rightarrow> True | (Inl _, _) \<Rightarrow> False"
  by code_simp

theorem finish_claim_fenced_and_idempotent_witness:
  "\<exists>s'. finish_claim sample_service 7 3 ''w'' 5 11 TaskStatus.COMPLETED sample_running = (Inr (), s') \<and>
     map_option tr_state (get_task 3 7 s') = Some TaskStatus.COMPLETED \<and> lease_of 7 s' = None \<and>
     finish_claim sample_service 7 3 ''w'' 5 11 TaskStatus.COMPLETED s' = (Inr (), s')"
proof -
  obtain s' where run: "finish_claim sample_service 7 3 ''w'' 5 11 TaskStatus.COMPLETED sample_running = (Inr (), s')"
    using sample_finish by (auto split: prod.splits sum.splits)
  show ?thesis using finish_claim_fenced_and_idempotent[OF run] run by auto
qed

subsection \<open>Exhausted budgets\<close>

text \<open>
  Property C35: the ceilings are checked before the lease. Once a task has used up its attempts,
  a dispatch with any owner, any token and any attempt identifier fails the task durably and
  removes its lease, even while the last permitted attempt is still RUNNING under a live lease
  that belongs to somebody else.
\<close>

theorem exhausted_dispatch_fails_live_task:
  assumes "get_task project_id task_id s = Some task" and "TaskStatus.FAILED \<in> TASK_TRANSITIONS (tr_state task)"
    and "row_get rn_id (tr_run_id task) (runs s) = Some run"
    and "row_get rp_id (tr_repository_id task) (repositories s) = Some repository"
    and "max_task_attempts (policy svc) \<le> attempts_of task_id s" and "fresh_draw s"
  shows "\<exists>s'. start_claim svc task_id project_id owner token attempt_id agent_spec_hash now s =
      (Inl (TaskBudgetExhausted ''task exhausted its attempt budget''), s') \<and>
    map_option tr_state (get_task project_id task_id s') = Some TaskStatus.FAILED \<and> lease_of task_id s' = None"
proof -
  note row = get_task_Some[OF assms(1)]
  have live: "tr_state task \<noteq> TaskStatus.COMPLETED" "tr_state task \<notin> TERMINAL_TASK_STATES"
    using assms(2) by (cases "tr_state task"; auto simp: TERMINAL_TASK_STATES_def)+
  have admit: "admit_claim svc task_id project_id owner token attempt_id agent_spec_hash (at_time now s) s =
      Inl (TaskBudgetExhausted ''task exhausted its attempt budget'')"
    using assms(1,3,4,5) live(1) row(2) by (simp add: admit_claim_def exhaustion_reason_def)
  let ?s = "delete_lease task_id (release_reservations task_id (at_time now s) s)"
  have get: "get_task project_id task_id ?s = Some task" using assms(1) by (simp add: get_task_def)
  have "fresh_draw ?s" using assms(6) by (simp add: fresh_draw_def delete_lease_def release_reservations_def)
  then obtain s' where s': "transition_task project_id task_id (tr_version task) TaskStatus.FAILED ?s = Inr s'"
    using transition_task_succeeds[OF get refl assms(2)] by blast
  have "lease_of task_id s' = None" using transition_task_frame(2)[OF s'] by (simp add: lease_of_def)
  moreover have "map_option tr_state (get_task project_id task_id s') = Some TaskStatus.FAILED"
    using get_task_update[OF transition_task_frame(1)[OF s']] get by simp
  moreover have "start_claim svc task_id project_id owner token attempt_id agent_spec_hash now s =
      (Inl (TaskBudgetExhausted ''task exhausted its attempt budget''), s')"
    using assms(1) live(2) s' by (simp add: start_claim_def Let_def commit_def admit refuse_exhausted_task_def)
  ultimately show ?thesis by blast
qed

definition sample_last_attempt :: db where
  "sample_last_attempt = sample_running\<lparr>task_attempts := map (\<lambda>i.
     \<lparr>ta_id = i, ta_task_id = 7, ta_agent_spec_hash = replicate 64 CHR ''f'', ta_status = ''RUNNING'',
      ta_started_at = 0, ta_ended_at = None\<rparr>) [11, 12, 13]\<rparr>"

theorem exhausted_dispatch_fails_live_task_witness:
  "map_option tr_state (get_task 3 7 sample_last_attempt) = Some TaskStatus.RUNNING \<and>
   lease_of 7 sample_last_attempt = Some sample_lease \<and>
   (\<exists>s'. start_claim sample_service 7 3 ''stranger'' 6 14 (replicate 64 CHR ''f'') (Some 10) sample_last_attempt =
      (Inl (TaskBudgetExhausted ''task exhausted its attempt budget''), s') \<and>
      map_option tr_state (get_task 3 7 s') = Some TaskStatus.FAILED \<and> lease_of 7 s' = None)"
proof -
  let ?t = "sample_task\<lparr>tr_state := TaskStatus.RUNNING\<rparr>"
  have get: "get_task 3 7 sample_last_attempt = Some ?t"
    by (simp add: get_task_def sample_last_attempt_def sample_running_def sample_task_def)
  have lease: "lease_of 7 sample_last_attempt = Some sample_lease"
    by (simp add: lease_of_def sample_last_attempt_def sample_running_def sample_leased_def sample_lease_def)
  have "\<exists>s'. start_claim sample_service 7 3 ''stranger'' 6 14 (replicate 64 CHR ''f'') (Some 10) sample_last_attempt =
      (Inl (TaskBudgetExhausted ''task exhausted its attempt budget''), s') \<and>
      map_option tr_state (get_task 3 7 s') = Some TaskStatus.FAILED \<and> lease_of 7 s' = None"
    by (rule exhausted_dispatch_fails_live_task[OF get, of sample_run sample_repository])
      (simp_all add: sample_last_attempt_def sample_running_def sample_leased_def sample_task_def sample_run_def
        sample_repository_def attempts_of_def sample_service_def fresh_draw_def empty_db_def)
  then show ?thesis using get lease by simp
qed

subsection \<open>Reclaiming\<close>

definition untouched :: "TaskRow \<Rightarrow> db \<Rightarrow> db \<Rightarrow> bool" where
  "untouched t s s' \<longleftrightarrow> t \<in> set (tasks s') \<and> lease_of (tr_id t) s' = lease_of (tr_id t) s \<and>
     filter (\<lambda>r. rs_task_id r = tr_id t) (reservations s') = filter (\<lambda>r. rs_task_id r = tr_id t) (reservations s)"

lemma released_other:
  assumes "u \<noteq> t"
  shows "filter (\<lambda>r. rs_task_id r = t) (reservations (delete_lease u (release_reservations u now s))) =
    filter (\<lambda>r. rs_task_id r = t) (reservations s)"
proof -
  have "filter (\<lambda>r. rs_task_id r = t) (row_update (\<lambda>r. rs_task_id r = u \<and> rs_released_at r = None)
      (\<lambda>r. r\<lparr>rs_released_at := Some now\<rparr>) rows) = filter (\<lambda>r. rs_task_id r = t) rows" for rows
    using assms by (induction rows) auto
  then show ?thesis by (simp add: delete_lease_def release_reservations_def)
qed

lemma untouched_by_other:
  assumes "keyed tr_id (tasks s)" "t \<in> set (tasks s)" "u \<noteq> tr_id t" "leases s1 = leases s" "reservations s1 = reservations s"
    and "tasks s1 = tasks s \<or> tasks s1 = row_update (\<lambda>r. tr_id r = u) (enter_state st clk) (tasks s)"
  shows "keyed tr_id (tasks s1) \<and> untouched t s (delete_lease u (release_reservations u now s1))"
proof -
  have "keyed tr_id (tasks s1)" using assms(1,6) keyed_row_update enter_state_simps(1) by metis
  moreover have "t \<in> set (tasks s1)" using assms(2,3,6) task_after_update[of t s u s1] by auto
  moreover have "lease_of (tr_id t) (delete_lease u (release_reservations u now s1)) = lease_of (tr_id t) s"
    using assms(3,4) by (simp add: lease_of_def row_get_delete_other)
  ultimately show ?thesis
    using released_other[OF assms(3), of now s1] assms(5) by (simp add: untouched_def)
qed

lemma reclaim_one_untouched:
  assumes "keyed tr_id (tasks s)" "t \<in> set (tasks s)" "reclaim_one now u (n, s) = Inr acc'"
    and "tr_state t = TaskStatus.RUNNING \<or> (\<exists>l. lease_of (tr_id t) s = Some l \<and> now < lr_expires_at l)"
  shows "keyed tr_id (tasks (snd acc')) \<and> untouched t s (snd acc')"
proof -
  have row: "task = t" if "task_row u s = Some task" "u = tr_id t" for task
    using keyed_row_get[OF assms(1,2)] that by (simp add: task_row_def)
  from assms(3) show ?thesis
  proof (cases rule: reclaim_one_cases)
    case same
    then show ?thesis using assms(1,2) by (simp add: untouched_def)
  next
    case (requeued task lease s1)
    have "u \<noteq> tr_id t" using row[OF requeued(1)] requeued(3-5) assms(4) by auto
    note frame = transition_task_frame[OF requeued(6)]
    show ?thesis
      using untouched_by_other[OF assms(1,2) \<open>u \<noteq> tr_id t\<close> frame(2,3) disjI2[OF frame(1)]] by (simp add: requeued(7))
  next
    case (cleaned task lease)
    have "u \<noteq> tr_id t" using row[OF cleaned(1)] cleaned(3-5) assms(4) by (auto simp: in_flight_def)
    from untouched_by_other[OF assms(1,2) this refl refl disjI1[OF refl]] show ?thesis by (simp add: cleaned(6))
  qed
qed

text \<open>
  Property C28: \<open>reclaim_expired\<close> touches neither RUNNING work nor live leases. A task that is
  RUNNING, or whose lease has not expired, keeps its row, its lease and its reservations.
\<close>

theorem reclaim_leaves_running_and_live_leases:
  assumes "reclaim_expired now limit s = (r, s')" and "keyed tr_id (tasks s)" and "t \<in> set (tasks s)"
    and "tr_state t = TaskStatus.RUNNING \<or> (\<exists>l. lease_of (tr_id t) s = Some l \<and> at_time now s < lr_expires_at l)"
  shows "t \<in> set (tasks s') \<and> lease_of (tr_id t) s' = lease_of (tr_id t) s \<and>
    filter (\<lambda>r. rs_task_id r = tr_id t) (reservations s') = filter (\<lambda>r. rs_task_id r = tr_id t) (reservations s)"
proof -
  let ?P = "\<lambda>acc. keyed tr_id (tasks (snd acc)) \<and> untouched t s (snd acc)"
  have step: "?P acc'" if "?P acc" "reclaim_one (at_time now s) u acc = Inr acc'" for u acc acc'
  proof -
    obtain n s1 where acc: "acc = (n, s1)" by fastforce
    have "keyed tr_id (tasks (snd acc')) \<and> untouched t s1 (snd acc')"
      by (rule reclaim_one_untouched[where n = n and u = u and now = "at_time now s"])
        (use that acc assms(4) in \<open>auto simp: untouched_def\<close>)
    then show ?thesis using that(1) by (simp add: untouched_def acc)
  qed
  have start: "?P (0, s)" using assms(2,3) by (simp add: untouched_def)
  have "untouched t s s'"
  proof (cases "for_each (expired_candidates (at_time now s) limit s) (reclaim_one (at_time now s)) (0, s)")
    case (Inl e)
    then show ?thesis using assms(1) start by (simp add: reclaim_expired_def commit_def)
  next
    case (Inr acc)
    have "?P acc" by (rule for_each_inv[where P = ?P, OF Inr start]) (rule step)
    then show ?thesis using assms(1) Inr by (cases acc) (simp add: reclaim_expired_def commit_def)
  qed
  then show ?thesis by (simp add: untouched_def)
qed

theorem reclaim_leaves_running_and_live_leases_witness:
  "lease_of 7 (snd (reclaim_expired (Some 500) 10 sample_running)) = Some sample_lease \<and>
   sample_task\<lparr>tr_state := TaskStatus.RUNNING\<rparr> \<in> set (tasks (snd (reclaim_expired (Some 500) 10 sample_running)))"
proof -
  let ?t = "sample_task\<lparr>tr_state := TaskStatus.RUNNING\<rparr>"
  have t: "keyed tr_id (tasks sample_running)" "?t \<in> set (tasks sample_running)" "tr_id ?t = 7"
    by (simp_all add: sample_running_def keyed_def sample_task_def)
  have lease: "lease_of 7 sample_running = Some sample_lease"
    by (simp add: lease_of_def sample_running_def sample_leased_def sample_lease_def)
  show ?thesis
    using reclaim_leaves_running_and_live_leases[OF surjective_pairing t(1,2), of "Some 500" 10] t(3) lease by simp
qed

subsection \<open>Observed usage\<close>

definition mean_of :: "('a \<Rightarrow> rat) \<Rightarrow> 'a list \<Rightarrow> rat" where
  "mean_of w xs = sum_list (map w xs) / of_nat (length xs)"

lemma mean_of_snoc: "xs \<noteq> [] \<Longrightarrow> running_average (int (length xs)) (mean_of w xs) (w x) = mean_of w (xs @ [x])"
  by (simp add: running_average_def mean_of_def add.commute)

definition record_all :: "uuid \<Rightarrow> TaskType \<Rightarrow> ResourceObservation list \<Rightarrow> db \<Rightarrow> db" where
  "record_all project_id task_type xs s =
     fold (\<lambda>obs s. snd (record_observed_usage project_id task_type obs s)) xs s"

definition summarises :: "ProjectTaskResourceEstimateRow \<Rightarrow> ResourceObservation list \<Rightarrow> bool" where
  "summarises row xs \<longleftrightarrow> es_sample_count row = int (length xs) \<and>
     es_average_cpu_time_ms row = mean_of (\<lambda>x. of_int (ro_cpu_time_ms x)) xs \<and>
     es_peak_memory_bytes row = Max (ro_peak_memory_bytes ` set xs) \<and>
     es_average_duration_ms row = mean_of (\<lambda>x. of_int (ro_duration_ms x)) xs \<and>
     es_average_output_bytes row = mean_of (\<lambda>x. of_int (ro_output_bytes x)) xs \<and>
     es_average_network_requests row = mean_of (\<lambda>x. of_int (ro_network_requests x)) xs \<and>
     es_average_model_tokens row = mean_of (\<lambda>x. of_int (ro_model_tokens x)) xs \<and>
     es_average_cost_usd row = mean_of ro_cost_usd xs"

lemma merge_summarises:
  assumes "summarises row xs" "xs \<noteq> []"
  shows "summarises (merge_observation now x row) (xs @ [x])"
proof -
  note mean = mean_of_snoc[OF assms(2), of "\<lambda>x. of_int (ro_cpu_time_ms x)" x]
    mean_of_snoc[OF assms(2), of "\<lambda>x. of_int (ro_duration_ms x)" x]
    mean_of_snoc[OF assms(2), of "\<lambda>x. of_int (ro_output_bytes x)" x]
    mean_of_snoc[OF assms(2), of "\<lambda>x. of_int (ro_network_requests x)" x]
    mean_of_snoc[OF assms(2), of "\<lambda>x. of_int (ro_model_tokens x)" x]
    mean_of_snoc[OF assms(2), of ro_cost_usd x]
  show ?thesis using assms
    by (simp add: summarises_def merge_observation_def Let_def mean max.commute)
qed

text \<open>
  After any number of observations of one task type in one project, the stored
  estimate is exact: the sample count, the arithmetic means and the peak memory are those of
  the list of observations.
\<close>

theorem observed_usage_is_mean:
  assumes "xs \<noteq> []" and "row_get estimate_key (project_id, task_type) (estimates s) = None"
  shows "\<exists>row. row_get estimate_key (project_id, task_type) (estimates (record_all project_id task_type xs s)) = Some row \<and>
    summarises row xs"
  using assms(1)
proof (induction xs rule: rev_nonempty_induct)
  case (single x)
  let ?row = "first_observation project_id task_type (utc_now s) x"
  have key: "estimate_key ?row = (project_id, task_type)" by (simp add: estimate_key_def first_observation_def)
  have "row_insert estimate_key ?row (estimates s) = Inr (estimates s @ [?row])"
    using assms(2) by (simp add: row_insert_def key row_get_None)
  then have "estimates (record_all project_id task_type [x] s) = estimates s @ [?row]"
    by (simp add: record_all_def record_observed_usage_def numeral_2_eq_2 commit_def assms(2))
  then show ?case
    by (simp add: row_get_append assms(2) key) (simp add: summarises_def first_observation_def mean_of_def)
next
  case (snoc x xs)
  let ?s = "record_all project_id task_type xs s"
  obtain row where row: "row_get estimate_key (project_id, task_type) (estimates ?s) = Some row" "summarises row xs"
    using snoc.IH by blast
  have key: "estimate_key (merge_observation now x r) = estimate_key r" for now r
    by (simp add: estimate_key_def merge_observation_def Let_def)
  have "record_all project_id task_type (xs @ [x]) s = snd (record_observed_usage project_id task_type x ?s)"
    by (simp add: record_all_def)
  then show ?case
    using row merge_summarises[OF row(2) snoc.hyps(1)]
    by (auto simp: record_observed_usage_def numeral_2_eq_2 commit_def row_get_update_same key)
qed

definition sample_observation :: "int \<Rightarrow> ResourceObservation" where
  "sample_observation n = \<lparr>ro_cpu_time_ms = n, ro_peak_memory_bytes = n, ro_duration_ms = n, ro_output_bytes = n,
     ro_network_requests = n, ro_model_tokens = n, ro_cost_usd = of_int n\<rparr>"

theorem observed_usage_is_mean_witness:
  "\<exists>row. row_get estimate_key (3, TEST)
      (estimates (record_all 3 TEST [sample_observation 2, sample_observation 4] empty_db)) = Some row \<and>
     es_sample_count row = 2 \<and> es_average_cpu_time_ms row = 3 \<and> es_peak_memory_bytes row = 4"
proof -
  have "\<exists>row. row_get estimate_key (3, TEST)
      (estimates (record_all 3 TEST [sample_observation 2, sample_observation 4] empty_db)) = Some row \<and>
      summarises row [sample_observation 2, sample_observation 4]"
    by (rule observed_usage_is_mean) (simp_all add: empty_db_def)
  then show ?thesis by (auto simp: summarises_def sample_observation_def mean_of_def)
qed

end
