(* ===== verification/Reconciliation_Contracts.thy ===== *)
theory Reconciliation_Contracts
  imports Scheduler_Contracts
begin

section \<open>What reconciliation promises\<close>

text \<open>
  Contracts of \<open>src/execution/scheduler/reconciliation.py\<close>: a repair never attempts an illegal
  transition, it converges, and two places where the periodic scan and the operator's exit do
  not deliver what their comments say.
\<close>

subsection \<open>The effect of an action\<close>

fun task_after :: "ReconciliationAction \<Rightarrow> TaskStatus \<Rightarrow> TaskStatus" where
  "task_after RESUME_CHECKPOINT st = TaskStatus.READY"
| "task_after FINALIZE_DOMAIN st = TaskStatus.COMPLETED"
| "task_after REQUEUE_MISSING_CHECKPOINT st = TaskStatus.READY"
| "task_after GRAPH_TERMINAL_WINS st = TaskStatus.CANCELLED"
| "task_after QUARANTINE st = (if st \<in> TERMINAL_TASK_STATES then st else quarantine_target st)"
| "task_after _ st = st"

fun graph_after :: "ReconciliationAction \<Rightarrow> GraphExecutionState \<Rightarrow> GraphExecutionState" where
  "graph_after DOMAIN_TERMINAL_WINS g = GraphExecutionState.CANCELLED"
| "graph_after QUARANTINE g = NEEDS_RECONCILIATION"
| "graph_after _ g = g"

definition same_identity :: "GraphExecutionRow \<Rightarrow> GraphExecutionRow \<Rightarrow> bool" where
  "same_identity g g' \<longleftrightarrow> gx_task_id g = gx_task_id g' \<and> gx_run_id g = gx_run_id g' \<and>
     gx_repository_id g = gx_repository_id g' \<and> gx_baseline_commit g = gx_baseline_commit g'"

definition same_task :: "TaskRow \<Rightarrow> TaskRow \<Rightarrow> bool" where
  "same_task t t' \<longleftrightarrow> tr_id t = tr_id t' \<and> tr_project_id t = tr_project_id t' \<and> tr_run_id t = tr_run_id t' \<and>
     tr_repository_id t = tr_repository_id t'"

lemma set_task_state_effect:
  assumes "get_task project_id task_id s = Some task" "set_task_state task target s = Inr s1"
  shows "(\<exists>task'. get_task project_id task_id s1 = Some task' \<and> tr_state task' = target \<and> same_task task' task) \<and>
    graph_executions s1 = graph_executions s \<and> runs s1 = runs s"
  using assms(2)
proof (rule set_task_state_transition)
  fix s2
  assume s2: "transition_task (tr_project_id task) (tr_id task) (tr_version task) target s = Inr s2"
    "tasks s1 = tasks s2" "graph_executions s1 = graph_executions s" "runs s1 = runs s"
  note id = get_task_Some(2)[OF assms(1)]
  have "tasks s1 = row_update (\<lambda>r. tr_id r = task_id) (enter_state target (db_clock s)) (tasks s)"
    using transition_task_frame(1)[OF s2(1)] s2(2) id by simp
  from get_task_update[OF this] have "get_task project_id task_id s1 = Some (enter_state target (db_clock s) task)"
    using assms(1) by simp
  then show ?thesis using s2(3,4) by (auto simp: same_task_def)
qed

lemma release_lease_effect [simp]:
  "graph_executions (release_lease t now s) = graph_executions s" "runs (release_lease t now s) = runs s"
  "get_task p t (release_lease t now s) = get_task p t s" "lease_of t (release_lease t now s) = None"
  "graph_of t (release_lease t now s) = graph_of t s"
  by (simp_all add: release_lease_def delete_lease_def release_reservations_def get_task_def lease_of_def graph_of_def)

lemma set_graph_state_effect [simp]:
  "runs (set_graph_state t st now s) = runs s" "get_task p t (set_graph_state t st now s) = get_task p t s"
  "graph_of t (set_graph_state t st now s) =
     map_option (\<lambda>g. g\<lparr>gx_state := st, gx_state_entered_at := now\<rparr>) (graph_of t s)"
  by (simp_all add: set_graph_state_def set_graph_row_def get_task_def graph_of_def row_get_update_same)

lemma apply_action_effect:
  assumes task: "get_task project_id task_id s = Some task" and run: "apply_action action task now s = Inr s1"
    and "action \<noteq> NOOP"
  shows "(\<exists>task'. get_task project_id task_id s1 = Some task' \<and> tr_state task' = task_after action (tr_state task) \<and>
      same_task task' task) \<and>
    (case graph_of task_id s of None \<Rightarrow> graph_of task_id s1 = None
     | Some g \<Rightarrow> \<exists>g'. graph_of task_id s1 = Some g' \<and> gx_state g' = graph_after action (gx_state g) \<and> same_identity g' g) \<and>
    lease_of task_id s1 = None \<and> runs s1 = runs s"
proof -
  note id = get_task_Some(2)[OF task]
  have set: "(\<exists>task'. get_task project_id task_id u = Some task' \<and> tr_state task' = target \<and> same_task task' task) \<and>
      graph_of task_id u = graph_of task_id s \<and> runs u = runs s"
    if "set_task_state task target s = Inr u" for target u
    using set_task_state_effect[OF task that] by (simp add: graph_of_def)
  have refl: "same_task task task" "same_identity g g" for g by (simp_all add: same_task_def same_identity_def)
  show ?thesis
    using run assms(3) task refl
    by (cases action)
      (auto simp: apply_action_def bnd_eq_Inr id same_identity_def split: option.splits if_splits dest!: set)
qed

subsection \<open>Repairs succeed and converge\<close>

lemma decided_transition_legal:
  assumes "decide task run graph lease now = action" "action \<noteq> NOOP" "task_after action (tr_state task) \<noteq> tr_state task"
  shows "task_after action (tr_state task) \<in> TASK_TRANSITIONS (tr_state task)"
  using assms
  by (cases "tr_state task")
    (auto simp: decide_def decide_running_def decide_terminal_def Let_def TERMINAL_TASK_STATES_def quarantine_target_def
      split: if_splits option.splits)

lemma set_task_state_succeeds:
  assumes "keyed tr_id (tasks s)" "fresh_stream s" "task \<in> set (tasks s)" "target \<in> TASK_TRANSITIONS (tr_state task)"
  shows "\<exists>s'. set_task_state task target s = Inr s' \<and> fresh_stream s'"
proof -
  obtain s1 where s1: "transition_task (tr_project_id task) (tr_id task) (tr_version task) target s = Inr s1"
    using transition_task_succeeds[OF get_task_keyed[OF assms(1,3)] refl assms(4) fresh_stream_draw[OF assms(2)]] by blast
  then show ?thesis
    using transition_fresh_stream[OF assms(2) s1] by (auto simp: set_task_state_def fresh_stream_def set_task_row_def)
qed

lemma fresh_stream_frame [simp]:
  "fresh_stream (release_lease t now s) = fresh_stream s" "fresh_stream (set_graph_state t st now s) = fresh_stream s"
  by (simp_all add: fresh_stream_def release_lease_def delete_lease_def release_reservations_def set_graph_state_def
      set_graph_row_def)

lemma apply_action_succeeds:
  assumes "keyed tr_id (tasks s)" "fresh_stream s" "task \<in> set (tasks s)"
    and "decide task run graph lease now = action" "action \<noteq> NOOP"
  shows "\<exists>s'. apply_action action task now' s = Inr s' \<and> fresh_stream s'"
proof (cases "task_after action (tr_state task) = tr_state task")
  case False
  obtain s1 where s1: "set_task_state task (task_after action (tr_state task)) s = Inr s1" "fresh_stream s1"
    using set_task_state_succeeds[OF assms(1-3) decided_transition_legal[OF assms(4,5) False]] by blast
  then show ?thesis using False by (cases action) (auto simp: apply_action_def)
next
  case True
  have "action = DOMAIN_TERMINAL_WINS \<or> action = QUARANTINE \<and> tr_state task \<in> TERMINAL_TASK_STATES"
    using True assms(4,5)
    by (cases "tr_state task")
      (auto simp: decide_def decide_running_def decide_terminal_def Let_def TERMINAL_TASK_STATES_def quarantine_target_def
        split: if_splits option.splits)
  then show ?thesis using assms(2) by (auto simp: apply_action_def)
qed

definition foreign :: "uuid \<Rightarrow> uuid \<Rightarrow> db \<Rightarrow> bool" where
  "foreign project_id task_id s = (case (get_task project_id task_id s, graph_of task_id s) of
     (Some task, Some g) \<Rightarrow> foreign_graph task (row_get rn_id (tr_run_id task) (runs s)) g
   | _ \<Rightarrow> False)"

lemma decide_settled:
  assumes "decide task run graph lease now = action" "action \<noteq> NOOP"
    and "tr_state task' = task_after action (tr_state task)" "same_task task' task"
    and "case graph of None \<Rightarrow> graph' = None
         | Some g \<Rightarrow> \<exists>g'. graph' = Some g' \<and> gx_state g' = graph_after action (gx_state g) \<and> same_identity g' g"
    and "action = GRAPH_TERMINAL_WINS \<Longrightarrow> \<not> (case graph of None \<Rightarrow> False | Some g \<Rightarrow> foreign_graph task run g)"
  shows "decide task' run graph' None now' = NOOP"
proof (cases graph)
  case None
  then have "graph' = None" using assms(5) by simp
  moreover have "action = REQUEUE_MISSING_CHECKPOINT"
    using assms(1,2) None
    by (auto simp: decide_def decide_running_def decide_terminal_def Let_def split: if_splits)
  ultimately show ?thesis using assms(3) by (simp add: decide_def Let_def TERMINAL_TASK_STATES_def)
next
  case (Some g)
  then obtain g' where g': "graph' = Some g'" "gx_state g' = graph_after action (gx_state g)" "same_identity g' g"
    using assms(5) by auto
  have same: "foreign_graph task' run g' = foreign_graph task run g"
    using g'(3) assms(4) by (simp add: foreign_graph_def same_identity_def same_task_def split: option.split)
  show ?thesis
    using assms(1,2,3,6) same
    by (cases "tr_state task"; cases "gx_state g")
      (auto simp: decide_def decide_running_def decide_terminal_def Let_def Some g' TERMINAL_TASK_STATES_def
        terminal_graphs_def quarantine_target_def split: if_splits option.splits)
qed

lemma reconcile_repairs:
  assumes task: "get_task project_id task_id s = Some task" and "keyed tr_id (tasks s)" and "fresh_stream s"
    and action: "action = decide task (row_get rn_id (tr_run_id task) (runs s)) (graph_of task_id s)
      (lease_of task_id s) (at_time now s)" "action \<noteq> NOOP"
  obtains s' where "reconcile project_id task_id now s = (Inr action, s')"
proof -
  obtain s1 where s1: "apply_action action task (at_time now s) s = Inr s1" "fresh_stream s1"
    using apply_action_succeeds[OF assms(2,3) get_task_Some(1)[OF task] action(1)[symmetric] action(2)] by blast
  obtain s' where "emit (''reconciliation.'' @ casefold (action_value action)) ''task'' task_id
         [(''action'', PText (action_value action)), (''task_id'', PId task_id),
          (''domain_state'', task_value task_id s1), (''graph_state'', graph_value task_id s1)]
         (tr_run_id task) ''reconciliation'' s1 = Inr s'"
    using emit_fresh[OF fresh_stream_draw[OF s1(2)]] by blast
  then have "reconcile project_id task_id now s = (Inr action, s')"
    using action(2) s1(1) by (simp add: reconcile_def commit_def reconcile_body_def decision_def task action(1)[symmetric])
  then show thesis by (rule that)
qed

lemma reconciled_effect:
  assumes run: "reconcile project_id task_id now s = (Inr action, s')" and "action \<noteq> NOOP"
  obtains task task' where "get_task project_id task_id s = Some task"
    "action = decide task (row_get rn_id (tr_run_id task) (runs s)) (graph_of task_id s) (lease_of task_id s) (at_time now s)"
    "get_task project_id task_id s' = Some task'" "tr_state task' = task_after action (tr_state task)" "same_task task' task"
    "case graph_of task_id s of None \<Rightarrow> graph_of task_id s' = None
     | Some g \<Rightarrow> \<exists>g'. graph_of task_id s' = Some g' \<and> gx_state g' = graph_after action (gx_state g) \<and> same_identity g' g"
    "lease_of task_id s' = None" "runs s' = runs s"
proof -
  have "reconcile_body project_id task_id (at_time now s) s = Inr (action, s')"
    using run by (auto simp: reconcile_def commit_def split: sum.splits)
  then show thesis
  proof (cases rule: reconcile_cases)
    case quiet
    then show thesis using assms(2) by simp
  next
    case (repaired task s1)
    have same: "get_task project_id task_id s' = get_task project_id task_id s1" "graph_of task_id s' = graph_of task_id s1"
      "lease_of task_id s' = lease_of task_id s1"
      using repaired(5,6,8) by (simp_all add: get_task_def graph_of_def lease_of_def)
    show thesis
      using apply_action_effect[OF repaired(1,4,2)] that[OF repaired(1,3), unfolded same repaired(9)] by blast
  qed
qed


definition sample_expired :: db where
  "sample_expired = sample_running\<lparr>graph_executions := [sample_graph\<lparr>gx_state := GraphExecutionState.RUNNING\<rparr>]\<rparr>"

lemma sample_expired_facts:
  "get_task 3 7 sample_expired = Some (sample_task\<lparr>tr_state := TaskStatus.RUNNING\<rparr>)"
  "keyed tr_id (tasks sample_expired)" "fresh_stream sample_expired"
  by (simp_all add: sample_expired_def sample_running_def get_task_def sample_task_def keyed_def)
    (rule fresh_stream_empty, simp_all add: sample_leased_def empty_db_def)

lemma sample_expired_action: "fst (reconcile 3 7 (Some 200) sample_expired) = Inr RESUME_CHECKPOINT"
  by code_simp


subsection \<open>The periodic scan\<close>

text \<open>
  Property C36: the scan for settled tasks is not the complement of the decision. Once
  \<open>DOMAIN_TERMINAL_WINS\<close> has cancelled the graph of a COMPLETED or FAILED task, the decision for
  this task is NOOP, but the scan keeps selecting it: \<open>reconcile\<close> changes nothing and the task
  occupies one of the \<open>limit\<close> places of every later cycle.
\<close>

theorem settled_scan_reselects_repaired_task:
  assumes "reconcile project_id task_id now s = (Inr DOMAIN_TERMINAL_WINS, s')"
    and "map_option tr_state (get_task project_id task_id s) \<in> {Some TaskStatus.COMPLETED, Some TaskStatus.FAILED}"
  shows "(\<exists>t \<in> set (settled_but_divergent s'). tr_id t = task_id) \<and>
    reconcile project_id task_id now' s' = (Inr NOOP, s')"
  using assms(1) ReconciliationAction.distinct(7)[symmetric]
proof (rule reconciled_effect)
  fix task task'
  assume *: "get_task project_id task_id s = Some task"
    "DOMAIN_TERMINAL_WINS = decide task (row_get rn_id (tr_run_id task) (runs s)) (graph_of task_id s) (lease_of task_id s) (at_time now s)"
    "get_task project_id task_id s' = Some task'" "tr_state task' = task_after DOMAIN_TERMINAL_WINS (tr_state task)"
    "same_task task' task"
    "case graph_of task_id s of None \<Rightarrow> graph_of task_id s' = None
     | Some g \<Rightarrow> \<exists>g'. graph_of task_id s' = Some g' \<and> gx_state g' = graph_after DOMAIN_TERMINAL_WINS (gx_state g) \<and> same_identity g' g"
    "lease_of task_id s' = None" "runs s' = runs s"
  have noop: "decide task' (row_get rn_id (tr_run_id task) (runs s)) (graph_of task_id s') None (at_time now' s') = NOOP"
    by (rule decide_settled[OF *(2)[symmetric] _ *(4,5,6)]) simp_all
  obtain g where g: "graph_of task_id s = Some g"
    using *(2) by (cases "graph_of task_id s")
      (auto simp: decide_def decide_running_def decide_terminal_def Let_def split: if_splits)
  then obtain g' where g': "graph_of task_id s' = Some g'" "gx_state g' = GraphExecutionState.CANCELLED" using *(6) by auto
  note row = get_task_Some[OF *(3)] and grow = row_get_Some[OF g'(1)[unfolded graph_of_def]]
  have "disagrees (tr_state task') (gx_state g')"
    using *(1,4) assms(2) g'(2) by (auto simp: disagrees_def)
  then have "task' \<in> set (settled_but_divergent s')"
    using row grow by (auto simp: settled_but_divergent_def filter_empty_conv)
  moreover have "reconcile project_id task_id now' s' = (Inr NOOP, s')"
    using *(3,5,7,8) noop by (simp add: reconcile_def commit_def reconcile_body_def decision_def same_task_def)
  ultimately show ?thesis using row(2) by blast
qed

definition sample_settled :: db where
  "sample_settled = sample_leased\<lparr>tasks := [sample_task\<lparr>tr_state := TaskStatus.COMPLETED\<rparr>], leases := [], reservations := [],
     graph_executions := [sample_graph\<lparr>gx_state := GraphExecutionState.RUNNING\<rparr>]\<rparr>"

lemma sample_settled_action: "fst (reconcile 3 7 None sample_settled) = Inr DOMAIN_TERMINAL_WINS"
  by code_simp

theorem settled_scan_reselects_repaired_task_witness:
  "\<exists>s'. reconcile 3 7 None sample_settled = (Inr DOMAIN_TERMINAL_WINS, s') \<and>
     (\<exists>t \<in> set (settled_but_divergent s'). tr_id t = 7) \<and> reconcile 3 7 None s' = (Inr NOOP, s')"
proof -
  obtain s' where run: "reconcile 3 7 None sample_settled = (Inr DOMAIN_TERMINAL_WINS, s')"
    using sample_settled_action by (metis prod.collapse)
  have "map_option tr_state (get_task 3 7 sample_settled) \<in> {Some TaskStatus.COMPLETED, Some TaskStatus.FAILED}"
    by (simp add: get_task_def sample_settled_def sample_task_def)
  from settled_scan_reselects_repaired_task[OF run this, of None] run show ?thesis by blast
qed

subsection \<open>The operator's exit\<close>

lemma set_task_state_illegal:
  assumes "target \<notin> TASK_TRANSITIONS (tr_state task)" "get_task (tr_project_id task) (tr_id task) s = Some task"
  shows "\<exists>e. set_task_state task target s = Inl e"
  using assms by (auto simp: set_task_state_def transition_task_def require_task_transition_def)

text \<open>
  Property C37: quarantining a LEASED task is a dead end. LEASED tasks cannot become BLOCKED, so
  \<open>reconcile\<close> cancels the task and parks its graph in NEEDS_RECONCILIATION; afterwards both
  resolutions of \<open>resolve_needs_reconciliation\<close>, the documented exit path, raise and change
  nothing.
\<close>

theorem quarantined_leased_task_has_no_exit:
  assumes "reconcile project_id task_id now s = (Inr QUARANTINE, s')"
    and "map_option tr_state (get_task project_id task_id s) = Some TaskStatus.LEASED"
  shows "map_option gx_state (graph_of task_id s') = Some NEEDS_RECONCILIATION \<and>
    (\<forall>res now'. \<exists>e. resolve_needs_reconciliation project_id task_id res now' s' = (Inl e, s'))"
  using assms(1) ReconciliationAction.distinct(11)[symmetric]
proof (rule reconciled_effect)
  fix task task'
  assume *: "get_task project_id task_id s = Some task"
    "QUARANTINE = decide task (row_get rn_id (tr_run_id task) (runs s)) (graph_of task_id s) (lease_of task_id s) (at_time now s)"
    "get_task project_id task_id s' = Some task'" "tr_state task' = task_after QUARANTINE (tr_state task)"
    "same_task task' task"
    "case graph_of task_id s of None \<Rightarrow> graph_of task_id s' = None
     | Some g \<Rightarrow> \<exists>g'. graph_of task_id s' = Some g' \<and> gx_state g' = graph_after QUARANTINE (gx_state g) \<and> same_identity g' g"
    "lease_of task_id s' = None" "runs s' = runs s"
  have cancelled: "tr_state task' = TaskStatus.CANCELLED"
    using *(1,4) assms(2) by (simp add: TERMINAL_TASK_STATES_def quarantine_target_def)
  obtain g where "graph_of task_id s = Some g"
    using *(2) by (cases "graph_of task_id s")
      (auto simp: decide_def decide_running_def decide_terminal_def Let_def split: if_splits)
  then obtain g' where g': "graph_of task_id s' = Some g'" "gx_state g' = NEEDS_RECONCILIATION" using *(6) by auto
  note row = get_task_Some[OF *(3)]
  have stuck: "\<exists>e. set_task_state task' target u = Inl e"
    if "tasks u = tasks s'" "target \<in> {TaskStatus.FAILED, TaskStatus.READY}" for u target
    by (rule set_task_state_illegal) (use that cancelled *(3) row in \<open>auto simp: get_task_def\<close>)
  have "\<exists>e. apply_resolution res task' g' s' = Inl e" for res
  proof (cases res)
    case Fail
    show ?thesis
      using stuck transition_graph_core cancelled
      by (cases "settle_graph (tr_id task') g' GraphExecutionState.FAILED s'")
        (auto simp: Fail apply_resolution_def settle_graph_def)
  next
    case Retry
    show ?thesis
      using stuck transition_graph_core
      by (cases "settle_graph (tr_id task') g' GraphExecutionState.CANCELLED s'")
        (auto simp: Retry apply_resolution_def settle_graph_def)
  qed
  then have "\<exists>e. resolve_needs_reconciliation project_id task_id res now' s' = (Inl e, s')" for res now'
    using *(3) g' by (auto simp: resolve_needs_reconciliation_def commit_def resolve_body_def bnd_def split: sum.splits) (metis sum.distinct(2))
  then show ?thesis using g' by simp
qed

definition sample_foreign :: db where
  "sample_foreign = sample_leased\<lparr>graph_executions :=
     [sample_graph\<lparr>gx_state := GraphExecutionState.RUNNING, gx_repository_id := 99\<rparr>]\<rparr>"

lemma sample_foreign_action: "fst (reconcile 3 7 None sample_foreign) = Inr QUARANTINE"
  by code_simp

theorem quarantined_leased_task_has_no_exit_witness:
  "\<exists>s'. reconcile 3 7 None sample_foreign = (Inr QUARANTINE, s') \<and>
     (\<exists>e. resolve_needs_reconciliation 3 7 Fail None s' = (Inl e, s')) \<and>
     (\<exists>e. resolve_needs_reconciliation 3 7 Retry None s' = (Inl e, s'))"
proof -
  obtain s' where run: "reconcile 3 7 None sample_foreign = (Inr QUARANTINE, s')"
    using sample_foreign_action by (metis prod.collapse)
  have "map_option tr_state (get_task 3 7 sample_foreign) = Some TaskStatus.LEASED"
    by (simp add: get_task_def sample_foreign_def sample_leased_def sample_task_def)
  from quarantined_leased_task_has_no_exit[OF run this] run show ?thesis by blast
qed

end
