(* ===== verification/Outbox.thy ===== *)
theory Outbox
  imports Store
begin

section \<open>The transactional outbox\<close>

text \<open>
  \<open>OutboxPublisher\<close> of \<open>src/messaging/outbox.py\<close>. Events are claimed in batches under a token and
  a claim deadline, handed to a transport, and marked published, rescheduled with exponential
  backoff, or parked as a dead letter. The transport is not part of the program: it is the
  parameter \<open>publish\<close>, a function on a world of any type that either returns a stream id or
  fails with the text of an exception. Transactions are serial; \<open>skip_locked\<close> needs no
  counterpart.
\<close>

subsection \<open>Operations\<close>

record ClaimedEvent =
  ce_event_id :: uuid
  ce_topic :: string
  ce_payload :: payload
  ce_attempt :: int
  ce_claim_token :: uuid

record OutboxPublisher =
  publisher_id :: string
  claim_ttl :: time
  retry_base :: time
  retry_max :: time
  publish_max_attempts :: int

definition claimable :: "time \<Rightarrow> OutboxRow \<Rightarrow> bool" where
  "claimable now row \<longleftrightarrow> ob_published_at row = None \<and> ob_dead_lettered_at row = None \<and>
     ob_next_attempt_at row \<le> now \<and>
     (case ob_claimed_until row of None \<Rightarrow> True | Some t \<Rightarrow> t \<le> now)"

definition claim_candidates :: "int \<Rightarrow> time \<Rightarrow> db \<Rightarrow> OutboxRow list" where
  "claim_candidates limit now s =
     take (nat limit) (sort_key (\<lambda>r. (ob_created_at r, ob_event_id r)) (filter (claimable now) (outbox s)))"

definition claim_event ::
  "OutboxPublisher \<Rightarrow> time \<Rightarrow> OutboxRow \<Rightarrow> ClaimedEvent list \<times> db \<Rightarrow> ClaimedEvent list \<times> db" where
  "claim_event pub now row = (\<lambda>(events, s).
     let (token, s1) = uuid4 s;
         s2 = s1\<lparr>outbox := row_update (\<lambda>r. ob_event_id r = ob_event_id row)
                (\<lambda>r. r\<lparr>ob_attempts := ob_attempts r + 1, ob_publisher := Some (publisher_id pub),
                       ob_claim_token := Some token, ob_claimed_until := Some (now + claim_ttl pub)\<rparr>) (outbox s1)\<rparr>
     in (events @ [\<lparr>ce_event_id = ob_event_id row, ce_topic = ob_topic row, ce_payload = ob_payload row,
                    ce_attempt = ob_attempts row + 1, ce_claim_token = token\<rparr>], s2))"

definition outbox_claim :: "OutboxPublisher \<Rightarrow> int \<Rightarrow> time \<Rightarrow> db \<Rightarrow> ClaimedEvent list \<times> db" where
  "outbox_claim pub limit now s =
     (if limit < 1 then ([], s) else fold (claim_event pub now) (claim_candidates limit now s) ([], s))"

definition holds_claim :: "ClaimedEvent \<Rightarrow> OutboxRow \<Rightarrow> bool" where
  "holds_claim event row \<longleftrightarrow> ob_event_id row = ce_event_id event \<and> ob_claim_token row = Some (ce_claim_token event)"

text \<open>\<open>publisher=None, claim_token=None, claimed_until=None\<close>.\<close>

definition unclaimed :: "OutboxRow \<Rightarrow> OutboxRow" where
  "unclaimed r = r\<lparr>ob_publisher := None, ob_claim_token := None, ob_claimed_until := None\<rparr>"

definition mark_published :: "ClaimedEvent \<Rightarrow> time \<Rightarrow> db \<Rightarrow> bool \<times> db" where
  "mark_published event now s =
     (let hit = (\<lambda>r. holds_claim event r \<and> ob_published_at r = None)
      in (list_ex hit (outbox s),
          s\<lparr>outbox := row_update hit
              (\<lambda>r. unclaimed (r\<lparr>ob_published_at := Some now, ob_last_error := None\<rparr>)) (outbox s)\<rparr>))"

definition insert_dead_letter :: "DeadLetterRow \<Rightarrow> db \<Rightarrow> db" where
  "insert_dead_letter row s =
     (if (dd_consumer row, dd_event_id row) \<in> (\<lambda>d. (dd_consumer d, dd_event_id d)) ` set (dead_letters s)
      then s else s\<lparr>dead_letters := dead_letters s @ [row]\<rparr>)"

definition dead_letter :: "OutboxPublisher \<Rightarrow> ClaimedEvent \<Rightarrow> string \<Rightarrow> time \<Rightarrow> db \<Rightarrow> db" where
  "dead_letter pub event err now s =
     insert_dead_letter
       \<lparr>dd_event_id = ce_event_id event, dd_consumer = ''outbox:'' @ publisher_id pub, dd_topic = ce_topic event,
        dd_payload = ce_payload event, dd_attempts = ce_attempt event, dd_last_error = clip 20000 err,
        dd_causation_chain = [ce_event_id event], dd_created_at = now, dd_resolved_at = None\<rparr>
       (s\<lparr>outbox := row_update (holds_claim event)
            (\<lambda>r. unclaimed (r\<lparr>ob_dead_lettered_at := Some now, ob_last_error := Some (clip 20000 err)\<rparr>)) (outbox s)\<rparr>)"

definition retry_delay :: "OutboxPublisher \<Rightarrow> int \<Rightarrow> time" where
  "retry_delay pub attempt = min (retry_base pub * 2 ^ nat (max 0 (attempt - 1))) (retry_max pub)"

definition mark_failed :: "OutboxPublisher \<Rightarrow> ClaimedEvent \<Rightarrow> string \<Rightarrow> time \<Rightarrow> db \<Rightarrow> bool \<times> db" where
  "mark_failed pub event err now s =
     (if ce_attempt event \<ge> publish_max_attempts pub then (False, dead_letter pub event err now s)
      else (list_ex (holds_claim event) (outbox s),
            s\<lparr>outbox := row_update (holds_claim event)
                (\<lambda>r. unclaimed (r\<lparr>ob_next_attempt_at := now + retry_delay pub (ce_attempt event),
                   ob_last_error := Some (clip 20000 err)\<rparr>)) (outbox s)\<rparr>))"

fun publish_each ::
  "(string \<Rightarrow> uuid \<Rightarrow> payload \<Rightarrow> 'w \<Rightarrow> (string + string) \<times> 'w) \<Rightarrow> OutboxPublisher \<Rightarrow> ClaimedEvent list \<Rightarrow> time
     \<Rightarrow> int \<Rightarrow> 'w \<times> db \<Rightarrow> int \<times> 'w \<times> db" where
  "publish_each publish pub [] now published (w, s) = (published, w, s)"
| "publish_each publish pub (event # events) now published (w, s) =
     (case publish (ce_topic event) (ce_event_id event) (ce_payload event) w of
        (Inl err, w') \<Rightarrow> publish_each publish pub events now published (w', snd (mark_failed pub event err now s))
      | (Inr _, w') \<Rightarrow>
          (case mark_published event now s of
             (marked, s') \<Rightarrow> publish_each publish pub events now (if marked then published + 1 else published) (w', s')))"

definition publish_batch ::
  "(string \<Rightarrow> uuid \<Rightarrow> payload \<Rightarrow> 'w \<Rightarrow> (string + string) \<times> 'w) \<Rightarrow> OutboxPublisher \<Rightarrow> int \<Rightarrow> time option
     \<Rightarrow> 'w \<times> db \<Rightarrow> int \<times> 'w \<times> db" where
  "publish_batch publish pub limit now = (\<lambda>(w, s).
     let timestamp = (case now of None \<Rightarrow> utc_now s | Some t \<Rightarrow> t);
         (claimed, s1) = outbox_claim pub limit timestamp s
     in publish_each publish pub claimed timestamp 0 (w, s1))"

definition requeue :: "uuid \<Rightarrow> time option \<Rightarrow> db \<Rightarrow> bool \<times> db" where
  "requeue event_id now s =
     (let timestamp = (case now of None \<Rightarrow> utc_now s | Some t \<Rightarrow> t)
      in (list_ex (\<lambda>r. ob_event_id r = event_id) (outbox s),
          s\<lparr>outbox := row_update (\<lambda>r. ob_event_id r = event_id)
              (\<lambda>r. unclaimed (r\<lparr>ob_published_at := None, ob_next_attempt_at := timestamp\<rparr>)) (outbox s)\<rparr>))"

subsection \<open>Claims\<close>

lemma unclaimed_simps [simp]:
  "ob_event_id (unclaimed r) = ob_event_id r" "ob_published_at (unclaimed r) = ob_published_at r"
  "ob_dead_lettered_at (unclaimed r) = ob_dead_lettered_at r" "ob_payload (unclaimed r) = ob_payload r"
  "ob_topic (unclaimed r) = ob_topic r" "ob_attempts (unclaimed r) = ob_attempts r"
  "ob_next_attempt_at (unclaimed r) = ob_next_attempt_at r" "ob_claimed_until (unclaimed r) = None"
  "ob_claim_token (unclaimed r) = None" "ob_created_at (unclaimed r) = ob_created_at r"
  by (simp_all add: unclaimed_def)

text \<open>What a run of \<open>claim_event\<close> over distinct rows does to the table.\<close>

lemma claim_fold:
  assumes "distinct (map ob_event_id rows)"
  shows "\<exists>stamp. snd (fold (claim_event pub now) rows (events, s)) =
      s\<lparr>db_drawn := db_drawn s + length rows, outbox := map (\<lambda>r. if ob_event_id r \<in> ob_event_id ` set rows
         then r\<lparr>ob_attempts := ob_attempts r + 1, ob_publisher := Some (publisher_id pub),
                ob_claim_token := Some (stamp (ob_event_id r)), ob_claimed_until := Some (now + claim_ttl pub)\<rparr>
         else r) (outbox s)\<rparr> \<and>
    fst (fold (claim_event pub now) rows (events, s)) =
      events @ map (\<lambda>r. \<lparr>ce_event_id = ob_event_id r, ce_topic = ob_topic r, ce_payload = ob_payload r,
        ce_attempt = ob_attempts r + 1, ce_claim_token = stamp (ob_event_id r)\<rparr>) rows"
  using assms
proof (induction rows arbitrary: events s)
  case Nil
  then show ?case by simp
next
  case (Cons x rows)
  let ?token = "db_entropy s (db_drawn s)"
  obtain events1 s1 where one: "claim_event pub now x (events, s) = (events1, s1)" by fastforce
  obtain stamp where stamp: "snd (fold (claim_event pub now) rows (events1, s1)) =
      s1\<lparr>db_drawn := db_drawn s1 + length rows, outbox := map (\<lambda>r. if ob_event_id r \<in> ob_event_id ` set rows
         then r\<lparr>ob_attempts := ob_attempts r + 1, ob_publisher := Some (publisher_id pub),
                ob_claim_token := Some (stamp (ob_event_id r)), ob_claimed_until := Some (now + claim_ttl pub)\<rparr>
         else r) (outbox s1)\<rparr>"
    "fst (fold (claim_event pub now) rows (events1, s1)) =
      events1 @ map (\<lambda>r. \<lparr>ce_event_id = ob_event_id r, ce_topic = ob_topic r, ce_payload = ob_payload r,
        ce_attempt = ob_attempts r + 1, ce_claim_token = stamp (ob_event_id r)\<rparr>) rows"
    using Cons.IH[of events1 s1] Cons.prems by auto
  let ?stamp = "stamp(ob_event_id x := ?token)"
  have fold: "fold (claim_event pub now) (x # rows) (events, s) = fold (claim_event pub now) rows (events1, s1)"
    by (simp add: one)
  have first: "events1 = events @ [\<lparr>ce_event_id = ob_event_id x, ce_topic = ob_topic x, ce_payload = ob_payload x,
        ce_attempt = ob_attempts x + 1, ce_claim_token = ?token\<rparr>]"
    "s1 = s\<lparr>db_drawn := Suc (db_drawn s), outbox := row_update (\<lambda>r. ob_event_id r = ob_event_id x)
        (\<lambda>r. r\<lparr>ob_attempts := ob_attempts r + 1, ob_publisher := Some (publisher_id pub),
               ob_claim_token := Some ?token, ob_claimed_until := Some (now + claim_ttl pub)\<rparr>) (outbox s)\<rparr>"
    using one by (auto simp: claim_event_def uuid4_def)
  have new: "ob_event_id x \<notin> ob_event_id ` set rows" using Cons.prems by simp
  then have other: "ob_event_id r \<noteq> ob_event_id x" if "r \<in> set rows" for r using that by (metis image_eqI)
  show ?case
    unfolding fold stamp
    by (rule exI[of _ ?stamp], use new other in \<open>auto simp: first row_update_def\<close>)
qed

lemma claim_candidates_facts:
  assumes "keyed ob_event_id (outbox s)"
  shows "distinct (map ob_event_id (claim_candidates limit now s))"
    "r \<in> set (claim_candidates limit now s) \<Longrightarrow> r \<in> set (outbox s) \<and> claimable now r"
proof -
  have "distinct (map ob_event_id (filter (claimable now) (outbox s)))"
    using assms by (simp add: keyed_def distinct_map_filter)
  then show "distinct (map ob_event_id (claim_candidates limit now s))"
    unfolding claim_candidates_def by (simp add: distinct_map inj_on_def take_map[symmetric] distinct_take)
  show "r \<in> set (claim_candidates limit now s) \<Longrightarrow> r \<in> set (outbox s) \<and> claimable now r"
    by (auto simp: claim_candidates_def dest: in_set_takeD)
qed

lemma outbox_claim_effect:
  assumes "keyed ob_event_id (outbox s)" "outbox_claim pub limit now s = (events, s')"
  obtains stamp where
    "outbox s' = map (\<lambda>r. if ob_event_id r \<in> ce_event_id ` set events
       then r\<lparr>ob_attempts := ob_attempts r + 1, ob_publisher := Some (publisher_id pub),
              ob_claim_token := Some (stamp (ob_event_id r)), ob_claimed_until := Some (now + claim_ttl pub)\<rparr>
       else r) (outbox s)"
    "\<forall>e \<in> set events. \<exists>r \<in> set (outbox s). claimable now r \<and> ob_event_id r = ce_event_id e \<and>
       ce_attempt e = ob_attempts r + 1 \<and> ce_claim_token e = stamp (ce_event_id e) \<and>
       ce_topic e = ob_topic r \<and> ce_payload e = ob_payload r"
    "distinct (map ce_event_id events)" "dead_letters s' = dead_letters s"
proof (cases "limit < 1")
  case True
  then show thesis using assms(2) by (intro that[of "\<lambda>_. 0"]) (simp_all add: outbox_claim_def)
next
  case False
  let ?rows = "claim_candidates limit now s"
  note facts = claim_candidates_facts[OF assms(1), where limit = limit and now = now]
  obtain stamp where stamp: "snd (fold (claim_event pub now) ?rows ([], s)) =
      s\<lparr>db_drawn := db_drawn s + length ?rows, outbox := map (\<lambda>r. if ob_event_id r \<in> ob_event_id ` set ?rows
         then r\<lparr>ob_attempts := ob_attempts r + 1, ob_publisher := Some (publisher_id pub),
                ob_claim_token := Some (stamp (ob_event_id r)), ob_claimed_until := Some (now + claim_ttl pub)\<rparr>
         else r) (outbox s)\<rparr>"
    "fst (fold (claim_event pub now) ?rows ([], s)) =
      [] @ map (\<lambda>r. \<lparr>ce_event_id = ob_event_id r, ce_topic = ob_topic r, ce_payload = ob_payload r,
        ce_attempt = ob_attempts r + 1, ce_claim_token = stamp (ob_event_id r)\<rparr>) ?rows"
    using claim_fold[OF facts(1)] by blast
  have run: "fold (claim_event pub now) ?rows ([], s) = (events, s')" using assms(2) False by (simp add: outbox_claim_def)
  have events: "events = map (\<lambda>r. \<lparr>ce_event_id = ob_event_id r, ce_topic = ob_topic r, ce_payload = ob_payload r,
        ce_attempt = ob_attempts r + 1, ce_claim_token = stamp (ob_event_id r)\<rparr>) ?rows"
    using stamp(2) run by simp
  have ids: "ce_event_id ` set events = ob_event_id ` set ?rows" by (force simp: events)
  have s': "s' = s\<lparr>db_drawn := db_drawn s + length ?rows, outbox := map (\<lambda>r. if ob_event_id r \<in> ce_event_id ` set events
         then r\<lparr>ob_attempts := ob_attempts r + 1, ob_publisher := Some (publisher_id pub),
                ob_claim_token := Some (stamp (ob_event_id r)), ob_claimed_until := Some (now + claim_ttl pub)\<rparr>
         else r) (outbox s)\<rparr>"
    using stamp(1) run unfolding ids by simp
  show thesis
  proof (rule that[of stamp])
    show "\<forall>e \<in> set events. \<exists>r \<in> set (outbox s). claimable now r \<and> ob_event_id r = ce_event_id e \<and>
       ce_attempt e = ob_attempts r + 1 \<and> ce_claim_token e = stamp (ce_event_id e) \<and>
       ce_topic e = ob_topic r \<and> ce_payload e = ob_payload r"
      unfolding events using facts(2) by fastforce
    show "distinct (map ce_event_id events)" using facts(1) by (simp add: events comp_def)
  qed (simp_all add: s')
qed


definition sample_publisher :: OutboxPublisher where
  "sample_publisher = \<lparr>publisher_id = ''p'', claim_ttl = 30, retry_base = 1, retry_max = 300, publish_max_attempts = 8\<rparr>"

definition sample_event :: "uuid \<Rightarrow> string \<Rightarrow> int \<Rightarrow> OutboxRow" where
  "sample_event event_id topic attempts =
     \<lparr>ob_event_id = event_id, ob_topic = topic, ob_payload = [], ob_attempts = attempts, ob_next_attempt_at = 10,
      ob_published_at = None, ob_dead_lettered_at = None, ob_last_error = None, ob_publisher = None,
      ob_claim_token = None, ob_claimed_until = None, ob_created_at = 10\<rparr>"

definition sample_outbox :: db where
  "sample_outbox = empty_db\<lparr>outbox := [sample_event 4 ''up'' 0, sample_event 5 ''down'' 0, sample_event 6 ''down'' 7]\<rparr>"


subsection \<open>The lifecycle an event goes through\<close>

text \<open>
  The contract of the outbox, with the table abstracted to the state of each event: an event waits
  until it is due, is in flight under a token until a deadline, and ends sent or parked. The number is
  that of the attempts made so far.
\<close>

datatype lifecycle =
    Waiting int time
  | InFlight int time uuid time
  | Sent int time
  | Parked int time

definition lifecycle_of :: "OutboxRow \<Rightarrow> lifecycle" where
  "lifecycle_of r =
     (case ob_dead_lettered_at r of Some t \<Rightarrow> Parked (ob_attempts r) t
      | None \<Rightarrow> (case ob_published_at r of Some t \<Rightarrow> Sent (ob_attempts r) t
      | None \<Rightarrow> (case (ob_claim_token r, ob_claimed_until r) of
                 (Some k, Some until) \<Rightarrow> InFlight (ob_attempts r) (ob_next_attempt_at r) k until
               | _ \<Rightarrow> Waiting (ob_attempts r) (ob_next_attempt_at r))))"

definition outbox_view :: "db \<Rightarrow> uuid \<Rightarrow> lifecycle option" where
  "outbox_view s event_id = map_option lifecycle_of (row_get ob_event_id event_id (outbox s))"

definition tries :: "lifecycle \<Rightarrow> int" where
  "tries l = (case l of Waiting a _ \<Rightarrow> a | InFlight a _ _ _ \<Rightarrow> a | Sent a _ \<Rightarrow> a | Parked a _ \<Rightarrow> a)"

definition is_due :: "time \<Rightarrow> lifecycle \<Rightarrow> bool" where
  "is_due now l = (case l of Waiting _ d \<Rightarrow> d \<le> now | InFlight _ d _ until \<Rightarrow> d \<le> now \<and> until \<le> now | _ \<Rightarrow> False)"

text \<open>The abstract operations: only the holder of the current token settles an event in flight.\<close>

definition settle :: "uuid \<Rightarrow> (int \<Rightarrow> lifecycle) \<Rightarrow> lifecycle \<Rightarrow> lifecycle" where
  "settle token target l = (case l of InFlight a d k until \<Rightarrow> if k = token then target a else l | _ \<Rightarrow> l)"

definition failed_lifecycle :: "OutboxPublisher \<Rightarrow> int \<Rightarrow> time \<Rightarrow> int \<Rightarrow> lifecycle" where
  "failed_lifecycle pub attempt now a =
     (if attempt \<ge> publish_max_attempts pub then Parked a now else Waiting a (now + retry_delay pub attempt))"

definition requeued :: "time \<Rightarrow> lifecycle \<Rightarrow> lifecycle" where
  "requeued now l = (case l of Waiting a _ \<Rightarrow> Waiting a now | InFlight a _ _ _ \<Rightarrow> Waiting a now
     | Sent a _ \<Rightarrow> Waiting a now | Parked a t \<Rightarrow> Parked a t)"

text \<open>
  The invariant of the table: a claim token and its deadline come and go together, a finished event
  holds no claim, and no event is both published and dead.
\<close>

definition outbox_row_ok :: "OutboxRow \<Rightarrow> bool" where
  "outbox_row_ok r \<longleftrightarrow> (ob_claim_token r = None \<longleftrightarrow> ob_claimed_until r = None) \<and>
     (ob_published_at r \<noteq> None \<or> ob_dead_lettered_at r \<noteq> None \<longrightarrow> ob_claim_token r = None) \<and>
     (ob_published_at r = None \<or> ob_dead_lettered_at r = None)"

definition outbox_ok :: "db \<Rightarrow> bool" where
  "outbox_ok s \<longleftrightarrow> keyed ob_event_id (outbox s) \<and> list_all outbox_row_ok (outbox s)"

lemma outbox_ok_update:
  assumes "outbox_ok s" and "\<And>r. p r \<Longrightarrow> ob_event_id (f r) = ob_event_id r"
    and "\<And>r. r \<in> set (outbox s) \<Longrightarrow> p r \<Longrightarrow> outbox_row_ok r \<Longrightarrow> outbox_row_ok (f r)"
  shows "outbox_ok (s\<lparr>outbox := row_update p f (outbox s)\<rparr>)"
  using assms by (auto simp: outbox_ok_def list_all_iff set_row_update)

lemma outbox_view_update:
  assumes "\<And>r. p r \<Longrightarrow> ob_event_id (f r) = ob_event_id r" and "outbox_ok s"
    and "\<And>r. outbox_row_ok r \<Longrightarrow> ob_event_id r = event_id \<Longrightarrow>
           lifecycle_of (if p r then f r else r) = g (lifecycle_of r)"
  shows "outbox_view (s\<lparr>outbox := row_update p f (outbox s)\<rparr>) event_id = map_option g (outbox_view s event_id)"
proof -
  have get: "row_get ob_event_id event_id (row_update p f (outbox s)) =
      map_option (\<lambda>r. if p r then f r else r) (row_get ob_event_id event_id (outbox s))"
    by (rule row_get_update) (rule assms(1))
  show ?thesis
  proof (cases "row_get ob_event_id event_id (outbox s)")
    case None
    then show ?thesis by (simp add: outbox_view_def get)
  next
    case (Some r)
    then have "outbox_row_ok r" "ob_event_id r = event_id"
      using assms(2) row_get_Some[OF Some] by (auto simp: outbox_ok_def list_all_iff)
    then show ?thesis using assms(3)[of r] Some by (simp add: outbox_view_def get)
  qed
qed

lemmas lifecycle_defs = lifecycle_of_def outbox_row_ok_def settle_def holds_claim_def unclaimed_def

lemma outbox_view_dead_letters [simp]:
  "outbox_view (s\<lparr>dead_letters := d\<rparr>) = outbox_view s" "outbox_ok (s\<lparr>dead_letters := d\<rparr>) = outbox_ok s"
  by (simp_all add: outbox_view_def outbox_ok_def fun_eq_iff)

lemma insert_dead_letter_view [simp]:
  "outbox_view (insert_dead_letter row s) = outbox_view s" "outbox_ok (insert_dead_letter row s) = outbox_ok s"
  by (simp_all add: insert_dead_letter_def)

lemma mark_published_refines:
  assumes "outbox_ok s" and "mark_published event now s = (marked, s')"
  shows "outbox_ok s'"
    "outbox_view s' event_id = (if event_id = ce_event_id event
       then map_option (settle (ce_claim_token event) (\<lambda>a. Sent a now)) (outbox_view s event_id)
       else outbox_view s event_id)"
    "marked \<longleftrightarrow> (\<exists>a d until. outbox_view s (ce_event_id event) = Some (InFlight a d (ce_claim_token event) until))"
proof -
  let ?hit = "\<lambda>r. holds_claim event r \<and> ob_published_at r = None"
  have s': "s' = s\<lparr>outbox := row_update ?hit
      (\<lambda>r. unclaimed (r\<lparr>ob_published_at := Some now, ob_last_error := None\<rparr>)) (outbox s)\<rparr>"
    and marked: "marked \<longleftrightarrow> list_ex ?hit (outbox s)"
    using assms(2) by (auto simp: mark_published_def Let_def)
  show "outbox_ok s'" unfolding s'
    by (rule outbox_ok_update[OF assms(1)]) (auto simp: outbox_row_ok_def holds_claim_def)
  show "outbox_view s' event_id = (if event_id = ce_event_id event
       then map_option (settle (ce_claim_token event) (\<lambda>a. Sent a now)) (outbox_view s event_id)
       else outbox_view s event_id)"
  proof (cases "event_id = ce_event_id event")
    case True
    have "outbox_view s' event_id = map_option (settle (ce_claim_token event) (\<lambda>a. Sent a now)) (outbox_view s event_id)"
      unfolding s' by (rule outbox_view_update[OF _ assms(1)]) (auto simp: lifecycle_defs True split: option.splits)
    then show ?thesis using True by simp
  next
    case False
    have "outbox_view s' event_id = map_option (\<lambda>l. l) (outbox_view s event_id)"
      unfolding s' by (rule outbox_view_update[OF _ assms(1)]) (auto simp: holds_claim_def False)
    then show ?thesis using False by (simp add: option.map_ident)
  qed
  show "marked \<longleftrightarrow> (\<exists>a d until. outbox_view s (ce_event_id event) = Some (InFlight a d (ce_claim_token event) until))"
  proof
    assume marked
    then obtain r where r: "r \<in> set (outbox s)" "holds_claim event r" "ob_published_at r = None"
      by (auto simp: marked list_ex_iff)
    then have "row_get ob_event_id (ce_event_id event) (outbox s) = Some r" "outbox_row_ok r"
      using assms(1) keyed_row_get[of ob_event_id "outbox s" r] by (auto simp: outbox_ok_def holds_claim_def list_all_iff)
    then show "\<exists>a d until. outbox_view s (ce_event_id event) = Some (InFlight a d (ce_claim_token event) until)"
      using r(2,3) by (auto simp: outbox_view_def lifecycle_defs split: option.splits)
  next
    assume "\<exists>a d until. outbox_view s (ce_event_id event) = Some (InFlight a d (ce_claim_token event) until)"
    then obtain r where "row_get ob_event_id (ce_event_id event) (outbox s) = Some r"
      "ob_claim_token r = Some (ce_claim_token event)" "ob_published_at r = None"
      by (auto simp: outbox_view_def lifecycle_of_def split: option.splits)
    then show marked using row_get_Some[of ob_event_id _ "outbox s" r]
      by (auto simp: marked list_ex_iff holds_claim_def)
  qed
qed

lemma dead_letter_recorded:
  "\<exists>d \<in> set (dead_letters (dead_letter pub event err now s)).
     dd_consumer d = ''outbox:'' @ publisher_id pub \<and> dd_event_id d = ce_event_id event"
  "set (dead_letters s) \<subseteq> set (dead_letters (dead_letter pub event err now s))"
  by (auto simp: dead_letter_def insert_dead_letter_def)

lemma mark_failed_refines:
  assumes "outbox_ok s" and "mark_failed pub event err now s = (r, s')"
  shows "outbox_ok s'"
    "outbox_view s' event_id = (if event_id = ce_event_id event
       then map_option (settle (ce_claim_token event) (failed_lifecycle pub (ce_attempt event) now)) (outbox_view s event_id)
       else outbox_view s event_id)"
    "set (dead_letters s) \<subseteq> set (dead_letters s')"
proof -
  let ?f = "\<lambda>r. if ce_attempt event \<ge> publish_max_attempts pub
      then unclaimed (r\<lparr>ob_dead_lettered_at := Some now, ob_last_error := Some (clip 20000 err)\<rparr>)
      else unclaimed (r\<lparr>ob_next_attempt_at := now + retry_delay pub (ce_attempt event),
                         ob_last_error := Some (clip 20000 err)\<rparr>)"
  let ?t = "s\<lparr>outbox := row_update (holds_claim event) ?f (outbox s)\<rparr>"
  have s': "outbox_ok s' = outbox_ok ?t" "outbox_view s' = outbox_view ?t"
    using assms(2) by (auto simp: mark_failed_def dead_letter_def split: if_splits)
  show "outbox_ok s'" unfolding s'
    by (rule outbox_ok_update[OF assms(1)]) (auto simp: outbox_row_ok_def holds_claim_def)
  show "outbox_view s' event_id = (if event_id = ce_event_id event
       then map_option (settle (ce_claim_token event) (failed_lifecycle pub (ce_attempt event) now)) (outbox_view s event_id)
       else outbox_view s event_id)"
  proof (cases "event_id = ce_event_id event")
    case True
    have "outbox_view s' event_id =
        map_option (settle (ce_claim_token event) (failed_lifecycle pub (ce_attempt event) now)) (outbox_view s event_id)"
      unfolding s'
      by (rule outbox_view_update[OF _ assms(1)])
        (auto simp: lifecycle_defs failed_lifecycle_def True split: option.splits if_splits)
    then show ?thesis using True by simp
  next
    case False
    have "outbox_view s' event_id = map_option (\<lambda>l. l) (outbox_view s event_id)"
      unfolding s' by (rule outbox_view_update[OF _ assms(1)]) (auto simp: holds_claim_def False)
    then show ?thesis using False by (simp add: option.map_ident)
  qed
  show "set (dead_letters s) \<subseteq> set (dead_letters s')"
    using assms(2) dead_letter_recorded(2)[of s pub event err now] by (auto simp: mark_failed_def split: if_splits)
qed

lemma requeue_refines:
  assumes "outbox_ok s" and "requeue event_id (Some now) s = (found, s')"
  shows "outbox_ok s'"
    "outbox_view s' other = (if other = event_id then map_option (requeued now) (outbox_view s other)
       else outbox_view s other)"
    "found \<longleftrightarrow> outbox_view s event_id \<noteq> None"
proof -
  let ?f = "\<lambda>r. unclaimed (r\<lparr>ob_published_at := None, ob_next_attempt_at := now\<rparr>)"
  have s': "s' = s\<lparr>outbox := row_update (\<lambda>r. ob_event_id r = event_id) ?f (outbox s)\<rparr>"
    and found: "found \<longleftrightarrow> list_ex (\<lambda>r. ob_event_id r = event_id) (outbox s)"
    using assms(2) by (auto simp: requeue_def Let_def)
  show "outbox_ok s'" unfolding s'
    by (rule outbox_ok_update[OF assms(1)]) (auto simp: outbox_row_ok_def)
  show "outbox_view s' other = (if other = event_id then map_option (requeued now) (outbox_view s other)
       else outbox_view s other)"
  proof (cases "other = event_id")
    case True
    have "outbox_view s' other = map_option (requeued now) (outbox_view s other)"
      unfolding s'
      by (rule outbox_view_update[OF _ assms(1)]) (auto simp: lifecycle_defs requeued_def True split: option.splits)
    then show ?thesis using True by simp
  next
    case False
    have "outbox_view s' other = map_option (\<lambda>l. l) (outbox_view s other)"
      unfolding s' by (rule outbox_view_update[OF _ assms(1)]) (auto simp: False)
    then show ?thesis using False by (simp add: option.map_ident)
  qed
  show "found \<longleftrightarrow> outbox_view s event_id \<noteq> None"
    by (auto simp: found outbox_view_def list_ex_iff row_get_None)
qed

lemma due_iff_claimable: "outbox_row_ok r \<Longrightarrow> is_due now (lifecycle_of r) \<longleftrightarrow> claimable now r"
  by (auto simp: is_due_def lifecycle_defs claimable_def split: option.splits)

text \<open>Claiming moves due events, and only those, in flight.\<close>

lemma outbox_claim_refines:
  assumes "outbox_ok s" and "outbox_claim pub limit now s = (events, s')"
  shows "outbox_ok s'" "dead_letters s' = dead_letters s" "distinct (map ce_event_id events)"
    "event_id \<notin> ce_event_id ` set events \<Longrightarrow> outbox_view s' event_id = outbox_view s event_id"
    "e \<in> set events \<Longrightarrow> \<exists>l d. outbox_view s (ce_event_id e) = Some l \<and> is_due now l \<and> ce_attempt e = tries l + 1 \<and>
       outbox_view s' (ce_event_id e) = Some (InFlight (ce_attempt e) d (ce_claim_token e) (now + claim_ttl pub))"
proof -
  have keyed: "keyed ob_event_id (outbox s)" using assms(1) by (simp add: outbox_ok_def)
  obtain stamp where
    out: "outbox s' = map (\<lambda>r. if ob_event_id r \<in> ce_event_id ` set events
       then r\<lparr>ob_attempts := ob_attempts r + 1, ob_publisher := Some (publisher_id pub),
              ob_claim_token := Some (stamp (ob_event_id r)), ob_claimed_until := Some (now + claim_ttl pub)\<rparr>
       else r) (outbox s)" (is "_ = map ?f (outbox s)") and
    origin: "\<forall>e \<in> set events. \<exists>r \<in> set (outbox s). claimable now r \<and> ob_event_id r = ce_event_id e \<and>
       ce_attempt e = ob_attempts r + 1 \<and> ce_claim_token e = stamp (ce_event_id e) \<and>
       ce_topic e = ob_topic r \<and> ce_payload e = ob_payload r" and
    rest: "distinct (map ce_event_id events)" "dead_letters s' = dead_letters s"
    by (rule outbox_claim_effect[OF keyed assms(2)])
  show "distinct (map ce_event_id events)" "dead_letters s' = dead_letters s" by (fact rest)+
  have free: "claimable now r" if "r \<in> set (outbox s)" "ob_event_id r \<in> ce_event_id ` set events" for r
  proof -
    from that(2) obtain e where e: "e \<in> set events" "ob_event_id r = ce_event_id e" by auto
    then obtain r' where "r' \<in> set (outbox s)" "claimable now r'" "ob_event_id r' = ob_event_id r" using origin by metis
    then show ?thesis using keyed_unique[OF keyed _ that(1)] by metis
  qed
  have "keyed ob_event_id (outbox s')" using keyed by (simp add: keyed_def out comp_def if_distrib cong: if_cong)
  moreover have "outbox_row_ok (?f r)" if "r \<in> set (outbox s)" for r
    using that assms(1) free[OF that] by (auto simp: outbox_ok_def list_all_iff outbox_row_ok_def claimable_def)
  then have "list_all outbox_row_ok (outbox s')" unfolding out list_all_iff set_map
    by (intro ballI) (elim imageE, simp only:)
  ultimately show "outbox_ok s'" by (simp add: outbox_ok_def)
  have get: "row_get ob_event_id k (outbox s') = map_option ?f (row_get ob_event_id k (outbox s))" for k
  proof -
    have "row_get ob_event_id k (map ?f rows) = map_option ?f (row_get ob_event_id k rows)" for rows
      by (induction rows) auto
    then show ?thesis by (simp only: out)
  qed
  show "event_id \<notin> ce_event_id ` set events \<Longrightarrow> outbox_view s' event_id = outbox_view s event_id"
    by (cases "row_get ob_event_id event_id (outbox s)")
      (auto simp: outbox_view_def get dest: row_get_Some(2))
  assume e: "e \<in> set events"
  then obtain r where r: "r \<in> set (outbox s)" "claimable now r" "ob_event_id r = ce_event_id e"
    "ce_attempt e = ob_attempts r + 1" "ce_claim_token e = stamp (ce_event_id e)" using origin by metis
  have row: "row_get ob_event_id (ce_event_id e) (outbox s) = Some r" using keyed_row_get[OF keyed r(1)] r(3) by simp
  have "is_due now (lifecycle_of r)" using due_iff_claimable[of r now] assms(1) r by (simp add: outbox_ok_def list_all_iff)
  moreover have "tries (lifecycle_of r) = ob_attempts r"
    by (simp add: tries_def lifecycle_of_def split: option.splits)
  moreover have "ob_event_id r \<in> ce_event_id ` set events" using e r(3) by simp
  ultimately show "\<exists>l d. outbox_view s (ce_event_id e) = Some l \<and> is_due now l \<and> ce_attempt e = tries l + 1 \<and>
       outbox_view s' (ce_event_id e) = Some (InFlight (ce_attempt e) d (ce_claim_token e) (now + claim_ttl pub))"
    using r by (auto simp: outbox_view_def get row lifecycle_of_def claimable_def)
qed

text \<open>One event of a round: the transport's answer decides how its claim is settled.\<close>

lemma publish_each_step:
  assumes "outbox_ok s" and flight: "outbox_view s (ce_event_id e) = Some (InFlight (ce_attempt e) d (ce_claim_token e) until)"
    and run: "publish_each publish pub (e # events) now published (w, s) = (n, w', s')"
  obtains s1 w1 l where "publish_each publish pub events now
        (if l = Sent (ce_attempt e) now then published + 1 else published) (w1, s1) = (n, w', s')"
    "outbox_ok s1" "set (dead_letters s) \<subseteq> set (dead_letters s1)"
    "\<And>k. outbox_view s1 k = (if k = ce_event_id e then Some l else outbox_view s k)"
    "l = Sent (ce_attempt e) now \<or> l = failed_lifecycle pub (ce_attempt e) now (ce_attempt e)"
    "l = Parked (ce_attempt e) now \<Longrightarrow> \<exists>d \<in> set (dead_letters s1).
      dd_consumer d = ''outbox:'' @ publisher_id pub \<and> dd_event_id d = ce_event_id e"
proof (cases "publish (ce_topic e) (ce_event_id e) (ce_payload e) w")
  case (Pair res w1)
  show thesis
  proof (cases res)
    case (Inl err)
    obtain b s1 where m: "mark_failed pub e err now s = (b, s1)" by fastforce
    show thesis
    proof (rule that[of "failed_lifecycle pub (ce_attempt e) now (ce_attempt e)" w1 s1])
      show "outbox_view s1 k = (if k = ce_event_id e then Some (failed_lifecycle pub (ce_attempt e) now (ce_attempt e))
          else outbox_view s k)" for k
        unfolding mark_failed_refines(2)[OF assms(1) m] by (simp add: flight settle_def)
      show "\<exists>d \<in> set (dead_letters s1). dd_consumer d = ''outbox:'' @ publisher_id pub \<and> dd_event_id d = ce_event_id e"
        if "failed_lifecycle pub (ce_attempt e) now (ce_attempt e) = Parked (ce_attempt e) now"
        using that m dead_letter_recorded(1)[where pub = pub and event = e and err = err and now = now and s = s]
        by (auto simp: failed_lifecycle_def mark_failed_def split: if_splits)
    qed (use run m mark_failed_refines(1,3)[OF assms(1) m] in \<open>auto simp: Pair Inl failed_lifecycle_def\<close>)
  next
    case (Inr sid)
    obtain b s1 where m: "mark_published e now s = (b, s1)" by fastforce
    have b: "b" using mark_published_refines(3)[OF assms(1) m] flight by simp
    show thesis
    proof (rule that[of "Sent (ce_attempt e) now" w1 s1])
      show "outbox_view s1 k = (if k = ce_event_id e then Some (Sent (ce_attempt e) now) else outbox_view s k)" for k
        unfolding mark_published_refines(2)[OF assms(1) m] by (simp add: flight settle_def)
      show "set (dead_letters s) \<subseteq> set (dead_letters s1)" using m by (auto simp: mark_published_def Let_def)
    qed (use run m b mark_published_refines(1)[OF assms(1) m] in \<open>simp_all add: Pair Inr\<close>)
  qed
qed

lemma publish_each_refines:
  assumes "outbox_ok s" and "distinct (map ce_event_id events)"
    and "\<forall>e \<in> set events. \<exists>d until. outbox_view s (ce_event_id e) = Some (InFlight (ce_attempt e) d (ce_claim_token e) until)"
    and "publish_each publish pub events now published (w, s) = (n, w', s')"
  shows "outbox_ok s' \<and> set (dead_letters s) \<subseteq> set (dead_letters s') \<and>
    (\<forall>k. k \<notin> ce_event_id ` set events \<longrightarrow> outbox_view s' k = outbox_view s k) \<and>
    (\<forall>e \<in> set events. outbox_view s' (ce_event_id e) = Some (Sent (ce_attempt e) now) \<or>
       outbox_view s' (ce_event_id e) = Some (failed_lifecycle pub (ce_attempt e) now (ce_attempt e))) \<and>
    n = published + int (length (filter (\<lambda>e. outbox_view s' (ce_event_id e) = Some (Sent (ce_attempt e) now)) events)) \<and>
    (\<forall>e \<in> set events. outbox_view s' (ce_event_id e) = Some (Parked (ce_attempt e) now) \<longrightarrow>
       (\<exists>d \<in> set (dead_letters s'). dd_consumer d = ''outbox:'' @ publisher_id pub \<and> dd_event_id d = ce_event_id e))"
  using assms
proof (induction events arbitrary: published w s)
  case Nil
  then show ?case by simp
next
  case (Cons e events)
  obtain d until where flight: "outbox_view s (ce_event_id e) = Some (InFlight (ce_attempt e) d (ce_claim_token e) until)"
    using Cons.prems(3) by auto
  obtain s1 w1 l where run: "publish_each publish pub events now
        (if l = Sent (ce_attempt e) now then published + 1 else published) (w1, s1) = (n, w', s')"
    and ok: "outbox_ok s1" and dead: "set (dead_letters s) \<subseteq> set (dead_letters s1)"
    and view: "\<And>k. outbox_view s1 k = (if k = ce_event_id e then Some l else outbox_view s k)"
    and l: "l = Sent (ce_attempt e) now \<or> l = failed_lifecycle pub (ce_attempt e) now (ce_attempt e)"
    and parked: "l = Parked (ce_attempt e) now \<Longrightarrow> \<exists>d \<in> set (dead_letters s1).
      dd_consumer d = ''outbox:'' @ publisher_id pub \<and> dd_event_id d = ce_event_id e"
    by (rule publish_each_step[OF Cons.prems(1) flight Cons.prems(4)], rule that) assumption+
  have new: "ce_event_id e \<notin> ce_event_id ` set events" using Cons.prems(2) by simp
  then have other: "\<forall>e' \<in> set events. ce_event_id e' \<noteq> ce_event_id e" by (metis image_eqI)
  have rest: "\<forall>e \<in> set events. \<exists>d until. outbox_view s1 (ce_event_id e) = Some (InFlight (ce_attempt e) d (ce_claim_token e) until)"
    using Cons.prems(3) other by (simp add: view)
  note IH = Cons.IH[OF ok _ rest run]
  have here: "outbox_view s' (ce_event_id e) = Some l" using IH Cons.prems(2) new by (simp add: view)
  show ?case using IH Cons.prems(2) here dead parked l by (auto simp: view)
qed

text \<open>The states a publishing round may leave an event in.\<close>

definition round_step :: "OutboxPublisher \<Rightarrow> time \<Rightarrow> lifecycle \<Rightarrow> lifecycle \<Rightarrow> bool" where
  "round_step pub now l l' \<longleftrightarrow> l' = l \<or> is_due now l \<and>
     (l' = Sent (tries l + 1) now \<or> l' = failed_lifecycle pub (tries l + 1) now (tries l + 1))"

lemma publish_batch_moves:
  assumes "outbox_ok s" and "publish_batch publish pub limit (Some now) (w, s) = (n, w', s')"
  obtains events :: "ClaimedEvent list" where "distinct (map ce_event_id events)" "outbox_ok s'"
    "\<And>k. k \<notin> ce_event_id ` set events \<Longrightarrow> outbox_view s' k = outbox_view s k"
    "\<And>e. e \<in> set events \<Longrightarrow> \<exists>l l'. outbox_view s (ce_event_id e) = Some l \<and> is_due now l \<and> ce_attempt e = tries l + 1 \<and>
      outbox_view s' (ce_event_id e) = Some l' \<and> l' \<noteq> l \<and>
      (l' = Sent (ce_attempt e) now \<or> l' = failed_lifecycle pub (ce_attempt e) now (ce_attempt e))"
    "n = int (length (filter (\<lambda>e. outbox_view s' (ce_event_id e) = Some (Sent (ce_attempt e) now)) events))"
    "\<And>e. e \<in> set events \<Longrightarrow> outbox_view s' (ce_event_id e) = Some (Parked (ce_attempt e) now) \<Longrightarrow>
       \<exists>d \<in> set (dead_letters s'). dd_consumer d = ''outbox:'' @ publisher_id pub \<and> dd_event_id d = ce_event_id e"
proof -
  obtain events s1 where claim: "outbox_claim pub limit now s = (events, s1)" by fastforce
  note claimed = outbox_claim_refines[OF assms(1) claim]
  have run: "publish_each publish pub events now 0 (w, s1) = (n, w', s')"
    using assms(2) by (simp add: publish_batch_def claim)
  have flight: "\<forall>e \<in> set events. \<exists>d until. outbox_view s1 (ce_event_id e) = Some (InFlight (ce_attempt e) d (ce_claim_token e) until)"
    using claimed(5) by blast
  note settled = publish_each_refines[OF claimed(1,3) flight run]
  have same: "outbox_view s' k = outbox_view s k" if "k \<notin> ce_event_id ` set events" for k
    using settled claimed(4) that by auto
  have moved: "\<exists>l l'. outbox_view s (ce_event_id e) = Some l \<and> is_due now l \<and> ce_attempt e = tries l + 1 \<and>
      outbox_view s' (ce_event_id e) = Some l' \<and> l' \<noteq> l \<and>
      (l' = Sent (ce_attempt e) now \<or> l' = failed_lifecycle pub (ce_attempt e) now (ce_attempt e))" if e: "e \<in> set events" for e
  proof -
    obtain l where l: "outbox_view s (ce_event_id e) = Some l" "is_due now l" "ce_attempt e = tries l + 1"
      using claimed(5)[OF e] by blast
    have "Sent (ce_attempt e) now \<noteq> l" "failed_lifecycle pub (ce_attempt e) now (ce_attempt e) \<noteq> l"
      using l(2,3) by (auto simp: tries_def failed_lifecycle_def is_due_def split: if_splits lifecycle.splits)
    then show ?thesis using l settled e by auto
  qed
  have ok: "outbox_ok s'" using settled by blast
  have n: "n = int (length (filter (\<lambda>e. outbox_view s' (ce_event_id e) = Some (Sent (ce_attempt e) now)) events))"
    using settled by simp
  show thesis by (rule that[OF claimed(3) ok same moved n]) (use settled in blast)+
qed


text \<open>A transport that delivers one topic and refuses the other, over a world that counts its calls.\<close>

definition sample_transport :: "string \<Rightarrow> uuid \<Rightarrow> payload \<Rightarrow> nat \<Rightarrow> (string + string) \<times> nat" where
  "sample_transport topic event_id payload w = (if topic = ''up'' then Inr ''0-1'' else Inl ''unreachable'', Suc w)"


end
