(* ===== verification/Consumer.thy ===== *)
theory Consumer
  imports Outbox
begin

section \<open>The delivery consumer\<close>

text \<open>
  \<open>DeliveryConsumer\<close> of \<open>src/messaging/consumer.py\<close>: a record read from a stream is applied by a
  handler inside one transaction together with a receipt, so that redelivery is recognised; failures are
  counted per consumer group, retried after a backoff, and parked as dead letters. The handler is the
  caller's: a function that, given the payload, changes the database or raises, in which case its text is
  returned. The jitter of the backoff is the parameter \<open>draw\<close>, what \<open>uniform(0, ceiling)\<close> returned.
  Acknowledgements are an output: the stream ids acknowledged, in order.
\<close>

subsection \<open>Operations\<close>

datatype DeliveryOutcome = APPLIED | DUPLICATE | DEFERRED | RETRY | DEAD_LETTERED

record DeliveryRetryPolicy =
  dp_max_attempts :: int
  dp_base_delay :: time
  dp_max_delay :: time
  dp_jitter :: bool

definition delay_for :: "DeliveryRetryPolicy \<Rightarrow> (time \<Rightarrow> time) \<Rightarrow> int \<Rightarrow> time" where
  "delay_for policy draw attempt =
     (let candidate = dp_base_delay policy * 2 ^ nat (max 0 (attempt - 1));
          bound = (if candidate \<le> dp_max_delay policy then candidate else dp_max_delay policy)
      in if \<not> dp_jitter policy then bound else draw bound)"

record RedisStreamRecord =
  sr_stream :: string
  sr_stream_id :: string
  sr_event_id :: uuid
  sr_topic :: string
  sr_payload :: payload

record DeliveryConsumer =
  dc_stream :: string
  dc_group :: string
  dc_consumer :: string
  dc_retry_policy :: DeliveryRetryPolicy

text \<open>
  \<open>UUID(str(value))\<close>. The text of an integer of 32 digits is read as hexadecimal, a minus sign being
  dropped like any hyphen.
\<close>

fun digits_as_hex :: "nat \<Rightarrow> nat" where
  "digits_as_hex n = (if n = 0 then 0 else n mod 10 + 16 * digits_as_hex (n div 10))"

declare digits_as_hex.simps [simp del]

definition uuid_of_int :: "int \<Rightarrow> uuid option" where
  "uuid_of_int i = (if 10 ^ 31 \<le> \<bar>i\<bar> \<and> \<bar>i\<bar> < 10 ^ 32 then Some (digits_as_hex (nat \<bar>i\<bar>)) else None)"

definition parse_uuid :: "pvalue \<Rightarrow> uuid option" where
  "parse_uuid v =
     (case v of PId u \<Rightarrow> Some u | PInt i \<Rightarrow> uuid_of_int i | PJson (JInt i) \<Rightarrow> uuid_of_int i | _ \<Rightarrow> None)"

text \<open>
  What iterating over a payload value yields: the elements of a list, the keys of an object, the
  characters of a text (no identifier among them); a number and \<open>None\<close> cannot be iterated.
\<close>

definition iterate_json :: "json \<Rightarrow> pvalue list result" where
  "iterate_json j =
     (case j of JList xs \<Rightarrow> Inr (map PJson xs) | JObj kvs \<Rightarrow> Inr (map (PText \<circ> fst) kvs)
      | JStr xs \<Rightarrow> Inr (map (\<lambda>c. PText [c]) xs) | _ \<Rightarrow> Inl (TypeError ''object is not iterable''))"

definition iterate :: "pvalue \<Rightarrow> pvalue list result" where
  "iterate v =
     (case v of PList xs \<Rightarrow> Inr xs | PTexts xs \<Rightarrow> Inr (map PText xs) | PMap kvs \<Rightarrow> Inr (map (PText \<circ> fst) kvs)
      | PText xs \<Rightarrow> Inr (map (\<lambda>c. PText [c]) xs) | PJson j \<Rightarrow> iterate_json j
      | PInt _ \<Rightarrow> Inl (TypeError ''object is not iterable'') | PNone \<Rightarrow> Inl (TypeError ''object is not iterable'')
      | _ \<Rightarrow> Inr [])"

definition causation_chain :: "uuid \<Rightarrow> payload \<Rightarrow> uuid list result" where
  "causation_chain event_id payload =
     bnd (case map_of payload ''causation_chain'' of None \<Rightarrow> Inr [] | Some v \<Rightarrow> iterate v)
       (\<lambda>values. let chain = fromkeys (List.map_filter parse_uuid values)
                 in Inr (if event_id \<in> set chain then chain else chain @ [event_id]))"

definition claim_consumer_receipt :: "string \<Rightarrow> uuid \<Rightarrow> db \<Rightarrow> bool \<times> db" where
  "claim_consumer_receipt consumer event_id s =
     (if (consumer, event_id) \<in> (\<lambda>r. (rc_consumer r, rc_event_id r)) ` set (consumer_receipts s) then (False, s)
      else (True, s\<lparr>consumer_receipts := consumer_receipts s @
              [\<lparr>rc_consumer = consumer, rc_event_id = event_id, rc_claimed_at = utc_now s\<rparr>]\<rparr>))"

definition delivery_key :: "ConsumerDeliveryRow \<Rightarrow> string \<times> uuid" where
  "delivery_key r = (dl_consumer r, dl_event_id r)"

definition is_deferred :: "DeliveryConsumer \<Rightarrow> uuid \<Rightarrow> time \<Rightarrow> db \<Rightarrow> bool" where
  "is_deferred dc event_id now s =
     (case row_get delivery_key (dc_group dc, event_id) (consumer_deliveries s) of
        None \<Rightarrow> False
      | Some delivery \<Rightarrow> dl_status delivery = ''RETRY'' \<and> dl_next_attempt_at delivery > now)"

text \<open>The flush of an attribute change also sets \<open>updated_at\<close>, whose column has \<open>onupdate=utc_now\<close>.\<close>

definition flush_delivery :: "db \<Rightarrow> ConsumerDeliveryRow \<Rightarrow> ConsumerDeliveryRow \<Rightarrow> ConsumerDeliveryRow" where
  "flush_delivery s r r' = (if r' = r then r else r'\<lparr>dl_updated_at := utc_now s\<rparr>)"

definition upsert_delivery ::
  "DeliveryConsumer \<Rightarrow> RedisStreamRecord \<Rightarrow> string \<Rightarrow> time \<Rightarrow> db \<Rightarrow> ConsumerDeliveryRow \<times> db" where
  "upsert_delivery dc entry last_error now s =
     (let key = (dc_group dc, sr_event_id entry)
      in case row_get delivery_key key (consumer_deliveries s) of
           None \<Rightarrow>
             (let row = \<lparr>dl_consumer = dc_group dc, dl_event_id = sr_event_id entry, dl_topic = sr_topic entry,
                         dl_attempts = 1, dl_status = ''RETRY'', dl_next_attempt_at = utc_now s,
                         dl_last_error = Some last_error, dl_updated_at = now\<rparr>
              in (row, s\<lparr>consumer_deliveries := consumer_deliveries s @ [row]\<rparr>))
         | Some old \<Rightarrow>
             (let row = old\<lparr>dl_attempts := dl_attempts old + 1, dl_last_error := Some last_error, dl_updated_at := now\<rparr>
              in (row, s\<lparr>consumer_deliveries := row_update (\<lambda>r. delivery_key r = key) (\<lambda>_. row) (consumer_deliveries s)\<rparr>)))"

definition record_failure_body ::
  "DeliveryConsumer \<Rightarrow> (time \<Rightarrow> time) \<Rightarrow> RedisStreamRecord \<Rightarrow> string \<Rightarrow> time \<Rightarrow> db \<Rightarrow> (int \<times> db) result" where
  "record_failure_body dc draw entry err now s =
     (let last_error = clip 20000 err;
          (delivery, s1) = upsert_delivery dc entry last_error now s;
          save = (\<lambda>r. s1\<lparr>consumer_deliveries := row_update (\<lambda>x. delivery_key x = delivery_key delivery)
                    (\<lambda>_. flush_delivery s delivery r) (consumer_deliveries s1)\<rparr>)
      in if dl_attempts delivery \<ge> dp_max_attempts (dc_retry_policy dc)
         then bnd (causation_chain (sr_event_id entry) (sr_payload entry)) (\<lambda>chain.
                Inr (dl_attempts delivery,
                  insert_dead_letter
                    \<lparr>dd_event_id = sr_event_id entry, dd_consumer = dc_consumer dc, dd_topic = sr_topic entry,
                     dd_payload = sr_payload entry, dd_attempts = dl_attempts delivery, dd_last_error = last_error,
                     dd_causation_chain = chain, dd_created_at = utc_now s, dd_resolved_at = None\<rparr>
                    (save (delivery\<lparr>dl_status := ''DEAD_LETTERED'', dl_next_attempt_at := now\<rparr>))))
         else Inr (dl_attempts delivery,
                save (delivery\<lparr>dl_status := ''RETRY'',
                        dl_next_attempt_at := now + delay_for (dc_retry_policy dc) draw (dl_attempts delivery)\<rparr>)))"

definition record_failure ::
  "DeliveryConsumer \<Rightarrow> (time \<Rightarrow> time) \<Rightarrow> RedisStreamRecord \<Rightarrow> string \<Rightarrow> time \<Rightarrow> db \<Rightarrow> int result \<times> db" where
  "record_failure dc draw entry err now = commit (record_failure_body dc draw entry err now)"

type_synonym delivery_handler = "payload \<Rightarrow> db \<Rightarrow> string + db"

definition process ::
  "DeliveryConsumer \<Rightarrow> (time \<Rightarrow> time) \<Rightarrow> RedisStreamRecord \<Rightarrow> delivery_handler \<Rightarrow> time option \<Rightarrow> db
     \<Rightarrow> (DeliveryOutcome \<times> string list) result \<times> db" where
  "process dc draw entry handler now s =
     (let timestamp = (case now of None \<Rightarrow> utc_now s | Some t \<Rightarrow> t);
          (claimed, s1) = claim_consumer_receipt (dc_group dc) (sr_event_id entry) s
      in if is_deferred dc (sr_event_id entry) timestamp s then (Inr (DEFERRED, []), s)
         else if \<not> claimed then (Inr (DUPLICATE, [sr_stream_id entry]), s1)
         else case handler (sr_payload entry) s1 of
                Inr s2 \<Rightarrow> (Inr (APPLIED, [sr_stream_id entry]), s2)
              | Inl err \<Rightarrow>
                  (case record_failure dc draw entry err timestamp s of
                     (Inl e, s') \<Rightarrow> (Inl e, s')
                   | (Inr attempts, s') \<Rightarrow>
                       if attempts \<ge> dp_max_attempts (dc_retry_policy dc)
                       then (Inr (DEAD_LETTERED, [sr_stream_id entry]), s')
                       else (Inr (RETRY, []), s')))"

definition sweep_one :: "DeliveryConsumer \<Rightarrow> ConsumerDeliveryRow \<Rightarrow> db \<Rightarrow> db" where
  "sweep_one dc delivery s =
     (let row = delivery\<lparr>dl_status := ''DEAD_LETTERED'',
                  dl_attempts := max (dl_attempts delivery) (dp_max_attempts (dc_retry_policy dc))\<rparr>;
          reason = (case dl_last_error delivery of None \<Rightarrow> ''unknown'' | Some e \<Rightarrow> if e = [] then ''unknown'' else e)
      in insert_dead_letter
           \<lparr>dd_event_id = dl_event_id delivery, dd_consumer = dc_consumer dc, dd_topic = dl_topic delivery,
            dd_payload = [], dd_attempts = dl_attempts row,
            dd_last_error = ''stalled in RETRY past its backoff horizon: '' @ reason,
            dd_causation_chain = [dl_event_id delivery], dd_created_at = utc_now s, dd_resolved_at = None\<rparr>
           (s\<lparr>consumer_deliveries := row_update (\<lambda>r. delivery_key r = delivery_key delivery)
                (\<lambda>_. flush_delivery s delivery row) (consumer_deliveries s)\<rparr>))"

definition stalled :: "DeliveryConsumer \<Rightarrow> time \<Rightarrow> ConsumerDeliveryRow \<Rightarrow> bool" where
  "stalled dc now r \<longleftrightarrow> dl_status r = ''RETRY'' \<and> dl_next_attempt_at r \<le> now - dp_max_delay (dc_retry_policy dc)"

definition sweep_stalled :: "DeliveryConsumer \<Rightarrow> time option \<Rightarrow> db \<Rightarrow> int \<times> db" where
  "sweep_stalled dc now s =
     (let timestamp = (case now of None \<Rightarrow> utc_now s | Some t \<Rightarrow> t);
          rows = filter (stalled dc timestamp) (consumer_deliveries s)
      in (int (length rows), fold (sweep_one dc) rows s))"

subsection \<open>Effects are applied at most once\<close>

text \<open>
  Any interleaving of calls by any consumers: deliveries with their own handlers, sweeps, and changes
  made elsewhere. The trace records the outcome of each delivery that returned.
\<close>

datatype consumer_call =
    Process DeliveryConsumer "time \<Rightarrow> time" RedisStreamRecord delivery_handler "time option"
  | Sweep DeliveryConsumer "time option"
  | Elsewhere "db \<Rightarrow> db"

definition perform_call :: "consumer_call \<Rightarrow> db \<Rightarrow> (string \<times> uuid \<times> DeliveryOutcome) list \<times> db" where
  "perform_call c s =
     (case c of
        Process dc draw entry handler now \<Rightarrow>
          (case process dc draw entry handler now s of
             (Inl e, s') \<Rightarrow> ([], s')
           | (Inr (outcome, acks), s') \<Rightarrow> ([(dc_group dc, sr_event_id entry, outcome)], s'))
      | Sweep dc now \<Rightarrow> ([], snd (sweep_stalled dc now s))
      | Elsewhere f \<Rightarrow> ([], f s))"

fun perform_calls :: "consumer_call list \<Rightarrow> db \<Rightarrow> (string \<times> uuid \<times> DeliveryOutcome) list \<times> db" where
  "perform_calls [] s = ([], s)"
| "perform_calls (c # cs) s =
     (case perform_call c s of (trace, s1) \<Rightarrow> (case perform_calls cs s1 of (traces, s2) \<Rightarrow> (trace @ traces, s2)))"

definition received :: "db \<Rightarrow> (string \<times> uuid) set" where
  "received s = (\<lambda>r. (rc_consumer r, rc_event_id r)) ` set (consumer_receipts s)"

definition keeps_receipts :: "consumer_call \<Rightarrow> bool" where
  "keeps_receipts c =
     (case c of Process _ _ _ handler _ \<Rightarrow> \<forall>p s s'. handler p s = Inr s' \<longrightarrow> received s \<subseteq> received s'
      | Sweep _ _ \<Rightarrow> True
      | Elsewhere f \<Rightarrow> \<forall>s. received s \<subseteq> received (f s))"

lemma insert_dead_letter_frame [simp]:
  "consumer_receipts (insert_dead_letter d s) = consumer_receipts s"
  "consumer_deliveries (insert_dead_letter d s) = consumer_deliveries s"
  by (simp_all add: insert_dead_letter_def)

lemma record_failure_receipts:
  "record_failure dc draw entry err now s = (r, s') \<Longrightarrow> consumer_receipts s' = consumer_receipts s"
  by (auto simp: record_failure_def commit_def record_failure_body_def upsert_delivery_def bnd_def
      Let_def split: sum.splits option.splits if_splits)

lemma sweep_stalled_receipts: "consumer_receipts (snd (sweep_stalled dc now s)) = consumer_receipts s"
proof -
  have "consumer_receipts (fold (sweep_one dc) rows s) = consumer_receipts s" for rows
    by (induction rows arbitrary: s) (auto simp: sweep_one_def Let_def)
  then show ?thesis by (simp add: sweep_stalled_def Let_def)
qed

lemma claim_consumer_receipt_cases:
  obtains "(consumer, event_id) \<in> received s" "claim_consumer_receipt consumer event_id s = (False, s)"
  | s1 where "(consumer, event_id) \<notin> received s" "claim_consumer_receipt consumer event_id s = (True, s1)"
      "received s1 = insert (consumer, event_id) (received s)"
  by (cases "(consumer, event_id) \<in> received s")
    (auto simp: claim_consumer_receipt_def received_def)

text \<open>What one delivery does to the receipts, and when it can apply.\<close>

lemma process_receipts:
  assumes "process dc draw entry handler now s = (r, s')"
    and "\<forall>p s s'. handler p s = Inr s' \<longrightarrow> received s \<subseteq> received s'"
  shows "received s \<subseteq> received s'"
    "r = Inr (APPLIED, acks) \<Longrightarrow> (dc_group dc, sr_event_id entry) \<notin> received s \<and>
       (dc_group dc, sr_event_id entry) \<in> received s'"
    "(dc_group dc, sr_event_id entry) \<in> received s \<Longrightarrow> s' = s \<and>
       r \<in> {Inr (DEFERRED, []), Inr (DUPLICATE, [sr_stream_id entry])}"
proof -
  let ?k = "(dc_group dc, sr_event_id entry)"
  have "received s \<subseteq> received s' \<and> (r = Inr (APPLIED, acks) \<longrightarrow> ?k \<notin> received s \<and> ?k \<in> received s') \<and>
     (?k \<in> received s \<longrightarrow> s' = s \<and> r \<in> {Inr (DEFERRED, []), Inr (DUPLICATE, [sr_stream_id entry])})"
  proof (cases rule: claim_consumer_receipt_cases[of "dc_group dc" "sr_event_id entry" s])
    case 1
    then show ?thesis using assms(1) by (auto simp: process_def Let_def split: if_splits)
  next
    case (2 s1)
    show ?thesis
    proof (cases "handler (sr_payload entry) s1")
      case (Inl err)
      have "received t = received s" if "record_failure dc draw entry err m s = (x, t)" for x t m
        using record_failure_receipts[OF that] by (simp add: received_def)
      then show ?thesis using assms(1) 2 Inl
        by (auto simp: process_def Let_def split: if_splits prod.splits sum.splits)
    next
      case (Inr s2)
      then have "received s1 \<subseteq> received s2" using assms(2) by blast
      then show ?thesis using assms(1) 2 Inr by (auto simp: process_def Let_def split: if_splits)
    qed
  qed
  then show "received s \<subseteq> received s'"
    "r = Inr (APPLIED, acks) \<Longrightarrow> ?k \<notin> received s \<and> ?k \<in> received s'"
    "?k \<in> received s \<Longrightarrow> s' = s \<and> r \<in> {Inr (DEFERRED, []), Inr (DUPLICATE, [sr_stream_id entry])}" by auto
qed

lemma perform_call_receipts:
  assumes "keeps_receipts c" and "perform_call c s = (trace, s')"
  shows "received s \<subseteq> received s'"
    "k \<in> received s \<Longrightarrow> (fst k, snd k, outcome) \<in> set trace \<Longrightarrow> outcome \<in> {DUPLICATE, DEFERRED}"
    "(fst k, snd k, APPLIED) \<in> set trace \<Longrightarrow> k \<notin> received s \<and> k \<in> received s' \<and> trace = [(fst k, snd k, APPLIED)]"
proof -
  have "received s \<subseteq> received s' \<and>
    (k \<in> received s \<longrightarrow> (fst k, snd k, outcome) \<in> set trace \<longrightarrow> outcome \<in> {DUPLICATE, DEFERRED}) \<and>
    ((fst k, snd k, APPLIED) \<in> set trace \<longrightarrow> k \<notin> received s \<and> k \<in> received s' \<and> trace = [(fst k, snd k, APPLIED)])"
  proof (cases c)
    case (Process dc draw entry handler now)
    obtain r s1 where run: "process dc draw entry handler now s = (r, s1)" by fastforce
    have keeps: "\<forall>p s s'. handler p s = Inr s' \<longrightarrow> received s \<subseteq> received s'"
      using assms(1) by (simp add: Process keeps_receipts_def)
    have s1: "s' = s1" using assms(2) by (auto simp: perform_call_def Process run split: sum.splits prod.splits)
    have trace: "(g, e, oc) \<in> set trace \<Longrightarrow> trace = [(g, e, oc)] \<and> g = dc_group dc \<and> e = sr_event_id entry \<and> (\<exists>acks. r = Inr (oc, acks))"
      for g e oc using assms(2) by (auto simp: perform_call_def Process run split: sum.splits prod.splits)
    show ?thesis
      using process_receipts(1)[OF run keeps] process_receipts(2)[OF run keeps] process_receipts(3)[OF run keeps]
      unfolding s1 by (cases k) (auto dest!: trace)
  next
    case (Sweep dc now)
    then show ?thesis using assms(2) sweep_stalled_receipts[of dc now s] by (auto simp: perform_call_def received_def)
  next
    case (Elsewhere f)
    then show ?thesis using assms by (auto simp: perform_call_def keeps_receipts_def)
  qed
  then show "received s \<subseteq> received s'"
    "k \<in> received s \<Longrightarrow> (fst k, snd k, outcome) \<in> set trace \<Longrightarrow> outcome \<in> {DUPLICATE, DEFERRED}"
    "(fst k, snd k, APPLIED) \<in> set trace \<Longrightarrow> k \<notin> received s \<and> k \<in> received s' \<and> trace = [(fst k, snd k, APPLIED)]" by auto
qed

lemma perform_calls_received:
  assumes "\<forall>c \<in> set cs. keeps_receipts c" and "perform_calls cs s = (trace, s')" and "k \<in> received s"
    and "(fst k, snd k, outcome) \<in> set trace"
  shows "outcome \<in> {DUPLICATE, DEFERRED}"
  using assms
proof (induction cs arbitrary: s trace)
  case Nil
  then show ?case by simp
next
  case (Cons c cs)
  obtain l1 s1 l2 where one: "perform_call c s = (l1, s1)" and rest: "perform_calls cs s1 = (l2, s')"
    and trace: "trace = l1 @ l2" using Cons.prems(2) by (auto split: prod.splits)
  have keeps: "keeps_receipts c" using Cons.prems(1) by simp
  have "k \<in> received s1" using perform_call_receipts(1)[OF keeps one] Cons.prems(3) by blast
  then show ?case
    using Cons.IH[OF _ rest] perform_call_receipts(2)[OF keeps one Cons.prems(3)] Cons.prems(1,4) by (auto simp: trace)
qed

text \<open>
  Property C6: the effect of an event is applied at most once per consumer group. In any interleaving
  of deliveries by any consumers, sweeps and other changes that keep the receipts, once a delivery
  of an event has been applied for a group every later delivery of it to that group is a duplicate or
  deferred.
\<close>

theorem effect_applied_at_most_once:
  assumes "\<forall>c \<in> set calls. keeps_receipts c" and "perform_calls calls s = (xs @ (grp, event_id, APPLIED) # ys, s')"
  shows "\<forall>outcome. (grp, event_id, outcome) \<in> set ys \<longrightarrow> outcome \<in> {DUPLICATE, DEFERRED}"
  using assms
proof (induction calls arbitrary: s xs)
  case Nil
  then show ?case by simp
next
  case (Cons c cs)
  obtain l1 s1 l2 where one: "perform_call c s = (l1, s1)" and rest: "perform_calls cs s1 = (l2, s')"
    and trace: "l1 @ l2 = xs @ (grp, event_id, APPLIED) # ys" using Cons.prems(2) by (auto split: prod.splits)
  have keeps: "keeps_receipts c" and others: "\<forall>c \<in> set cs. keeps_receipts c" using Cons.prems(1) by auto
  show ?case
  proof (cases "\<exists>us. l2 = us @ (grp, event_id, APPLIED) # ys")
    case True
    then show ?thesis using Cons.IH others rest by blast
  next
    case False
    then have "(grp, event_id, APPLIED) \<in> set l1" using trace by (auto simp: append_eq_append_conv2 append_eq_Cons_conv)
    then have "l1 = [(grp, event_id, APPLIED)]" "(grp, event_id) \<in> received s1"
      using perform_call_receipts(3)[OF keeps one, where k = "(grp, event_id)"] by auto
    moreover from this have "ys = l2" using trace False by (cases xs) (auto simp: append_eq_Cons_conv)
    ultimately show ?thesis using perform_calls_received[OF others rest, where k = "(grp, event_id)"] by auto
  qed
qed

definition sample_consumer :: DeliveryConsumer where
  "sample_consumer = \<lparr>dc_stream = ''tasks'', dc_group = ''workers'', dc_consumer = ''w1'',
     dc_retry_policy = \<lparr>dp_max_attempts = 3, dp_base_delay = 2, dp_max_delay = 10, dp_jitter = True\<rparr>\<rparr>"

definition sample_entry :: RedisStreamRecord where
  "sample_entry = \<lparr>sr_stream = ''tasks'', sr_stream_id = ''7-0'', sr_event_id = 4, sr_topic = ''task-ready'',
     sr_payload = [(''causation_chain'', PList [PId 2, PText ''x'', PId 2])]\<rparr>"

definition sample_handler :: delivery_handler where
  "sample_handler p s = Inr (s\<lparr>projects := \<lparr>pj_id = 1, pj_name = ''p'', pj_created_at = 0\<rparr> # projects s\<rparr>)"

definition sample_calls :: "consumer_call list" where
  "sample_calls = [Process sample_consumer (\<lambda>c. c) sample_entry (\<lambda>_ _. Inl ''busy'') (Some 20),
     Process sample_consumer (\<lambda>c. c) sample_entry sample_handler (Some 21),
     Process sample_consumer (\<lambda>c. c) sample_entry sample_handler (Some 22),
     Process (sample_consumer\<lparr>dc_consumer := ''w2''\<rparr>) (\<lambda>c. c) sample_entry sample_handler (Some 23)]"

theorem effect_applied_at_most_once_witness:
  "case perform_calls sample_calls empty_db of (trace, s') \<Rightarrow>
     map (snd \<circ> snd) trace = [RETRY, DEFERRED, APPLIED, DUPLICATE] \<and> length (projects s') = 1 \<and>
     (''workers'', 4, APPLIED) \<notin> set (drop 3 trace)"
proof -
  let ?r = "perform_calls sample_calls empty_db"
  have keeps: "\<forall>c \<in> set sample_calls. keeps_receipts c"
    by (simp add: sample_calls_def keeps_receipts_def sample_handler_def received_def)
  have trace: "fst ?r = [(''workers'', 4, RETRY), (''workers'', 4, DEFERRED)] @ (''workers'', 4, APPLIED) # drop 3 (fst ?r)"
    and shape: "map (snd \<circ> snd) (fst ?r) = [RETRY, DEFERRED, APPLIED, DUPLICATE] \<and> length (projects (snd ?r)) = 1"
    by code_simp+
  have "?r = ([(''workers'', 4, RETRY), (''workers'', 4, DEFERRED)] @ (''workers'', 4, APPLIED) # drop 3 (fst ?r), snd ?r)"
    by (simp only: trace[symmetric] prod.collapse)
  from effect_applied_at_most_once[OF keeps this] shape show ?thesis by (auto simp: case_prod_beta)
qed

subsection \<open>Failures are counted and end in a dead letter\<close>

lemma delay_for_bounds:
  assumes "0 \<le> dp_base_delay policy" "0 \<le> dp_max_delay policy" "\<And>c. 0 \<le> c \<Longrightarrow> 0 \<le> draw c \<and> draw c \<le> c"
  shows "0 \<le> delay_for policy draw attempt" "delay_for policy draw attempt \<le> dp_max_delay policy"
proof -
  define c where "c = min (dp_base_delay policy * 2 ^ nat (max 0 (attempt - 1))) (dp_max_delay policy)"
  have c: "0 \<le> c" "c \<le> dp_max_delay policy" using assms(1,2) by (auto simp: c_def)
  have "delay_for policy draw attempt = (if dp_jitter policy then draw c else c)"
    by (simp add: delay_for_def c_def Let_def min_def)
  then show "0 \<le> delay_for policy draw attempt" "delay_for policy draw attempt \<le> dp_max_delay policy"
    using c assms(3)[of c] by auto
qed

definition failures :: "DeliveryConsumer \<Rightarrow> RedisStreamRecord \<Rightarrow> db \<Rightarrow> int" where
  "failures dc entry s =
     (case row_get delivery_key (dc_group dc, sr_event_id entry) (consumer_deliveries s) of
        None \<Rightarrow> 0 | Some r \<Rightarrow> dl_attempts r)"

lemma delivery_key_simps [simp]:
  "delivery_key (r\<lparr>dl_attempts := a\<rparr>) = delivery_key r" "delivery_key (r\<lparr>dl_last_error := e\<rparr>) = delivery_key r"
  "delivery_key (r\<lparr>dl_updated_at := t\<rparr>) = delivery_key r" "delivery_key (r\<lparr>dl_status := x\<rparr>) = delivery_key r"
  "delivery_key (r\<lparr>dl_next_attempt_at := t\<rparr>) = delivery_key r"
  by (simp_all add: delivery_key_def)

lemma flush_delivery_simps [simp]:
  "delivery_key (flush_delivery s r r') = delivery_key r'" "dl_attempts (flush_delivery s r r') = dl_attempts r'"
  "dl_status (flush_delivery s r r') = dl_status r'" "dl_next_attempt_at (flush_delivery s r r') = dl_next_attempt_at r'"
  by (simp_all add: flush_delivery_def)

lemma row_get_replace:
  assumes "row_get key k rows = Some old" and "key row = k"
  shows "row_get key k (row_update (\<lambda>r. key r = k) (\<lambda>_. row) rows) = Some row"
  using assms by (induction rows) (auto split: if_splits)

lemma upsert_delivery_effect:
  assumes "upsert_delivery dc entry last_error now s = (delivery, s1)"
  shows "delivery_key delivery = (dc_group dc, sr_event_id entry)" "dl_attempts delivery = failures dc entry s + 1"
    "row_get delivery_key (dc_group dc, sr_event_id entry) (consumer_deliveries s1) = Some delivery"
    "s1 = s\<lparr>consumer_deliveries := consumer_deliveries s1\<rparr>"
proof -
  let ?key = "(dc_group dc, sr_event_id entry)"
  have "delivery_key delivery = ?key \<and> dl_attempts delivery = failures dc entry s + 1 \<and>
    row_get delivery_key ?key (consumer_deliveries s1) = Some delivery \<and> s1 = s\<lparr>consumer_deliveries := consumer_deliveries s1\<rparr>"
  proof (cases "row_get delivery_key ?key (consumer_deliveries s)")
    case None
    then show ?thesis
      using assms by (auto simp: upsert_delivery_def failures_def Let_def row_get_append delivery_key_def)
  next
    case (Some old)
    then show ?thesis using assms row_get_Some(2)[OF Some]
      by (auto simp: upsert_delivery_def failures_def Let_def intro!: row_get_replace[OF Some])
  qed
  then show "delivery_key delivery = ?key" "dl_attempts delivery = failures dc entry s + 1"
    "row_get delivery_key ?key (consumer_deliveries s1) = Some delivery" "s1 = s\<lparr>consumer_deliveries := consumer_deliveries s1\<rparr>"
    by auto
qed

lemma record_failure_effect:
  assumes "causation_chain (sr_event_id entry) (sr_payload entry) = Inr chain"
  obtains s' where "record_failure dc draw entry err now s = (Inr (failures dc entry s + 1), s')"
    "failures dc entry s' = failures dc entry s + 1" "consumer_receipts s' = consumer_receipts s"
    "s' = s\<lparr>consumer_deliveries := consumer_deliveries s', dead_letters := dead_letters s'\<rparr>"
    "failures dc entry s + 1 < dp_max_attempts (dc_retry_policy dc) \<Longrightarrow> dead_letters s' = dead_letters s \<and>
       (\<forall>t \<ge> now + delay_for (dc_retry_policy dc) draw (failures dc entry s + 1). \<not> is_deferred dc (sr_event_id entry) t s')"
    "failures dc entry s + 1 \<ge> dp_max_attempts (dc_retry_policy dc) \<Longrightarrow>
       (\<exists>d \<in> set (dead_letters s'). dd_consumer d = dc_consumer dc \<and> dd_event_id d = sr_event_id entry)"
proof -
  obtain delivery s1 where up: "upsert_delivery dc entry (clip 20000 err) now s = (delivery, s1)" by fastforce
  note u = upsert_delivery_effect[OF up]
  define r where "r = (if dl_attempts delivery \<ge> dp_max_attempts (dc_retry_policy dc)
     then delivery\<lparr>dl_status := ''DEAD_LETTERED'', dl_next_attempt_at := now\<rparr>
     else delivery\<lparr>dl_status := ''RETRY'',
       dl_next_attempt_at := now + delay_for (dc_retry_policy dc) draw (dl_attempts delivery)\<rparr>)"
  define s2 where "s2 = s1\<lparr>consumer_deliveries := row_update (\<lambda>x. delivery_key x = delivery_key delivery)
     (\<lambda>_. flush_delivery s delivery r) (consumer_deliveries s1)\<rparr>"
  define s' where "s' = (if dl_attempts delivery \<ge> dp_max_attempts (dc_retry_policy dc) then insert_dead_letter
     \<lparr>dd_event_id = sr_event_id entry, dd_consumer = dc_consumer dc, dd_topic = sr_topic entry,
      dd_payload = sr_payload entry, dd_attempts = dl_attempts delivery, dd_last_error = clip 20000 err,
      dd_causation_chain = chain, dd_created_at = utc_now s, dd_resolved_at = None\<rparr> s2 else s2)"
  have run: "record_failure dc draw entry err now s = (Inr (dl_attempts delivery), s')"
    by (auto simp: record_failure_def commit_def record_failure_body_def up assms r_def s2_def s'_def Let_def)
  obtain rows where rows: "s1 = s\<lparr>consumer_deliveries := rows\<rparr>" using u(4) by blast
  have s1: "dead_letters s1 = dead_letters s" "consumer_receipts s1 = consumer_receipts s" by (simp_all add: rows)
  have flushed: "delivery_key r = delivery_key delivery" "dl_attempts r = dl_attempts delivery" by (simp_all add: r_def)
  have get: "row_get delivery_key (dc_group dc, sr_event_id entry) (consumer_deliveries s') = Some (flush_delivery s delivery r)"
    using row_get_replace[OF u(3), where row = "flush_delivery s delivery r"] by (simp add: s'_def s2_def u(1) flushed(1))
  have due: "\<not> is_deferred dc (sr_event_id entry) t s'"
    if "failures dc entry s + 1 < dp_max_attempts (dc_retry_policy dc)"
      "now + delay_for (dc_retry_policy dc) draw (failures dc entry s + 1) \<le> t" for t
    using that unfolding is_deferred_def get by (simp add: r_def u(2))
  have count: "failures dc entry s' = failures dc entry s + 1" unfolding failures_def[of dc entry s'] get by (simp add: flushed u(2))
  show thesis
  proof (rule that[of s', OF _ count])
    show "s' = s\<lparr>consumer_deliveries := consumer_deliveries s', dead_letters := dead_letters s'\<rparr>"
      by (simp add: s'_def s2_def insert_dead_letter_def rows)
    show "dead_letters s' = dead_letters s \<and>
       (\<forall>t \<ge> now + delay_for (dc_retry_policy dc) draw (failures dc entry s + 1). \<not> is_deferred dc (sr_event_id entry) t s')"
      if "failures dc entry s + 1 < dp_max_attempts (dc_retry_policy dc)"
      using that due by (auto simp: s'_def s2_def s1 u(2))
  qed (auto simp: run u(2) s'_def s2_def s1 insert_dead_letter_def)
qed

definition poisoned :: "delivery_handler \<Rightarrow> RedisStreamRecord \<Rightarrow> bool" where
  "poisoned handler entry \<longleftrightarrow> (\<forall>s. \<exists>err. handler (sr_payload entry) s = Inl err)"

lemma process_poisoned:
  assumes "poisoned handler entry" and "causation_chain (sr_event_id entry) (sr_payload entry) = Inr chain"
    and "(dc_group dc, sr_event_id entry) \<notin> received s" and "\<not> is_deferred dc (sr_event_id entry) now s"
  obtains s' where "process dc draw entry handler (Some now) s =
      (Inr (if failures dc entry s + 1 \<ge> dp_max_attempts (dc_retry_policy dc)
            then (DEAD_LETTERED, [sr_stream_id entry]) else (RETRY, [])), s')"
    "failures dc entry s' = failures dc entry s + 1" "received s' = received s"
    "s' = s\<lparr>consumer_deliveries := consumer_deliveries s', dead_letters := dead_letters s'\<rparr>"
    "failures dc entry s + 1 < dp_max_attempts (dc_retry_policy dc) \<Longrightarrow> dead_letters s' = dead_letters s \<and>
       (\<forall>t \<ge> now + delay_for (dc_retry_policy dc) draw (failures dc entry s + 1). \<not> is_deferred dc (sr_event_id entry) t s')"
    "failures dc entry s + 1 \<ge> dp_max_attempts (dc_retry_policy dc) \<Longrightarrow>
       (\<exists>d \<in> set (dead_letters s'). dd_consumer d = dc_consumer dc \<and> dd_event_id d = sr_event_id entry)"
proof (cases rule: claim_consumer_receipt_cases[of "dc_group dc" "sr_event_id entry" s])
  case 1
  then show thesis using assms(3) by blast
next
  case (2 s1)
  obtain err where err: "handler (sr_payload entry) s1 = Inl err" using assms(1) by (auto simp: poisoned_def)
  show thesis
  proof (rule record_failure_effect[OF assms(2), where dc = dc and draw = draw and err = err and now = now and s = s])
    fix s'
    assume r: "record_failure dc draw entry err now s = (Inr (failures dc entry s + 1), s')"
      and "consumer_receipts s' = consumer_receipts s"
    then have "received s' = received s" by (simp add: received_def)
    moreover have "process dc draw entry handler (Some now) s =
      (Inr (if failures dc entry s + 1 \<ge> dp_max_attempts (dc_retry_policy dc)
            then (DEAD_LETTERED, [sr_stream_id entry]) else (RETRY, [])), s')"
      using r by (simp add: process_def 2 assms(4) err)
    moreover assume "failures dc entry s' = failures dc entry s + 1"
      "s' = s\<lparr>consumer_deliveries := consumer_deliveries s', dead_letters := dead_letters s'\<rparr>"
      "failures dc entry s + 1 < dp_max_attempts (dc_retry_policy dc) \<Longrightarrow> dead_letters s' = dead_letters s \<and>
       (\<forall>t \<ge> now + delay_for (dc_retry_policy dc) draw (failures dc entry s + 1). \<not> is_deferred dc (sr_event_id entry) t s')"
      "failures dc entry s + 1 \<ge> dp_max_attempts (dc_retry_policy dc) \<Longrightarrow>
       (\<exists>d \<in> set (dead_letters s'). dd_consumer d = dc_consumer dc \<and> dd_event_id d = sr_event_id entry)"
    ultimately show thesis by (intro that)
  qed
qed

text \<open>The same record delivered at each of a list of times.\<close>

fun redeliver ::
  "DeliveryConsumer \<Rightarrow> (time \<Rightarrow> time) \<Rightarrow> RedisStreamRecord \<Rightarrow> delivery_handler \<Rightarrow> time list \<Rightarrow> db
     \<Rightarrow> (DeliveryOutcome \<times> string list) result list \<times> db" where
  "redeliver dc draw entry handler [] s = ([], s)"
| "redeliver dc draw entry handler (now # nows) s =
     (case process dc draw entry handler (Some now) s of
        (r, s1) \<Rightarrow> (case redeliver dc draw entry handler nows s1 of (rs, s2) \<Rightarrow> (r # rs, s2)))"

lemma redeliver_poisoned:
  assumes "poisoned handler entry" and "causation_chain (sr_event_id entry) (sr_payload entry) = Inr chain"
    and "(dc_group dc, sr_event_id entry) \<notin> received s"
    and "\<forall>n. 0 \<le> delay_for (dc_retry_policy dc) draw n \<and> delay_for (dc_retry_policy dc) draw n \<le> dp_max_delay (dc_retry_policy dc)"
    and "successively (\<lambda>a b. a + dp_max_delay (dc_retry_policy dc) \<le> b) (now # nows)"
    and "\<not> is_deferred dc (sr_event_id entry) now s"
    and "failures dc entry s + int (length (now # nows)) = dp_max_attempts (dc_retry_policy dc)"
    and "redeliver dc draw entry handler (now # nows) s = (rs, s')"
  shows "rs = replicate (length nows) (Inr (RETRY, [])) @ [Inr (DEAD_LETTERED, [sr_stream_id entry])] \<and>
    received s' = received s \<and>
    s' = s\<lparr>consumer_deliveries := consumer_deliveries s', dead_letters := dead_letters s'\<rparr> \<and>
    (\<exists>d \<in> set (dead_letters s'). dd_consumer d = dc_consumer dc \<and> dd_event_id d = sr_event_id entry)"
  using assms(3-)
proof (induction nows arbitrary: now s rs)
  case Nil
  show ?case
    by (rule process_poisoned[OF assms(1,2) Nil.prems(1,4), where draw = draw]) (use Nil.prems in auto)
next
  case (Cons t nows)
  let ?f = "failures dc entry s"
  have below: "?f + 1 < dp_max_attempts (dc_retry_policy dc)" using Cons.prems(5) by simp
  obtain s1 where one: "process dc draw entry handler (Some now) s =
      (Inr (if ?f + 1 \<ge> dp_max_attempts (dc_retry_policy dc) then (DEAD_LETTERED, [sr_stream_id entry]) else (RETRY, [])), s1)"
    and count: "failures dc entry s1 = ?f + 1" and kept: "received s1 = received s"
    and s1: "s1 = s\<lparr>consumer_deliveries := consumer_deliveries s1, dead_letters := dead_letters s1\<rparr>"
    and due: "?f + 1 < dp_max_attempts (dc_retry_policy dc) \<Longrightarrow> dead_letters s1 = dead_letters s \<and>
       (\<forall>t \<ge> now + delay_for (dc_retry_policy dc) draw (?f + 1). \<not> is_deferred dc (sr_event_id entry) t s1)"
    by (rule process_poisoned[OF assms(1,2) Cons.prems(1,4), where draw = draw]) blast
  obtain rs1 where rest: "redeliver dc draw entry handler (t # nows) s1 = (rs1, s')" and rs: "rs = Inr (RETRY, []) # rs1"
    using Cons.prems(6) below by (auto simp: one split: prod.splits)
  have gap: "now + dp_max_delay (dc_retry_policy dc) \<le> t" using Cons.prems(3) by simp
  have "now + delay_for (dc_retry_policy dc) draw (?f + 1) \<le> t"
    using gap Cons.prems(2)[rule_format, of "?f + 1"] by linarith
  then have "\<not> is_deferred dc (sr_event_id entry) t s1" using due below by blast
  moreover have "(dc_group dc, sr_event_id entry) \<notin> received s1" using Cons.prems(1) kept by simp
  ultimately have IH: "rs1 = replicate (length nows) (Inr (RETRY, [])) @ [Inr (DEAD_LETTERED, [sr_stream_id entry])] \<and>
    received s' = received s1 \<and>
    s' = s1\<lparr>consumer_deliveries := consumer_deliveries s', dead_letters := dead_letters s'\<rparr> \<and>
    (\<exists>d \<in> set (dead_letters s'). dd_consumer d = dc_consumer dc \<and> dd_event_id d = sr_event_id entry)"
    using Cons.IH[of s1 t rs1] Cons.prems(2,3,5) count rest by simp
  obtain a b where ab: "s1 = s\<lparr>consumer_deliveries := a, dead_letters := b\<rparr>" using s1 by blast
  from IH have "s' = s1\<lparr>consumer_deliveries := consumer_deliveries s', dead_letters := dead_letters s'\<rparr>" by blast
  then have "s' = s\<lparr>consumer_deliveries := consumer_deliveries s', dead_letters := dead_letters s'\<rparr>" unfolding ab by simp
  then show ?case using IH kept rs by auto
qed



subsection \<open>Sweeping stalled deliveries\<close>

lemma insert_dead_letter_present:
  "set (dead_letters s) \<subseteq> set (dead_letters (insert_dead_letter d s))"
  "\<exists>x \<in> set (dead_letters (insert_dead_letter d s)). dd_consumer x = dd_consumer d \<and> dd_event_id x = dd_event_id d"
  by (auto simp: insert_dead_letter_def)

lemma sweep_one_dead_letter:
  "set (dead_letters s) \<subseteq> set (dead_letters (sweep_one dc r s))"
  "\<exists>x \<in> set (dead_letters (sweep_one dc r s)). dd_consumer x = dc_consumer dc \<and> dd_event_id x = dl_event_id r"
proof -
  have "\<exists>d t. sweep_one dc r s = insert_dead_letter d t \<and> dd_consumer d = dc_consumer dc \<and>
      dd_event_id d = dl_event_id r \<and> dead_letters t = dead_letters s"
    unfolding sweep_one_def Let_def by (intro exI conjI, rule refl) simp_all
  then obtain d t where t: "sweep_one dc r s = insert_dead_letter d t" "dead_letters t = dead_letters s"
    and d: "dd_consumer d = dc_consumer dc" "dd_event_id d = dl_event_id r" by blast
  show "set (dead_letters s) \<subseteq> set (dead_letters (sweep_one dc r s))"
    using insert_dead_letter_present(1)[of t d] by (simp add: t)
  show "\<exists>x \<in> set (dead_letters (sweep_one dc r s)). dd_consumer x = dc_consumer dc \<and> dd_event_id x = dl_event_id r"
    using insert_dead_letter_present(2)[of d t] by (simp add: t d)
qed

lemma sweep_fold_dead_letters:
  "set (dead_letters s) \<subseteq> set (dead_letters (fold (sweep_one dc) rows s)) \<and>
   (\<forall>r \<in> set rows. \<exists>x \<in> set (dead_letters (fold (sweep_one dc) rows s)).
      dd_consumer x = dc_consumer dc \<and> dd_event_id x = dl_event_id r)"
proof (induction rows arbitrary: s)
  case Nil
  then show ?case by simp
next
  case (Cons r rows)
  then show ?case using sweep_one_dead_letter(1)[of s dc r] sweep_one_dead_letter(2)[of dc r s] by fastforce
qed

text \<open>
  Property C38: a delivery that succeeds after a failed attempt stays marked for retry, and a later
  sweep records it as a dead letter although its effect was applied. The sweep may be any consumer's,
  also one of another group.
\<close>

theorem applied_delivery_is_swept:
  assumes "row_get delivery_key (dc_group dc, sr_event_id entry) (consumer_deliveries s) = Some r"
    and "dl_status r = ''RETRY''" and "dl_next_attempt_at r \<le> now"
    and "(dc_group dc, sr_event_id entry) \<notin> received s"
    and "handler (sr_payload entry) (snd (claim_consumer_receipt (dc_group dc) (sr_event_id entry) s)) = Inr s2"
    and "consumer_deliveries s2 = consumer_deliveries s"
    and "dl_next_attempt_at r + dp_max_delay (dc_retry_policy dc2) \<le> later"
  shows "process dc draw entry handler (Some now) s = (Inr (APPLIED, [sr_stream_id entry]), s2) \<and>
    (\<exists>d \<in> set (dead_letters (snd (sweep_stalled dc2 (Some later) s2))).
       dd_consumer d = dc_consumer dc2 \<and> dd_event_id d = sr_event_id entry)"
proof -
  have "\<not> is_deferred dc (sr_event_id entry) now s" using assms(1-3) by (simp add: is_deferred_def)
  moreover have "fst (claim_consumer_receipt (dc_group dc) (sr_event_id entry) s)"
    using assms(4) by (simp add: claim_consumer_receipt_def received_def)
  ultimately have "process dc draw entry handler (Some now) s = (Inr (APPLIED, [sr_stream_id entry]), s2)"
    using assms(5) by (simp add: process_def case_prod_beta)
  moreover have "r \<in> set (filter (stalled dc2 later) (consumer_deliveries s2))" "dl_event_id r = sr_event_id entry"
    using assms(2,6,7) row_get_Some[OF assms(1)] by (auto simp: stalled_def delivery_key_def)
  ultimately show ?thesis
    using sweep_fold_dead_letters[of s2 dc2 "filter (stalled dc2 later) (consumer_deliveries s2)", THEN conjunct2,
        rule_format, of r]
    by (simp add: sweep_stalled_def Let_def)
qed

definition sample_retry :: db where
  "sample_retry = snd (process sample_consumer (\<lambda>c. c) sample_entry (\<lambda>_ _. Inl ''busy'') (Some 20) empty_db)"

theorem applied_delivery_is_swept_witness:
  "fst (process sample_consumer (\<lambda>c. c) sample_entry (\<lambda>_ s. Inr s) (Some 22) sample_retry) = Inr (APPLIED, [''7-0'']) \<and>
   (\<exists>d. d \<in> set (dead_letters (snd (sweep_stalled (sample_consumer\<lparr>dc_group := ''audit''\<rparr>) (Some 40)
      (snd (claim_consumer_receipt ''workers'' 4 sample_retry))))) \<and> dd_event_id d = 4)"
proof -
  let ?s = sample_retry
  let ?r = "\<lparr>dl_consumer = ''workers'', dl_event_id = 4, dl_topic = ''task-ready'', dl_attempts = 1, dl_status = ''RETRY'',
     dl_next_attempt_at = 22, dl_last_error = Some ''busy'', dl_updated_at = 0\<rparr>"
  have rows: "consumer_deliveries ?s = [?r]" and receipts: "consumer_receipts ?s = []" by code_simp+
  have id: "sr_event_id sample_entry = 4" "dc_group sample_consumer = ''workers''" "sr_stream_id sample_entry = ''7-0''"
    by code_simp+
  have "process sample_consumer (\<lambda>c. c) sample_entry (\<lambda>_ s. Inr s) (Some 22) ?s =
      (Inr (APPLIED, [sr_stream_id sample_entry]), snd (claim_consumer_receipt ''workers'' 4 ?s)) \<and>
    (\<exists>d \<in> set (dead_letters (snd (sweep_stalled (sample_consumer\<lparr>dc_group := ''audit''\<rparr>) (Some 40)
       (snd (claim_consumer_receipt ''workers'' 4 ?s))))).
       dd_consumer d = dc_consumer (sample_consumer\<lparr>dc_group := ''audit''\<rparr>) \<and> dd_event_id d = sr_event_id sample_entry)"
    by (rule applied_delivery_is_swept[where r = ?r])
      (simp_all add: rows receipts id delivery_key_def received_def claim_consumer_receipt_def sample_consumer_def)
  then show ?thesis by (auto simp: id)
qed

end
