(* ===== verification/Redactor.thy ===== *)
theory Redactor
  imports Risk_Policy "HOL-Library.Sublist"
begin

section \<open>The secret redactor\<close>

text \<open>
  \<open>src/policies/guardrails/secret_redactor.py\<close>. The regular expressions are data: a datatype with the
  constructs the patterns use, and the backtracking matcher of Python's \<open>re\<close>, which tries alternatives
  in order and repetitions longest (or, for \<open>*?\<close>, shortest) first. The matcher returns every way to
  match at a position, in the order in which \<open>re\<close> would try them; a match is the first. Repetition is only
  ever applied to a character class. A position is the character before it and the text after it, which is
  what lookbehind and \<open>\b\<close> see. Characters are the code points below 256.
\<close>

subsection \<open>Regular expressions\<close>

datatype regex =
    RClass "char \<Rightarrow> bool"
  | RSeq regex regex
  | RAlt regex regex
  | REmpty
  | RMany "char \<Rightarrow> bool" nat "nat option"
  | RLazy "char \<Rightarrow> bool"
  | RNotAfter "char \<Rightarrow> bool"
  | RBoundary
  | REnd

type_synonym position = "char option \<times> string"

text \<open>The position after taking \<open>n\<close> characters.\<close>

fun advance :: "nat \<Rightarrow> position \<Rightarrow> position" where
  "advance 0 p = p"
| "advance (Suc n) (prev, []) = (prev, [])"
| "advance (Suc n) (prev, c # cs) = advance n (Some c, cs)"

definition class_run :: "(char \<Rightarrow> bool) \<Rightarrow> string \<Rightarrow> nat" where
  "class_run P s = length (takeWhile P s)"

definition is_word :: "char \<Rightarrow> bool" where
  "is_word c = (let n = of_char c :: nat in 48 \<le> n \<and> n \<le> 57 \<or> 65 \<le> n \<and> n \<le> 90 \<or> n = 95 \<or> 97 \<le> n \<and> n \<le> 122 \<or>
     n \<in> {170, 178, 179, 181, 185, 186, 188, 189, 190} \<or> 192 \<le> n \<and> n \<noteq> 215 \<and> n \<noteq> 247)"

definition word_before :: "position \<Rightarrow> bool" where
  "word_before p = (case fst p of None \<Rightarrow> False | Some c \<Rightarrow> is_word c)"

definition word_after :: "position \<Rightarrow> bool" where
  "word_after p = (case snd p of [] \<Rightarrow> False | c # _ \<Rightarrow> is_word c)"

fun matches :: "regex \<Rightarrow> position \<Rightarrow> position list" where
  "matches (RClass P) p = (case snd p of [] \<Rightarrow> [] | c # cs \<Rightarrow> if P c then [(Some c, cs)] else [])"
| "matches (RSeq r q) p = concat (map (matches q) (matches r p))"
| "matches (RAlt r q) p = matches r p @ matches q p"
| "matches REmpty p = [p]"
| "matches (RMany P lo hi) p =
     (let n = class_run P (snd p); most = (case hi of None \<Rightarrow> n | Some h \<Rightarrow> min n h)
      in map (\<lambda>i. advance i p) (rev [lo..<Suc most]))"
| "matches (RLazy P) p = map (\<lambda>i. advance i p) [0..<Suc (class_run P (snd p))]"
| "matches (RNotAfter P) p = (case fst p of None \<Rightarrow> [p] | Some c \<Rightarrow> if P c then [] else [p])"
| "matches RBoundary p = (if word_before p = word_after p then [] else [p])"
| "matches REnd p = (if snd p = [] \<or> snd p = [CHR 0x0A] then [p] else [])"

text \<open>\<open>pattern.match\<close> and \<open>pattern.sub\<close>; no pattern of the module matches the empty text.\<close>

definition re_match :: "regex \<Rightarrow> string \<Rightarrow> bool" where
  "re_match r s \<longleftrightarrow> matches r (None, s) \<noteq> []"

definition redacted :: string where
  "redacted = ''[REDACTED]''"

function re_sub :: "regex \<Rightarrow> char option \<Rightarrow> string \<Rightarrow> string" where
  "re_sub r prev [] = []"
| "re_sub r prev (c # cs) =
     (case matches r (prev, c # cs) of
        [] \<Rightarrow> c # re_sub r (Some c) cs
      | (prev', rest) # _ \<Rightarrow>
          if length rest \<le> length cs then redacted @ re_sub r prev' rest else c # re_sub r (Some c) cs)"
  by pat_completeness auto
termination by (relation "measure (\<lambda>(r, prev, s). length s)") auto

subsection \<open>The patterns\<close>

definition digit :: "char \<Rightarrow> bool" where "digit c = (CHR ''0'' \<le> c \<and> c \<le> CHR ''9'')"
definition upper :: "char \<Rightarrow> bool" where "upper c = (CHR ''A'' \<le> c \<and> c \<le> CHR ''Z'')"
definition lower :: "char \<Rightarrow> bool" where "lower c = (CHR ''a'' \<le> c \<and> c \<le> CHR ''z'')"
definition alnum :: "char \<Rightarrow> bool" where "alnum c = (digit c \<or> upper c \<or> lower c)"

definition space :: "char \<Rightarrow> bool" where
  "space c = (let n = of_char c :: nat in 9 \<le> n \<and> n \<le> 13 \<or> 28 \<le> n \<and> n \<le> 32 \<or> n = 133 \<or> n = 160)"

definition one_of :: "string \<Rightarrow> char \<Rightarrow> bool" where "one_of cs c = (c \<in> set cs)"

fun lit :: "string \<Rightarrow> regex" where
  "lit [] = REmpty"
| "lit (c # cs) = RSeq (RClass (\<lambda>x. x = c)) (lit cs)"

text \<open>A literal under \<open>(?i)\<close>, written in lower case.\<close>

fun ilit :: "string \<Rightarrow> regex" where
  "ilit [] = REmpty"
| "ilit (c # cs) = RSeq (RClass (\<lambda>x. casefold_char x = c)) (ilit cs)"

definition opt :: "regex \<Rightarrow> regex" where "opt r = RAlt r REmpty"

fun seqs :: "regex list \<Rightarrow> regex" where
  "seqs [] = REmpty"
| "seqs (r # rs) = RSeq r (seqs rs)"

fun alts :: "regex list \<Rightarrow> regex" where
  "alts [] = REmpty"
| "alts [r] = r"
| "alts (r # rs) = RAlt r (alts rs)"

text \<open>A word of the keyword lists, under \<open>(?i)\<close>; a character followed by a question mark is optional.\<close>

fun keyword :: "string \<Rightarrow> regex" where
  "keyword [] = REmpty"
| "keyword [c] = ilit [c]"
| "keyword (c # d # cs) =
     (if d = CHR ''?'' then RSeq (opt (ilit [c])) (keyword cs) else RSeq (ilit [c]) (keyword (d # cs)))"

definition SENSITIVE_KEY_EXACT :: "string list" where
  "SENSITIVE_KEY_EXACT = [''key'', ''api_key'', ''apikey'', ''api-key'', ''secret'', ''password'', ''passwd'', ''pwd'',
     ''token'', ''auth'', ''authorization'', ''credential'', ''credentials'', ''private_key'', ''access_key'',
     ''auth_token'', ''access_token'', ''refresh_token'', ''secret_key'', ''client_secret'', ''aws_secret'',
     ''aws_secret_access_key'', ''admin_token'', ''session_token'', ''jwt'', ''x-api-key'', ''connection_string'', ''dsn'']"

definition SENSITIVE_KEY_PATTERNS :: "regex list" where
  "SENSITIVE_KEY_PATTERNS =
     [seqs [RMany (\<lambda>c. c \<noteq> CHR 0x0A) 0 None, RClass (one_of ''-_''),
        alts (map ilit [''key'', ''secret'', ''password'', ''passwd'', ''token'', ''credentials'', ''auth'', ''jwt'']), REnd],
      seqs [alts (map keyword [''api_?key'', ''secret'', ''password'', ''passwd'', ''auth_?token'', ''access_?key'',
        ''secret_?key'', ''private_?key'', ''credentials'', ''token'', ''auth'', ''admin_?token'', ''client_?secret'', ''dsn'']),
        REnd]]"

definition ASSIGNMENT_KEYWORD :: regex where
  "ASSIGNMENT_KEYWORD =
     alts [keyword ''api_?keys?'', seqs [ilit ''secret'', opt (ilit ''_access''), keyword ''_?keys?''],
       keyword ''secrets?'', keyword ''passwords?'', ilit ''passwd'', keyword ''auth_?tokens?'', keyword ''access_?tokens?'',
       keyword ''refresh_?tokens?'', keyword ''session_?tokens?'', keyword ''client_?secrets?'', keyword ''private_?keys?'',
       keyword ''credentials?'', keyword ''admins?_?tokens?'', keyword ''aws_?secret_?access_?key'',
       keyword ''x-?api-?keys?'', ilit ''dsn'', keyword ''connection_?strings?'']"

definition word_chars :: "char \<Rightarrow> bool" where "word_chars c = (alnum c \<or> c = CHR ''_'')"
definition key_chars :: "char \<Rightarrow> bool" where "key_chars c = (alnum c \<or> c = CHR ''_'' \<or> c = CHR ''-'')"
definition upper_digits :: "char \<Rightarrow> bool" where "upper_digits c = (digit c \<or> upper c)"

text \<open>The quote characters: double quote, single quote, backquote.\<close>

definition quotes :: string where "quotes = [CHR 0x22, CHR 0x27, CHR 0x60]"

definition GITHUB_TOKEN :: regex where
  "GITHUB_TOKEN = seqs [lit ''gh'', RClass (one_of ''pousr''), lit ''_'', RMany word_chars 10 None]"

definition GITHUB_PAT :: regex where
  "GITHUB_PAT = seqs [lit ''github_pat_'', RMany word_chars 30 None]"

definition SK_KEY :: regex where
  "SK_KEY = seqs [lit ''sk-'', opt (lit ''proj-''), RMany key_chars 10 None]"

definition AKIA_KEY :: regex where
  "AKIA_KEY = seqs [lit ''AKIA'', RMany upper_digits 16 (Some 16)]"

definition ASIA_KEY :: regex where
  "ASIA_KEY = seqs [lit ''ASIA'', RMany upper_digits 16 (Some 16)]"

definition BEARER :: regex where
  "BEARER = seqs [ilit ''bearer'', RMany space 1 None, RMany (\<lambda>c. key_chars c \<or> c = CHR ''.'') 8 None]"

definition SLACK_TOKEN :: regex where
  "SLACK_TOKEN = seqs [lit ''xox'', RClass (one_of ''baprs''), lit ''-'', RMany key_chars 10 None]"

definition GOOGLE_KEY :: regex where
  "GOOGLE_KEY = seqs [lit ''AIza'', RMany key_chars 35 (Some 35)]"

definition pem_name :: "char \<Rightarrow> bool" where "pem_name c = (upper_digits c \<or> c = CHR '' '')"

definition PEM_BLOCK :: regex where
  "PEM_BLOCK = seqs [lit ''-----BEGIN '', RMany pem_name 0 None, lit ''PRIVATE KEY-----'', RLazy (\<lambda>_. True),
     lit ''-----END '', RMany pem_name 0 None, lit ''PRIVATE KEY-----'']"

definition KEY_HEADER :: regex where
  "KEY_HEADER = seqs [lit ''-----BEGIN '',
     opt (RMany (\<lambda>c. upper_digits c \<or> space c \<or> c = CHR ''_'' \<or> c = CHR ''-'') 1 None), lit ''KEY-----'']"

definition URL_CREDENTIALS :: regex where
  "URL_CREDENTIALS = seqs [alts [seqs [lit ''postgres'', opt (lit ''ql'')], lit ''mysql'', seqs [lit ''mongodb'', opt (lit ''+srv'')],
       lit ''redis'', lit ''amqp''], lit ''://'',
     RMany (\<lambda>c. c \<noteq> CHR '':'' \<and> \<not> space c \<and> c \<noteq> CHR 0x22 \<and> c \<noteq> CHR 0x27) 1 None, lit '':'',
     RMany (\<lambda>c. c \<noteq> CHR ''@'' \<and> \<not> space c \<and> c \<noteq> CHR 0x22 \<and> c \<noteq> CHR 0x27) 1 None, lit ''@'']"

definition ASSIGNMENT :: regex where
  "ASSIGNMENT = seqs [RNotAfter alnum, opt (RClass (one_of [CHR 0x22, CHR 0x27])), ASSIGNMENT_KEYWORD,
     opt (RClass (one_of [CHR 0x22, CHR 0x27])), RMany space 0 None, RMany (one_of '':='') 1 (Some 2), opt (lit ''>''),
     RMany space 0 None, opt (RClass (one_of quotes)),
     RMany (\<lambda>c. \<not> space c \<and> \<not> one_of quotes c \<and> \<not> one_of '',;}'' c) 8 None]"

definition JWT :: regex where
  "JWT = seqs [RBoundary, lit ''eyJ'', RMany key_chars 10 None, lit ''.eyJ'', RMany key_chars 10 None, lit ''.'',
     RMany (\<lambda>c. key_chars c \<or> c = CHR ''.'') 10 None, RBoundary]"

definition SECRET_PATTERNS :: "regex list" where
  "SECRET_PATTERNS = [GITHUB_TOKEN, GITHUB_PAT, SK_KEY, AKIA_KEY, ASIA_KEY, BEARER, SLACK_TOKEN, GOOGLE_KEY, PEM_BLOCK,
     KEY_HEADER, URL_CREDENTIALS, ASSIGNMENT, JWT]"

subsection \<open>Redaction\<close>

definition is_sensitive_key :: "string \<Rightarrow> bool" where
  "is_sensitive_key key =
     (let k_lower = casefold key
      in k_lower \<in> set SENSITIVE_KEY_EXACT \<or> list_ex (\<lambda>r. re_match r k_lower) SENSITIVE_KEY_PATTERNS)"

definition redact_text :: "string \<Rightarrow> string" where
  "redact_text s = fold (\<lambda>r res. re_sub r None res) SECRET_PATTERNS s"

function redact :: "json \<Rightarrow> json" where
  "redact (JObj kvs) = JObj (map (\<lambda>(k, v). (k, if is_sensitive_key k then JStr redacted else redact v)) kvs)"
| "redact (JList xs) = JList (map redact xs)"
| "redact (JStr s) = JStr (redact_text s)"
| "redact JNull = JNull"
| "redact (JBool b) = JBool b"
| "redact (JInt i) = JInt i"
  by pat_completeness auto
termination
  by (relation "measure size") (auto simp: less_Suc_eq_le intro: size_list_estimation')

subsection \<open>What a pattern describes\<close>

text \<open>
  The texts a pattern describes, for patterns that do not look around; lookaround has no text of its own
  and describes nothing here.
\<close>

fun lang :: "regex \<Rightarrow> string set" where
  "lang (RClass P) = {[c] |c. P c}"
| "lang (RSeq r q) = {u @ v |u v. u \<in> lang r \<and> v \<in> lang q}"
| "lang (RAlt r q) = lang r \<union> lang q"
| "lang REmpty = {[]}"
| "lang (RMany P lo hi) = {u. (\<forall>c \<in> set u. P c) \<and> lo \<le> length u \<and> (case hi of None \<Rightarrow> True | Some h \<Rightarrow> length u \<le> h)}"
| "lang (RLazy P) = {u. \<forall>c \<in> set u. P c}"
| "lang (RNotAfter P) = {}"
| "lang RBoundary = {}"
| "lang REnd = {}"

lemma advance_append: "advance (length u) (prev, u @ v) = (if u = [] then prev else Some (last u), v)"
  by (induction u arbitrary: prev) auto

lemma class_run_append: "\<forall>c \<in> set u. P c \<Longrightarrow> length u \<le> class_run P (u @ v)"
  by (induction u) (auto simp: class_run_def)

text \<open>The matcher finds every text of the language: it is complete.\<close>

lemma matches_complete:
  assumes "u \<in> lang r"
  shows "(if u = [] then prev else Some (last u), v) \<in> set (matches r (prev, u @ v))"
  using assms
proof (induction r arbitrary: u prev v)
  case (RSeq r q)
  then obtain x y where u: "u = x @ y" "x \<in> lang r" "y \<in> lang q" by auto
  let ?p = "if x = [] then prev else Some (last x)"
  have "(?p, y @ v) \<in> set (matches r (prev, x @ y @ v))" by (rule RSeq.IH(1)[OF u(2)])
  moreover have "(if y = [] then ?p else Some (last y), v) \<in> set (matches q (?p, y @ v))" by (rule RSeq.IH(2)[OF u(3)])
  moreover have "(if u = [] then prev else Some (last u)) = (if y = [] then ?p else Some (last y))" by (simp add: u(1))
  ultimately show ?case unfolding u(1) by (simp only: matches.simps set_concat set_map append_assoc) blast
next
  case (RAlt r q)
  from RAlt.prems consider "u \<in> lang r" | "u \<in> lang q" by auto
  then show ?case by cases (use RAlt.IH in \<open>simp_all only: matches.simps set_append Un_iff simp_thms\<close>)
next
  case (RMany P lo hi)
  let ?n = "class_run P (u @ v)"
  let ?m = "case hi of None \<Rightarrow> ?n | Some h \<Rightarrow> min ?n h"
  have "lo \<le> length u" "length u < Suc ?m" using RMany class_run_append[of u P v] by (auto split: option.splits)
  then have "length u \<in> set (rev [lo..<Suc ?m])" by (simp only: set_rev set_upt atLeastLessThan_iff simp_thms)
  then have "advance (length u) (prev, u @ v) \<in> set (matches (RMany P lo hi) (prev, u @ v))"
    by (auto simp: Let_def)
  then show ?case by (simp add: advance_append)
next
  case (RLazy P)
  then have "length u \<in> set [0..<Suc (class_run P (u @ v))]" using class_run_append[of u P v] by auto
  then have "advance (length u) (prev, u @ v) \<in> set (matches (RLazy P) (prev, u @ v))" by auto
  then show ?case by (simp add: advance_append)
qed auto

subsection \<open>Redacted text\<close>

definition bracketless :: "string \<Rightarrow> bool" where
  "bracketless u \<longleftrightarrow> CHR ''['' \<notin> set u \<and> CHR '']'' \<notin> set u"

lemma redacted_split: "redacted = CHR ''['' # ''REDACTED'' @ '']''"
  by (simp add: redacted_def)

text \<open>Text without brackets at the front of a substitution's result was there before.\<close>

lemma re_sub_prefix:
  assumes "prefix u (re_sub r prev s)" and "bracketless u"
  shows "prefix u s"
  using assms
proof (induction r prev s arbitrary: u rule: re_sub.induct)
  case (1 r prev)
  then show ?case by simp
next
  case (2 r prev c cs)
  show ?case
  proof (cases u)
    case (Cons d u')
    have "hd (re_sub r prev (c # cs)) = d" "re_sub r prev (c # cs) \<noteq> []" using 2(4) Cons by (auto simp: prefix_def)
    moreover have "d \<noteq> CHR ''[''" using 2(5) Cons by (auto simp: bracketless_def)
    ultimately have kept: "re_sub r prev (c # cs) = c # re_sub r (Some c) cs"
      by (auto simp: redacted_split split: list.splits if_splits)
    then show ?thesis
      using 2 Cons by (cases "matches r (prev, c # cs)") (auto simp: bracketless_def redacted_split split: if_splits)
  qed simp
qed

text \<open>Text without brackets anywhere in the result was there before, or lies inside the marker.\<close>

lemma sublist_separated:
  assumes "sublist u (a @ c # b)" and "c \<notin> set u"
  shows "sublist u a \<or> sublist u b"
proof -
  consider "sublist u a" | "sublist u (c # b)" | x y where "u = x @ y" "suffix x a" "prefix y (c # b)"
    using assms(1) by (auto simp: sublist_append)
  then show ?thesis
  proof cases
    case 2
    then show ?thesis using assms(2) by (cases u) (auto simp: sublist_Cons_right)
  next
    case 3
    then have "y = []" using assms(2) by (cases y) auto
    then show ?thesis using 3 by (simp add: suffix_imp_sublist)
  qed simp
qed

lemma sublist_marker:
  assumes "sublist u (redacted @ t)" and "bracketless u"
  shows "sublist u ''REDACTED'' \<or> sublist u t"
proof -
  have "sublist u ([] @ CHR ''['' # ''REDACTED'' @ CHR '']'' # t)" using assms(1) by (simp add: redacted_split)
  then have "u = [] \<or> sublist u (''REDACTED'' @ CHR '']'' # t)"
    using sublist_separated assms(2) unfolding bracketless_def by (metis sublist_Nil_right)
  then show ?thesis using sublist_separated[of u "''REDACTED''" "CHR '']''" t] assms(2) by (auto simp: bracketless_def)
qed

lemma re_sub_cases:
  obtains "re_sub r prev (c # cs) = c # re_sub r (Some c) cs" "matches r (prev, c # cs) = [] \<or>
      length cs < length (snd (hd (matches r (prev, c # cs))))"
  | prev' rest where "re_sub r prev (c # cs) = redacted @ re_sub r prev' rest" "length rest \<le> length cs"
      "(prev', rest) \<in> set (matches r (prev, c # cs))"
proof (cases "matches r (prev, c # cs)")
  case Nil
  then show thesis by (intro that(1)) simp_all
next
  case (Cons p ps)
  show thesis
  proof (cases "length (snd p) \<le> length cs")
    case True
    then show thesis using Cons by (intro that(2)[of "fst p" "snd p"]) (simp_all add: case_prod_beta)
  next
    case False
    then show thesis using Cons by (intro that(1)) (simp_all add: case_prod_beta)
  qed
qed

lemma advance_suffix: "suffix (snd (advance n (prev, s))) s"
  by (induction n "(prev, s)" arbitrary: prev s rule: advance.induct) (auto intro: suffix_ConsI)

lemma matches_suffix: "q \<in> set (matches r p) \<Longrightarrow> suffix (snd q) (snd p)"
proof (induction r arbitrary: p q)
  case (RSeq r1 r2)
  then obtain m where "m \<in> set (matches r1 p)" "q \<in> set (matches r2 m)" by auto
  then show ?case using RSeq.IH suffix_order.order_trans by blast
next
  case (RClass P)
  then show ?case by (cases "snd p") (auto intro: suffix_ConsI split: if_splits)
next
  case (RAlt r1 r2)
  from RAlt.prems have "q \<in> set (matches r1 p) \<or> q \<in> set (matches r2 p)" by simp
  then show ?case using RAlt.IH by blast
qed (auto simp: advance_suffix Let_def split: option.splits if_splits)

lemma re_sub_sublist:
  assumes "sublist u (re_sub r prev s)" and "bracketless u"
  shows "sublist u s \<or> sublist u ''REDACTED''"
  using assms
proof (induction "length s" arbitrary: s prev rule: less_induct)
  case less
  show ?case
  proof (cases s)
    case Nil
    then show ?thesis using less.prems by simp
  next
    case (Cons c cs)
    show ?thesis
    proof (cases rule: re_sub_cases[of r prev c cs])
      case 1
      then have "prefix u (re_sub r prev s) \<or> sublist u (re_sub r (Some c) cs)"
        using less.prems(1) by (simp add: Cons sublist_Cons_right)
      then show ?thesis
        using re_sub_prefix[OF _ less.prems(2)] less.hyps[of cs "Some c"] less.prems(2)
        by (auto simp: Cons sublist_Cons_right)
    next
      case (2 prev' rest)
      have "sublist rest s" using matches_suffix[OF 2(3)] by (simp add: Cons suffix_imp_sublist)
      then show ?thesis
        using less.prems sublist_marker[of u "re_sub r prev' rest"] less.hyps[of rest prev'] 2(1,2)
        by (auto simp: Cons dest: sublist_order.order_trans)
    qed
  qed
qed

text \<open>The least number of characters a pattern consumes.\<close>

fun min_len :: "regex \<Rightarrow> nat" where
  "min_len (RClass P) = 1"
| "min_len (RSeq r q) = min_len r + min_len q"
| "min_len (RAlt r q) = min (min_len r) (min_len q)"
| "min_len (RMany P lo hi) = lo"
| "min_len _ = 0"

lemma length_advance: "length (snd (advance n (prev, s))) = length s - n"
  by (induction n "(prev, s)" arbitrary: prev s rule: advance.induct) auto

lemma matches_min_len: "q \<in> set (matches r p) \<Longrightarrow> length (snd q) + min_len r \<le> length (snd p)"
proof (induction r arbitrary: p q)
  case (RClass P)
  then show ?case by (cases "snd p") (auto split: if_splits)
next
  case (RSeq r1 r2)
  then obtain m where "m \<in> set (matches r1 p)" "q \<in> set (matches r2 m)" by auto
  then show ?case using RSeq.IH(1)[of m p] RSeq.IH(2)[of q m] by simp
next
  case (RAlt r1 r2)
  from RAlt.prems have "q \<in> set (matches r1 p) \<or> q \<in> set (matches r2 p)" by simp
  then show ?case using RAlt.IH(1)[of q p] RAlt.IH(2)[of q p] by auto
next
  case (RMany P lo hi)
  obtain prev s where p: "p = (prev, s)" by fastforce
  obtain i where i: "q = advance i (prev, s)" "lo \<le> i" "i \<le> class_run P s"
    using RMany.prems by (auto simp: p Let_def split: option.splits)
  have "class_run P s \<le> length s" by (simp add: class_run_def length_takeWhile_le)
  then show ?case using i by (simp add: p length_advance)
next
  case (RLazy P)
  then show ?case using matches_suffix[OF RLazy] by (auto dest: suffix_length_le)
qed (auto split: option.splits if_splits)

lemma lang_min_len: "u \<in> lang r \<Longrightarrow> min_len r \<le> length u"
proof (induction r arbitrary: u)
  case (RSeq r1 r2)
  then obtain x y where "u = x @ y" "x \<in> lang r1" "y \<in> lang r2" by auto
  then show ?case using RSeq.IH by (simp add: add_mono)
next
  case (RAlt r1 r2)
  then show ?case using RAlt.IH(1)[of u] RAlt.IH(2)[of u] by (auto simp: min_le_iff_disj)
qed auto

text \<open>Patterns whose classes contain no bracket.\<close>

fun bracket_free :: "regex \<Rightarrow> bool" where
  "bracket_free (RClass P) = (\<not> P (CHR ''['') \<and> \<not> P (CHR '']''))"
| "bracket_free (RSeq r q) = (bracket_free r \<and> bracket_free q)"
| "bracket_free (RAlt r q) = (bracket_free r \<and> bracket_free q)"
| "bracket_free (RMany P lo hi) = (\<not> P (CHR ''['') \<and> \<not> P (CHR '']''))"
| "bracket_free (RLazy P) = (\<not> P (CHR ''['') \<and> \<not> P (CHR '']''))"
| "bracket_free _ = True"

lemma lang_bracketless: "bracket_free r \<Longrightarrow> u \<in> lang r \<Longrightarrow> bracketless u"
  by (induction r arbitrary: u) (auto simp: bracketless_def)

text \<open>
  Patterns longer than the marker's text and without brackets; the substitution of such a pattern
  leaves none of its texts.
\<close>

definition token_like :: "regex \<Rightarrow> bool" where
  "token_like r \<longleftrightarrow> bracket_free r \<and> length redacted < min_len r"

lemma token_like_facts:
  assumes "token_like r" and "u \<in> lang r"
  shows "bracketless u" "\<not> sublist u ''REDACTED''"
  using assms lang_bracketless[of r u] lang_min_len[OF assms(2)] sublist_length_le[of u "''REDACTED''"]
  by (auto simp: token_like_def redacted_def)

lemma re_sub_clears:
  assumes "token_like r" and "u \<in> lang r"
  shows "\<not> sublist u (re_sub r prev s)"
proof (induction "length s" arbitrary: s prev rule: less_induct)
  case less
  note u = token_like_facts[OF assms]
  then have "u \<noteq> []" by auto
  show ?case
  proof (cases s)
    case Nil
    then show ?thesis using \<open>u \<noteq> []\<close> by simp
  next
    case (Cons c cs)
    show ?thesis
    proof (cases rule: re_sub_cases[of r prev c cs])
      case 1
      have "\<not> prefix u (re_sub r prev s)"
      proof
        assume "prefix u (re_sub r prev s)"
        from re_sub_prefix[OF this u(1)] obtain v where v: "s = u @ v" by (auto simp: prefix_def)
        then have found: "(Some (last u), v) \<in> set (matches r (prev, s))"
          using matches_complete[OF assms(2), of prev v] \<open>u \<noteq> []\<close> by simp
        then have "hd (matches r (prev, s)) \<in> set (matches r (prev, s))" by (cases "matches r (prev, s)") auto
        then have "length (snd (hd (matches r (prev, s)))) < length s"
          using matches_min_len[of _ r "(prev, s)"] assms(1) by (fastforce simp: token_like_def)
        then show False using 1(2) found Cons by auto
      qed
      then show ?thesis using less.hyps[of cs "Some c"] 1(1) by (simp add: Cons sublist_Cons_right)
    next
      case (2 prev' rest)
      then show ?thesis
        using sublist_marker[OF _ u(1)] u(2) less.hyps[of rest prev'] by (auto simp: Cons)
    qed
  qed
qed

subsection \<open>No token survives\<close>

lemma fold_re_sub_sublist:
  assumes "sublist u (fold (\<lambda>r res. re_sub r None res) rs s)" and "bracketless u" "\<not> sublist u ''REDACTED''"
  shows "sublist u s"
  using assms
proof (induction rs arbitrary: s)
  case (Cons r rs)
  then show ?case using re_sub_sublist[of u r None s] by auto
qed simp

lemma fold_re_sub_clears:
  assumes "r \<in> set rs" "token_like r" "u \<in> lang r"
  shows "\<not> sublist u (fold (\<lambda>r res. re_sub r None res) rs s)"
proof
  assume found: "sublist u (fold (\<lambda>r res. re_sub r None res) rs s)"
  obtain xs ys where rs: "rs = xs @ r # ys" using split_list[OF assms(1)] by blast
  have "sublist u (re_sub r None (fold (\<lambda>r res. re_sub r None res) xs s))"
    using fold_re_sub_sublist[OF _ token_like_facts[OF assms(2,3)]] found by (simp add: rs)
  then show False using re_sub_clears[OF assms(2,3)] by blast
qed

definition TOKEN_PATTERNS :: "regex list" where
  "TOKEN_PATTERNS = [GITHUB_TOKEN, GITHUB_PAT, SK_KEY, AKIA_KEY, ASIA_KEY, BEARER, SLACK_TOKEN, GOOGLE_KEY, KEY_HEADER]"

lemma token_patterns_token_like: "list_all token_like TOKEN_PATTERNS"
  by code_simp

lemma token_patterns_secret: "set TOKEN_PATTERNS \<subseteq> set SECRET_PATTERNS"
  by (simp add: TOKEN_PATTERNS_def SECRET_PATTERNS_def)

text \<open>The texts among the values of a JSON document.\<close>

fun texts :: "json \<Rightarrow> string list" where
  "texts (JStr s) = [s]"
| "texts (JList xs) = concat (map texts xs)"
| "texts (JObj kvs) = concat (map (\<lambda>(k, v). texts v) kvs)"
| "texts _ = []"

lemma texts_redact: "t \<in> set (texts (redact j)) \<Longrightarrow> t = redacted \<or> (\<exists>s \<in> set (texts j). t = redact_text s)"
  by (induction j rule: redact.induct) (fastforce split: if_splits)+

text \<open>The members of the objects of a document, at any depth.\<close>

fun members :: "json \<Rightarrow> (string \<times> json) list" where
  "members (JList xs) = concat (map members xs)"
| "members (JObj kvs) = kvs @ concat (map (\<lambda>(k, v). members v) kvs)"
| "members _ = []"

lemma members_redact: "(k, v) \<in> set (members (redact j)) \<Longrightarrow> is_sensitive_key k \<Longrightarrow> v = JStr redacted"
  by (induction j rule: redact.induct) (fastforce split: if_splits)+


definition sample_output :: json where
  "sample_output = JObj [(''a'', JList [JStr ''ghp_abcdefghij'']), (''e'', JObj [(''Key'', JStr ''x'')])]"


end
