(* ===== verification/Tool_Registry.thy ===== *)
theory Tool_Registry
  imports Redactor Plan_Model
begin

section \<open>The tool registry\<close>

text \<open>
  \<open>src/tools/registry.py\<close>: what a tool declares about itself, when it may be registered, and the
  checks that stand between a call and its executor. A pydantic model class of arguments or results is a
  record of its name, the default of its \<open>schema_version\<close> field and its validator, which returns the
  validated object's JSON form. An executor acts on a world of any type; it returns, raises one of the
  exceptions the gateway distinguishes, or is cut off by its timeout. \<open>normalize_worktree_path\<close> asks
  the file system where a path resolves to: that answer is the parameter \<open>inside\<close>.
\<close>

type_synonym json_object = "(string \<times> json) list"

datatype ReplayPolicy = NEVER | SAFE | IDEMPOTENT

datatype NetworkProfile = NONE | DEPENDENCY_EGRESS | PROVIDER_EGRESS

record ToolExecutionContext =
  cx_project_id :: uuid
  cx_repository_id :: uuid
  cx_run_id :: uuid
  cx_task_id :: uuid
  cx_attempt_id :: uuid
  cx_baseline_commit :: string
  cx_agent_role :: string
  cx_agent_capabilities :: "string list"
  cx_risk_ceiling :: RiskLevel
  cx_worktree_root :: string
  cx_tool_call_id :: "uuid option"
  cx_available_egress :: NetworkProfile

definition ToolExecutionContext_fields :: "ToolExecutionContext \<Rightarrow> bool" where
  "ToolExecutionContext_fields c \<longleftrightarrow> is_commit_sha (cx_baseline_commit c) \<and>
     1 \<le> length (cx_agent_role c) \<and> length (cx_agent_role c) \<le> 100 \<and> length (cx_agent_capabilities c) \<le> 100"

definition absolute_worktree :: "ToolExecutionContext \<Rightarrow> ToolExecutionContext result" where
  "absolute_worktree c =
     (if path_is_absolute (cx_worktree_root c) then Inr c else Inl (ValueError ''worktree_root must be absolute''))"

record contract_model =
  cm_name :: string
  cm_schema_version :: "string option"
  cm_validate :: "json_object \<Rightarrow> json_object result"

record ToolSpec =
  sp_name :: string
  sp_version :: string
  sp_argument_model :: contract_model
  sp_result_model :: contract_model
  sp_owning_capability :: string
  sp_eligible_agents :: "string list"
  sp_base_risk :: RiskLevel
  sp_timeout_seconds :: rat
  sp_max_attempts :: int
  sp_replay_policy :: ReplayPolicy
  sp_sandbox_profile :: string
  sp_network_profile :: NetworkProfile
  sp_side_effect :: SideEffectClass
  sp_approval_required :: bool
  sp_path_fields :: "string list"
  sp_retry_on_timeout :: bool
  sp_retry_on_transient :: bool
  sp_initial_backoff_seconds :: rat
  sp_maximum_backoff_seconds :: rat

definition is_tool_name :: "string \<Rightarrow> bool" where
  "is_tool_name s \<longleftrightarrow> 1 \<le> length s \<and> length s \<le> 100 \<and> list_all key_chars s"

definition is_tool_version :: "string \<Rightarrow> bool" where
  "is_tool_version s =
     (case split_on (CHR ''.'') s of [major, minor] \<Rightarrow>
        major \<noteq> [] \<and> list_all digit major \<and> minor \<noteq> [] \<and> list_all digit minor | _ \<Rightarrow> False)"

definition ToolSpec_post_init :: "ToolSpec \<Rightarrow> unit result" where
  "ToolSpec_post_init spec =
     bnd (guard (is_tool_name (sp_name spec)) (ValueError ''invalid tool name'')) (\<lambda>_.
     bnd (guard (is_tool_version (sp_version spec)) (ValueError ''tool version must be major.minor'')) (\<lambda>_.
     bnd (guard (sp_owning_capability spec \<noteq> [] \<and> sp_eligible_agents spec \<noteq> [])
            (ValueError ''tool capability and eligible agents are required'')) (\<lambda>_.
     bnd (guard (0 < sp_timeout_seconds spec \<and> sp_timeout_seconds spec \<le> 3600)
            (ValueError ''tool timeout must be in (0, 3600]'')) (\<lambda>_.
     bnd (guard (1 \<le> sp_max_attempts spec \<and> sp_max_attempts spec \<le> 20)
            (ValueError ''tool max_attempts must be in [1, 20]'')) (\<lambda>_.
     bnd (guard (\<not> (sp_replay_policy spec = NEVER \<and> sp_max_attempts spec \<noteq> 1))
            (ValueError ''non-replayable tools must have exactly one attempt'')) (\<lambda>_.
     bnd (guard (\<not> (sp_initial_backoff_seconds spec < 0 \<or>
                     sp_maximum_backoff_seconds spec < sp_initial_backoff_seconds spec \<or>
                     sp_maximum_backoff_seconds spec > 300))
            (ValueError ''tool retry backoff is invalid'')) (\<lambda>_.
       guard (list_all (\<lambda>m. cm_schema_version m = Some (sp_version spec)) [sp_argument_model spec, sp_result_model spec])
         (ValueError ''schema_version must equal tool version''))))))))"

datatype execution =
    Returned json_object
  | UnknownOutcome string
  | TimedOut string
  | Transient string
  | Raised string

type_synonym 'w tool_executor = "json_object \<Rightarrow> ToolExecutionContext \<Rightarrow> 'w \<Rightarrow> execution \<times> 'w"

record 'w RegisteredTool =
  rt_spec :: ToolSpec
  rt_executor :: "'w tool_executor"

definition authorize_tool :: "ToolSpec \<Rightarrow> ToolExecutionContext \<Rightarrow> RiskLevel option \<Rightarrow> unit result" where
  "authorize_tool spec context calculated_risk =
     bnd (guard (sp_owning_capability spec \<in> set (cx_agent_capabilities context))
            (PermissionError ''agent lacks owning capability'')) (\<lambda>_.
     bnd (guard (cx_agent_role context \<in> set (sp_eligible_agents spec))
            (PermissionError ''agent role is not eligible'')) (\<lambda>_.
     bnd (guard (\<not> risk_exceeds (case calculated_risk of None \<Rightarrow> sp_base_risk spec | Some r \<Rightarrow> r) (cx_risk_ceiling context))
            (PermissionError ''calculated risk exceeds agent risk ceiling'')) (\<lambda>_.
       guard (\<not> (sp_network_profile spec \<noteq> NONE \<and>
                  \<not> (cx_available_egress context = NONE \<or> sp_network_profile spec = cx_available_egress context)))
         (PermissionError ''tool declares egress the sandbox does not provide''))))"

text \<open>
  \<open>inside root p\<close> is the file system's part of \<open>normalize_worktree_path\<close>: whether \<open>p\<close>, resolved
  below the worktree, stays inside it; resolving a worktree that does not exist raises.
\<close>

definition worktree_path :: "(string \<Rightarrow> string \<Rightarrow> bool result) \<Rightarrow> string \<Rightarrow> string \<Rightarrow> string result" where
  "worktree_path inside wt_root raw =
     bnd (normalize_worktree_path raw) (\<lambda>p.
     bnd (inside wt_root p) (\<lambda>ok. if ok then Inr p else Inl (ValueError ''path escapes the managed worktree'')))"

fun worktree_paths :: "(string \<Rightarrow> string \<Rightarrow> bool result) \<Rightarrow> string \<Rightarrow> json list \<Rightarrow> json list result" where
  "worktree_paths inside wt_root [] = Inr []"
| "worktree_paths inside wt_root (JStr s # vs) =
     bnd (worktree_path inside wt_root s) (\<lambda>p. bnd (worktree_paths inside wt_root vs) (\<lambda>ps. Inr (JStr p # ps)))"
| "worktree_paths inside wt_root (_ # vs) = Inl (ValueError ''path field must contain only strings'')"

definition is_text :: "json \<Rightarrow> bool" where
  "is_text v = (case v of JStr _ \<Rightarrow> True | _ \<Rightarrow> False)"

definition normalize_field ::
  "(string \<Rightarrow> string \<Rightarrow> bool result) \<Rightarrow> ToolExecutionContext \<Rightarrow> string \<Rightarrow> json_object \<Rightarrow> json_object result" where
  "normalize_field inside context field normalized =
     (case map_of normalized field of
        None \<Rightarrow> Inr normalized
      | Some JNull \<Rightarrow> Inr normalized
      | Some (JStr s) \<Rightarrow>
          bnd (worktree_path inside (cx_worktree_root context) s) (\<lambda>p. Inr (dict_set field (JStr p) normalized))
      | Some (JList vs) \<Rightarrow>
          bnd (guard (list_all is_text vs) (ValueError ''path field must contain only strings'')) (\<lambda>_.
          bnd (worktree_paths inside (cx_worktree_root context) vs) (\<lambda>ps. Inr (dict_set field (JList ps) normalized)))
      | Some _ \<Rightarrow> Inl (ValueError ''path field must be a string or string list''))"

definition validate_arguments ::
  "(string \<Rightarrow> string \<Rightarrow> bool result) \<Rightarrow> ToolSpec \<Rightarrow> json_object \<Rightarrow> ToolExecutionContext \<Rightarrow> json_object result" where
  "validate_arguments inside spec arguments context =
     bnd (for_each (sp_path_fields spec) (normalize_field inside context) arguments)
       (cm_validate (sp_argument_model spec))"

definition validate_result :: "ToolSpec \<Rightarrow> json_object \<Rightarrow> json_object result" where
  "validate_result spec r = cm_validate (sp_result_model spec) r"

definition MANDATORY_APPROVAL_TOOLS :: "string list" where
  "MANDATORY_APPROVAL_TOOLS = [''git_commit'', ''git_push'', ''create_pull_request'', ''apply_infrastructure'', ''deploy'']"

definition approval_is_mandatory :: "ToolSpec \<Rightarrow> bool" where
  "approval_is_mandatory spec =
     (let lowered = casefold (sp_name spec)
      in lowered \<in> set MANDATORY_APPROVAL_TOOLS \<or>
         list_ex (\<lambda>marker. contains marker lowered)
           [''git_commit'', ''git_push'', ''pull_request'', ''deploy'', ''infrastructure_apply'', ''terraform_apply''])"

type_synonym 'w ToolRegistry = "((string \<times> string) \<times> 'w RegisteredTool) list"

definition register_tool :: "ToolSpec \<Rightarrow> 'w tool_executor \<Rightarrow> 'w ToolRegistry \<Rightarrow> 'w ToolRegistry result" where
  "register_tool spec executor tools =
     bnd (guard (\<not> (approval_is_mandatory spec \<and> \<not> sp_approval_required spec))
            (ToolRegistrationError ''tool requires approval'')) (\<lambda>_.
     bnd (guard ((sp_name spec, sp_version spec) \<notin> fst ` set tools)
            (ToolRegistrationError ''tool already registered'')) (\<lambda>_.
       Inr (tools @ [((sp_name spec, sp_version spec), \<lparr>rt_spec = spec, rt_executor = executor\<rparr>)])))"

definition resolve_tool :: "string \<Rightarrow> string \<Rightarrow> 'w ToolRegistry \<Rightarrow> 'w RegisteredTool result" where
  "resolve_tool name version tools =
     (case map_of tools (name, version) of
        None \<Rightarrow> Inl (LookupError ''tool is not registered'') | Some tool \<Rightarrow> Inr tool)"

text \<open>A registry is built by registering tools, starting from none.\<close>

inductive registry :: "'w ToolRegistry \<Rightarrow> bool" where
  registry_empty: "registry []"
| registry_register: "registry tools \<Longrightarrow> ToolSpec_post_init spec = Inr () \<Longrightarrow>
    register_tool spec executor tools = Inr tools' \<Longrightarrow> registry tools'"

definition registered_ok :: "(string \<times> string) \<times> 'w RegisteredTool \<Rightarrow> bool" where
  "registered_ok e \<longleftrightarrow> fst e = (sp_name (rt_spec (snd e)), sp_version (rt_spec (snd e))) \<and>
     ToolSpec_post_init (rt_spec (snd e)) = Inr () \<and>
     (approval_is_mandatory (rt_spec (snd e)) \<longrightarrow> sp_approval_required (rt_spec (snd e)))"

lemma registry_ok: "registry tools \<Longrightarrow> list_all registered_ok tools \<and> distinct (map fst tools)"
  by (induction rule: registry.induct)
    (auto simp: register_tool_def registered_ok_def bnd_eq_Inr)

lemma resolve_tool_ok:
  assumes "registry tools" and "resolve_tool name version tools = Inr tool"
  shows "sp_name (rt_spec tool) = name" "sp_version (rt_spec tool) = version"
    "ToolSpec_post_init (rt_spec tool) = Inr ()" "approval_is_mandatory (rt_spec tool) \<Longrightarrow> sp_approval_required (rt_spec tool)"
proof -
  have "((name, version), tool) \<in> set tools"
    using assms(2) by (auto simp: resolve_tool_def dest: map_of_SomeD split: option.splits)
  then have "registered_ok ((name, version), tool)" using registry_ok[OF assms(1)] by (auto simp: list_all_iff)
  then show "sp_name (rt_spec tool) = name" "sp_version (rt_spec tool) = version"
    "ToolSpec_post_init (rt_spec tool) = Inr ()" "approval_is_mandatory (rt_spec tool) \<Longrightarrow> sp_approval_required (rt_spec tool)"
    by (auto simp: registered_ok_def)
qed

lemma ToolSpec_post_init_attempts:
  assumes "ToolSpec_post_init spec = Inr ()"
  shows "1 \<le> sp_max_attempts spec" "sp_max_attempts spec \<le> 20" "sp_replay_policy spec = NEVER \<Longrightarrow> sp_max_attempts spec = 1"
  using assms by (auto simp: ToolSpec_post_init_def bnd_eq_Inr)

end
