(* ===== verification/Tool_Approval.thy ===== *)
theory Tool_Approval
  imports Tool_Registry Store
begin

section \<open>Approvals of tool calls\<close>

text \<open>
  \<open>ApprovalService\<close> of \<open>src/tools/approval.py\<close>. A call that needs a human decision gets one approval row,
  bound by a hash to the exact call, project, repository, baseline and deadline. The hash
  \<open>canonical_sha256\<close> over these and the name-based identifiers \<open>uuid5\<close> are parameters of the service:
  functions of what is hashed. That different names and different bindings give different results is
  stated as a hypothesis where a property needs it.
\<close>

subsection \<open>Models\<close>

record ToolCallRequest =
  tq_call_id :: uuid
  tq_run_id :: uuid
  tq_task_id :: uuid
  tq_attempt_id :: uuid
  tq_requested_by :: string
  tq_tool_name :: string
  tq_tool_version :: string
  tq_arguments :: json_object
  tq_idempotency_key :: string

datatype ToolExecutionStatus = WAITING_FOR_APPROVAL | CLAIMED | COMPLETED | FAILED | NEEDS_RECONCILIATION

text \<open>The texts hashed by \<open>uuid5(NAMESPACE_URL, ...)\<close> in the tool layer.\<close>

datatype uuid5_name =
    Approval_name uuid time
  | Approval_requested_name uuid
  | Approval_decided_name uuid ApprovalStatus
  | Tool_requested_name uuid
  | Tool_terminal_name uuid ToolExecutionStatus

record binding =
  bi_call :: ToolCallRequest
  bi_project_id :: uuid
  bi_repository_id :: uuid
  bi_baseline_commit :: string
  bi_expires_at :: time

record ApprovalService =
  as_ttl :: time
  as_sha256 :: "binding \<Rightarrow> string"
  as_uuid5 :: "uuid5_name \<Rightarrow> uuid"

record ApprovalRequest =
  aq_approval_id :: uuid
  aq_binding :: binding
  aq_status :: ApprovalStatus

record ApprovalAuthorization =
  aa_approval_id :: uuid
  aa_call_hash :: string
  aa_approver :: string
  aa_decided_at :: time

definition approval_service_init :: "time \<Rightarrow> (binding \<Rightarrow> string) \<Rightarrow> (uuid5_name \<Rightarrow> uuid) \<Rightarrow> ApprovalService result" where
  "approval_service_init ttl sha256 uuid5 =
     bnd (guard (0 < ttl) (ValueError ''approval TTL must be positive''))
       (\<lambda>_. Inr \<lparr>as_ttl = ttl, as_sha256 = sha256, as_uuid5 = uuid5\<rparr>)"

definition call_hash :: "ApprovalService \<Rightarrow> ApprovalRequest \<Rightarrow> string" where
  "call_hash svc request = as_sha256 svc (aq_binding request)"

fun approval_status_value :: "ApprovalStatus \<Rightarrow> string" where
  "approval_status_value ApprovalStatus.PENDING = ''PENDING''"
| "approval_status_value APPROVED = ''APPROVED''"
| "approval_status_value REJECTED = ''REJECTED''"
| "approval_status_value EXPIRED = ''EXPIRED''"
| "approval_status_value ApprovalStatus.CANCELLED = ''CANCELLED''"

subsection \<open>Operations\<close>

definition execution_matches :: "ToolExecutionRow \<Rightarrow> ToolCallRequest \<Rightarrow> bool" where
  "execution_matches row call \<longleftrightarrow> te_id row = tq_call_id call \<and> te_run_id row = tq_run_id call \<and>
     te_task_id row = tq_task_id call \<and> te_attempt_id row = tq_attempt_id call \<and>
     te_requested_by row = tq_requested_by call \<and> te_tool_name row = tq_tool_name call \<and>
     te_tool_version row = tq_tool_version call \<and> te_arguments row = tq_arguments call \<and>
     te_idempotency_key row = tq_idempotency_key call"

definition validate_call_scope :: "ToolCallRequest \<Rightarrow> ToolExecutionContext \<Rightarrow> unit result" where
  "validate_call_scope call context =
     guard (tq_run_id call = cx_run_id context \<and> tq_task_id call = cx_task_id context \<and>
            tq_attempt_id call = cx_attempt_id context \<and> tq_requested_by call = cx_agent_role context)
       (ApprovalBindingError ''tool call does not match its execution context'')"

text \<open>
  \<open>insert(ToolExecutionRow).on_conflict_do_nothing()\<close>: the call id and the idempotency key are unique.
\<close>

definition new_execution :: "ToolCallRequest \<Rightarrow> string \<Rightarrow> db \<Rightarrow> ToolExecutionRow" where
  "new_execution call status s =
     \<lparr>te_id = tq_call_id call, te_run_id = tq_run_id call, te_task_id = tq_task_id call,
      te_attempt_id = tq_attempt_id call, te_requested_by = tq_requested_by call, te_tool_name = tq_tool_name call,
      te_tool_version = tq_tool_version call, te_arguments = tq_arguments call,
      te_idempotency_key = tq_idempotency_key call, te_status = status, te_result = [],
      te_created_at = utc_now s, te_completed_at = None\<rparr>"

definition insert_execution :: "ToolCallRequest \<Rightarrow> string \<Rightarrow> db \<Rightarrow> bool \<times> db" where
  "insert_execution call status s =
     (if tq_call_id call \<in> te_id ` set (tool_executions s) \<or>
         tq_idempotency_key call \<in> te_idempotency_key ` set (tool_executions s)
      then (False, s)
      else (True, s\<lparr>tool_executions := tool_executions s @ [new_execution call status s]\<rparr>))"

definition execution_of :: "uuid \<Rightarrow> db \<Rightarrow> ToolExecutionRow option" where
  "execution_of call_id s = row_get te_id call_id (tool_executions s)"

definition create_approval :: "ApprovalService \<Rightarrow> ApprovalRequest \<Rightarrow> db \<Rightarrow> db result" where
  "create_approval svc approval s =
     (let b = aq_binding approval;
          row = \<lparr>ap_id = aq_approval_id approval, ap_call_id = tq_call_id (bi_call b), ap_project_id = bi_project_id b,
                 ap_repository_id = bi_repository_id b, ap_baseline_commit = bi_baseline_commit b,
                 ap_call_hash = call_hash svc approval, ap_status = aq_status approval,
                 ap_expires_at = bi_expires_at b, ap_created_at = utc_now s, ap_decided_at = None, ap_approver = None\<rparr>
      in bnd (guard (ap_call_id row \<notin> ap_call_id ` set (approvals s) \<and> ap_call_hash row \<notin> ap_call_hash ` set (approvals s))
                IntegrityError) (\<lambda>_.
         bnd (row_insert ap_id row (approvals s)) (\<lambda>rows. Inr (s\<lparr>approvals := rows\<rparr>))))"

definition row_binding :: "ApprovalRow \<Rightarrow> ToolCallRequest \<Rightarrow> binding" where
  "row_binding row call = \<lparr>bi_call = call, bi_project_id = ap_project_id row, bi_repository_id = ap_repository_id row,
     bi_baseline_commit = ap_baseline_commit row, bi_expires_at = ap_expires_at row\<rparr>"

definition request_from_row :: "ApprovalService \<Rightarrow> ApprovalRow \<Rightarrow> ToolCallRequest \<Rightarrow> ApprovalRequest result" where
  "request_from_row svc row call =
     (let request = \<lparr>aq_approval_id = ap_id row, aq_binding = row_binding row call, aq_status = ap_status row\<rparr>
      in if call_hash svc request = ap_call_hash row then Inr request
         else Inl (ApprovalBindingError ''existing approval is bound to different call arguments''))"

definition context_binding :: "ToolCallRequest \<Rightarrow> ToolExecutionContext \<Rightarrow> time \<Rightarrow> binding" where
  "context_binding call context expires_at =
     \<lparr>bi_call = call, bi_project_id = cx_project_id context, bi_repository_id = cx_repository_id context,
      bi_baseline_commit = cx_baseline_commit context, bi_expires_at = expires_at\<rparr>"

definition request_body ::
  "ApprovalService \<Rightarrow> ToolCallRequest \<Rightarrow> ApprovalRequest \<Rightarrow> db \<Rightarrow> (ApprovalRequest \<times> db) result" where
  "request_body svc call provisional s =
     (let (_, s1) = insert_execution call ''WAITING_FOR_APPROVAL'' s
      in bnd (guard (case execution_of (tq_call_id call) s1 of None \<Rightarrow> False | Some row \<Rightarrow> execution_matches row call)
                (ApprovalBindingError ''approval call does not match its persisted tool execution'')) (\<lambda>_.
         case row_get ap_call_id (tq_call_id call) (approvals s1) of
           Some existing \<Rightarrow> bnd (request_from_row svc existing call) (\<lambda>r. Inr (r, s1))
         | None \<Rightarrow>
             (let event_id = as_uuid5 svc (Approval_requested_name (aq_approval_id provisional));
                  payload = [(''approval_id'', PId (aq_approval_id provisional)), (''call_id'', PId (tq_call_id call)),
                             (''call_hash'', PText (call_hash svc provisional)),
                             (''expires_at'', PInt (bi_expires_at (aq_binding provisional)))]
              in bnd (create_approval svc provisional s1) (\<lambda>s2.
                 bnd (append_audit event_id ''approval.requested'' ''approval'' (aq_approval_id provisional) payload
                        (tq_run_id call) (tq_call_id call) s2) (\<lambda>s3.
                 bnd (enqueue_event event_id ''approvals'' payload s3) (\<lambda>s4. Inr (provisional, s4)))))))"

definition request_approval ::
  "ApprovalService \<Rightarrow> ToolCallRequest \<Rightarrow> ToolExecutionContext \<Rightarrow> time option \<Rightarrow> db \<Rightarrow> ApprovalRequest result \<times> db" where
  "request_approval svc call context now s =
     (let created_at = (case now of None \<Rightarrow> utc_now s | Some t \<Rightarrow> t);
          expires_at = created_at + as_ttl svc;
          provisional = \<lparr>aq_approval_id = as_uuid5 svc (Approval_name (tq_call_id call) expires_at),
                         aq_binding = context_binding call context expires_at, aq_status = ApprovalStatus.PENDING\<rparr>
      in case validate_call_scope call context of
           Inl e \<Rightarrow> (Inl e, s)
         | Inr _ \<Rightarrow> commit (request_body svc call provisional) s)"

definition is_blank :: "string \<Rightarrow> bool" where
  "is_blank text \<longleftrightarrow> list_all space text"

definition set_approval :: "uuid \<Rightarrow> (ApprovalRow \<Rightarrow> ApprovalRow) \<Rightarrow> db \<Rightarrow> db" where
  "set_approval approval_id f s = s\<lparr>approvals := row_update (\<lambda>r. ap_id r = approval_id) f (approvals s)\<rparr>"

text \<open>The decision recorded: duration, audit event and outbox event.\<close>

definition record_decision ::
  "ApprovalService \<Rightarrow> ApprovalRow \<Rightarrow> string option \<Rightarrow> ApprovalStatus \<Rightarrow> time \<Rightarrow> db \<Rightarrow> db result" where
  "record_decision svc row approver target decided_at s =
     (let s1 = record_state_duration ''approval'' (ap_id row) (PText ''PENDING'') (ap_created_at row) decided_at s;
          event_id = as_uuid5 svc (Approval_decided_name (ap_id row) target);
          payload = [(''approval_id'', PId (ap_id row)), (''status'', PText (approval_status_value target)),
                     (''approver'', case approver of None \<Rightarrow> PNone | Some a \<Rightarrow> PText a)]
      in case execution_of (ap_call_id row) s1 of
           None \<Rightarrow> Inl (ApprovalBindingError ''approval tool execution is missing'')
         | Some execution \<Rightarrow>
             bnd (append_audit event_id ''approval.decided'' ''approval'' (ap_id row) payload
                    (te_run_id execution) (ap_call_id row) s1)
               (enqueue_event event_id ''approvals'' payload))"

text \<open>The result tells whether the approval had expired; the exception for it is raised after the commit.\<close>

definition decide_body ::
  "ApprovalService \<Rightarrow> uuid \<Rightarrow> string \<Rightarrow> bool \<Rightarrow> string \<Rightarrow> time \<Rightarrow> db \<Rightarrow> (bool \<times> db) result" where
  "decide_body svc approval_id approver approved expected_call_hash decided_at s =
     (case row_get ap_id approval_id (approvals s) of
        None \<Rightarrow> Inl (LookupError ''approval does not exist'')
      | Some row \<Rightarrow>
          if ap_call_hash row \<noteq> expected_call_hash
          then Inl (ApprovalBindingError ''approval decision does not match the exact call'')
          else if ap_expires_at row \<le> decided_at
          then bnd (record_decision svc row None EXPIRED decided_at
                      (set_approval approval_id (\<lambda>r. r\<lparr>ap_status := EXPIRED, ap_decided_at := Some decided_at\<rparr>) s))
                 (\<lambda>s'. Inr (True, s'))
          else
            (let target = (if approved then APPROVED else REJECTED)
             in if ap_status row \<noteq> ApprovalStatus.PENDING
                then if ap_status row = target \<and> ap_approver row = Some approver then Inr (False, s)
                     else Inl (ApprovalBindingError ''approval already has a different decision'')
                else bnd (record_decision svc row (Some approver) target decided_at
                       (set_approval approval_id (\<lambda>r. r\<lparr>ap_status := target, ap_approver := Some approver,
                                                       ap_decided_at := Some decided_at\<rparr>) s))
                     (\<lambda>s'. Inr (False, s'))))"

definition decide_approval ::
  "ApprovalService \<Rightarrow> uuid \<Rightarrow> string \<Rightarrow> bool \<Rightarrow> string \<Rightarrow> time option \<Rightarrow> db \<Rightarrow> unit result \<times> db" where
  "decide_approval svc approval_id approver approved expected_call_hash now s =
     (if is_blank approver then (Inl (ValueError ''approver is required''), s)
      else let decided_at = (case now of None \<Rightarrow> utc_now s | Some t \<Rightarrow> t)
           in case commit (decide_body svc approval_id approver approved expected_call_hash decided_at) s of
                (Inl e, s') \<Rightarrow> (Inl e, s')
              | (Inr expired, s') \<Rightarrow> (if expired then Inl ApprovalExpired else Inr (), s'))"

definition authorize_approval ::
  "ApprovalService \<Rightarrow> uuid \<Rightarrow> ToolCallRequest \<Rightarrow> ToolExecutionContext \<Rightarrow> string option \<Rightarrow> time option \<Rightarrow> db
     \<Rightarrow> ApprovalAuthorization result" where
  "authorize_approval svc approval_id call context expected_approver now s =
     (let checked_at = (case now of None \<Rightarrow> utc_now s | Some t \<Rightarrow> t)
      in bnd (validate_call_scope call context) (\<lambda>_.
         case row_get ap_id approval_id (approvals s) of
           None \<Rightarrow> Inl (LookupError ''approval does not exist'')
         | Some row \<Rightarrow>
             if ap_expires_at row \<le> checked_at then Inl ApprovalExpired
             else case (ap_status row, ap_approver row, ap_decided_at row) of
                 (APPROVED, Some approver, Some decided_at) \<Rightarrow>
                   bnd (guard (approver \<noteq> []) ApprovalNotGranted) (\<lambda>_.
                   bnd (guard (case expected_approver of None \<Rightarrow> True | Some a \<Rightarrow> approver = a)
                          (ApprovalBindingError ''approval is bound to a different approver'')) (\<lambda>_.
                   bnd (guard (ap_project_id row = cx_project_id context \<and> ap_repository_id row = cx_repository_id context \<and>
                               ap_baseline_commit row = cx_baseline_commit context \<and>
                               ap_call_hash row = as_sha256 svc (context_binding call context (ap_expires_at row)))
                          (ApprovalBindingError ''approval is not bound to this exact call, repository, and baseline'')) (\<lambda>_.
                     Inr \<lparr>aa_approval_id = ap_id row, aa_call_hash = ap_call_hash row, aa_approver = approver,
                          aa_decided_at = decided_at\<rparr>)))
               | _ \<Rightarrow> Inl ApprovalNotGranted))"

end
