(* ===== verification/Tool_Gateway.thy ===== *)
theory Tool_Gateway
  imports Tool_Approval
begin

section \<open>The tool gateway\<close>

text \<open>
  \<open>ToolGateway\<close> of \<open>src/tools/gateway.py\<close>: the only way from an agent's tool call to a tool's
  executor. A call is checked against the running task, its arguments are validated, its risk is
  calculated, it is claimed under its idempotency key, approved where the tool demands it, executed by
  whoever owns the claim, and its outcome is stored for every later replay.

  The executor and the world it acts on are those of the registry. The waiting loop of a caller that does
  not own the claim polls the database while others work: what they do before each poll is the parameter
  \<open>others\<close>, and the number of polls before the deadline is \<open>polls\<close>. \<open>error_text\<close> is \<open>str(error)\<close>,
  \<open>value_text\<close> is \<open>str(value)\<close> of a stored JSON value that is not a text. Argument objects are compared
  with their members in order: both sides are dumps of one model class, whose fields have a fixed order.
\<close>

subsection \<open>Models\<close>

record ToolCallResult =
  tc_call_id :: uuid
  tc_tool_name :: string
  tc_tool_version :: string
  tc_status :: ToolExecutionStatus
  tc_output :: json_object
  tc_error :: "string option"
  tc_risk :: RiskLevel
  tc_attempts :: int
  tc_replayed :: bool

fun status_value :: "ToolExecutionStatus \<Rightarrow> string" where
  "status_value WAITING_FOR_APPROVAL = ''WAITING_FOR_APPROVAL''"
| "status_value CLAIMED = ''CLAIMED''"
| "status_value ToolExecutionStatus.COMPLETED = ''COMPLETED''"
| "status_value ToolExecutionStatus.FAILED = ''FAILED''"
| "status_value ToolExecutionStatus.NEEDS_RECONCILIATION = ''NEEDS_RECONCILIATION''"

definition all_statuses :: "ToolExecutionStatus list" where
  "all_statuses = [WAITING_FOR_APPROVAL, CLAIMED, ToolExecutionStatus.COMPLETED, ToolExecutionStatus.FAILED,
     ToolExecutionStatus.NEEDS_RECONCILIATION]"

definition status_of :: "string \<Rightarrow> ToolExecutionStatus result" where
  "status_of text = (case find (\<lambda>st. status_value st = text) all_statuses of
     None \<Rightarrow> Inl (ValueError ''not a valid ToolExecutionStatus'') | Some st \<Rightarrow> Inr st)"

definition TERMINAL :: "ToolExecutionStatus list" where
  "TERMINAL = [ToolExecutionStatus.COMPLETED, ToolExecutionStatus.FAILED, ToolExecutionStatus.NEEDS_RECONCILIATION]"

fun risk_value :: "RiskLevel \<Rightarrow> string" where
  "risk_value LOW = ''LOW''" | "risk_value MEDIUM = ''MEDIUM''" | "risk_value HIGH = ''HIGH''" | "risk_value CRITICAL = ''CRITICAL''"

definition risk_of :: "string \<Rightarrow> RiskLevel result" where
  "risk_of text = (case find (\<lambda>r. risk_value r = text) [LOW, MEDIUM, HIGH, CRITICAL] of
     None \<Rightarrow> Inl (ValueError ''not a valid RiskLevel'') | Some r \<Rightarrow> Inr r)"

record 'w ToolGateway =
  gw_registry :: "'w ToolRegistry"
  gw_approvals :: ApprovalService
  gw_risk_policy :: ToolRiskPolicy
  gw_inside :: "string \<Rightarrow> string \<Rightarrow> bool result"
  gw_error_text :: "py_error \<Rightarrow> string"
  gw_value_text :: "json \<Rightarrow> string"

definition gateway_init :: "rat \<Rightarrow> unit result" where
  "gateway_init poll_interval_seconds =
     guard (0 < poll_interval_seconds) (ValueError ''tool poll interval must be positive'')"

subsection \<open>Replay of stored results\<close>

definition result_attempts :: "json_object \<Rightarrow> int result" where
  "result_attempts r =
     (case map_of r ''attempts'' of None \<Rightarrow> Inr 0 | Some (JInt i) \<Rightarrow> Inr i | Some (JBool b) \<Rightarrow> Inr (if b then 1 else 0)
      | Some (JStr _) \<Rightarrow> Inl (ValueError ''invalid literal for int()'') | Some _ \<Rightarrow> Inl (TypeError ''int() argument''))"

text \<open>\<open>result.get("risk") or RiskLevel.LOW.value\<close>: missing, null and other falsy values read as LOW.\<close>

definition falsy :: "json \<Rightarrow> bool" where
  "falsy v = (case v of JNull \<Rightarrow> True | JBool b \<Rightarrow> \<not> b | JInt i \<Rightarrow> i = 0 | JStr s \<Rightarrow> s = [] | JList xs \<Rightarrow> xs = [] | JObj kvs \<Rightarrow> kvs = [])"

definition text_of :: "(json \<Rightarrow> string) \<Rightarrow> json \<Rightarrow> string" where
  "text_of value_text v = (case v of JStr s \<Rightarrow> s | _ \<Rightarrow> value_text v)"

definition result_from_row :: "(json \<Rightarrow> string) \<Rightarrow> ToolExecutionRow \<Rightarrow> bool \<Rightarrow> ToolCallResult result" where
  "result_from_row value_text row replayed =
     (let r = te_result row;
          output = (case map_of r ''output'' of Some (JObj obj) \<Rightarrow> obj | _ \<Rightarrow> []);
          err = (case map_of r ''error'' of None \<Rightarrow> None | Some JNull \<Rightarrow> None | Some v \<Rightarrow> Some (text_of value_text v));
          risk = (case map_of r ''risk'' of None \<Rightarrow> ''LOW'' | Some v \<Rightarrow> if falsy v then ''LOW'' else text_of value_text v)
      in bnd (status_of (te_status row)) (\<lambda>status.
         bnd (risk_of risk) (\<lambda>risk.
         bnd (result_attempts r) (\<lambda>attempts.
         bnd (guard (0 \<le> attempts \<and> attempts \<le> 20) (ValidationError ''attempts'')) (\<lambda>_.
           Inr \<lparr>tc_call_id = te_id row, tc_tool_name = te_tool_name row, tc_tool_version = te_tool_version row,
                tc_status = status, tc_output = output, tc_error = err, tc_risk = risk, tc_attempts = attempts,
                tc_replayed = replayed\<rparr>)))))"

definition validate_replay :: "ToolExecutionRow \<Rightarrow> ToolCallRequest \<Rightarrow> unit result" where
  "validate_replay row call =
     guard (execution_matches row call)
       (ToolIdempotencyConflict ''idempotency key replay does not match the exact original tool call'')"

definition by_key :: "string \<Rightarrow> db \<Rightarrow> ToolExecutionRow option" where
  "by_key key s = row_get te_idempotency_key key (tool_executions s)"

subsection \<open>Context, claim and promotion\<close>

definition validate_context :: "ToolCallRequest \<Rightarrow> ToolExecutionContext \<Rightarrow> db \<Rightarrow> unit result" where
  "validate_context call context s =
     bnd (guard (tq_run_id call = cx_run_id context \<and> tq_task_id call = cx_task_id context \<and>
                 tq_attempt_id call = cx_attempt_id context \<and> tq_requested_by call = cx_agent_role context)
            (PermissionError ''tool call does not match its execution context'')) (\<lambda>_.
     case (row_get tr_id (tq_task_id call) (tasks s), row_get ta_id (tq_attempt_id call) (task_attempts s),
           row_get rn_id (tq_run_id call) (runs s)) of
       (Some task, Some attempt, Some run) \<Rightarrow>
         guard (tr_state task = TaskStatus.RUNNING \<and> tr_project_id task = cx_project_id context \<and>
                tr_repository_id task = cx_repository_id context \<and> ta_task_id attempt = tr_id task \<and>
                rn_project_id run = cx_project_id context \<and> rn_repository_id run = cx_repository_id context \<and>
                rn_baseline_commit run = cx_baseline_commit context)
           (PermissionError ''tool call is not bound to the active scheduler task and repository baseline'')
     | _ \<Rightarrow> Inl (PermissionError ''tool call domain identity does not exist''))"

definition redact_object :: "json_object \<Rightarrow> json_object" where
  "redact_object obj = (case redact (JObj obj) of JObj r \<Rightarrow> r | _ \<Rightarrow> [])"

definition tool_event ::
  "uuid \<Rightarrow> string \<Rightarrow> ToolCallRequest \<Rightarrow> payload \<Rightarrow> db \<Rightarrow> db result" where
  "tool_event event_id event_type call payload s =
     bnd (append_audit event_id event_type ''tool_call'' (tq_call_id call) payload (tq_run_id call) (tq_call_id call) s)
       (enqueue_event event_id ''tool-execution'' payload)"

definition claim_body ::
  "'w ToolGateway \<Rightarrow> ToolCallRequest \<Rightarrow> ToolExecutionStatus \<Rightarrow> RiskLevel \<Rightarrow> db \<Rightarrow> ((ToolExecutionRow \<times> bool) \<times> db) result" where
  "claim_body gw call initial risk s =
     (let (inserted, s1) = insert_execution call (status_value initial) s
      in case by_key (tq_idempotency_key call) s1 of
           None \<Rightarrow>
             (case execution_of (tq_call_id call) s1 of
                Some _ \<Rightarrow> Inl (ToolIdempotencyConflict ''call_id is already bound to another key'')
              | None \<Rightarrow> Inl (ToolGatewayError ''tool claim disappeared''))
         | Some row \<Rightarrow>
             bnd (validate_replay row call) (\<lambda>_.
             if inserted
             then bnd (tool_event (as_uuid5 (gw_approvals gw) (Tool_requested_name (tq_call_id call))) ''tool.requested'' call
                         [(''call_id'', PId (tq_call_id call)),
                          (''tool'', PText (tq_tool_name call @ ''@'' @ tq_tool_version call)),
                          (''risk'', PText (risk_value risk)),
                          (''arguments'', PJson (redact (JObj (tq_arguments call))))] s1)
                    (\<lambda>s2. Inr ((row, True), s2))
             else Inr ((row, False), s1)))"

definition claim_call ::
  "'w ToolGateway \<Rightarrow> ToolCallRequest \<Rightarrow> ToolExecutionStatus \<Rightarrow> RiskLevel \<Rightarrow> db \<Rightarrow> (ToolExecutionRow \<times> bool) result \<times> db" where
  "claim_call gw call initial risk = commit (claim_body gw call initial risk)"

definition promote_approved :: "ToolCallRequest \<Rightarrow> db \<Rightarrow> bool \<times> db" where
  "promote_approved call s =
     (let hit = (\<lambda>r. te_id r = tq_call_id call \<and> te_idempotency_key r = tq_idempotency_key call \<and>
                     te_status r = ''WAITING_FOR_APPROVAL'')
      in (list_ex hit (tool_executions s),
          s\<lparr>tool_executions := row_update hit (\<lambda>r. r\<lparr>te_status := ''CLAIMED''\<rparr>) (tool_executions s)\<rparr>))"

subsection \<open>Terminal results\<close>

definition terminal_event_type :: "ToolExecutionStatus \<Rightarrow> string" where
  "terminal_event_type status = ''tool.'' @ casefold (status_value status)"

definition optional_text :: "string option \<Rightarrow> json" where
  "optional_text t = (case t of None \<Rightarrow> JNull | Some x \<Rightarrow> JStr x)"

definition stored_result :: "json_object \<Rightarrow> string option \<Rightarrow> RiskLevel \<Rightarrow> int \<Rightarrow> json_object" where
  "stored_result output err risk attempts =
     [(''output'', JObj output), (''error'', optional_text err), (''risk'', JStr (risk_value risk)), (''attempts'', JInt attempts)]"

definition persist_body ::
  "'w ToolGateway \<Rightarrow> ToolCallRequest \<Rightarrow> ToolExecutionStatus \<Rightarrow> json_object \<Rightarrow> string option \<Rightarrow> RiskLevel \<Rightarrow> int \<Rightarrow> db
     \<Rightarrow> (ToolCallResult \<times> db) result" where
  "persist_body gw call status output err risk attempts s =
     (case execution_of (tq_call_id call) s of
        None \<Rightarrow> Inl (ToolGatewayError ''owned tool execution is missing'')
      | Some row \<Rightarrow>
          bnd (status_of (te_status row)) (\<lambda>current.
          if current \<in> set TERMINAL
          then bnd (result_from_row (gw_value_text gw) row True) (\<lambda>r. Inr (r, s))
          else
            (let row' = row\<lparr>te_status := status_value status, te_result := stored_result output err risk attempts,
                            te_completed_at := Some (utc_now s)\<rparr>;
                 s1 = s\<lparr>tool_executions := row_update (\<lambda>r. te_id r = tq_call_id call) (\<lambda>_. row') (tool_executions s)\<rparr>
             in bnd (tool_event (as_uuid5 (gw_approvals gw) (Tool_terminal_name (tq_call_id call) status))
                       (terminal_event_type status) call
                       [(''call_id'', PId (tq_call_id call)), (''status'', PText (status_value status)),
                        (''risk'', PText (risk_value risk)), (''attempts'', PInt attempts),
                        (''error'', case err of None \<Rightarrow> PNone | Some e \<Rightarrow> PText e)] s1) (\<lambda>s2.
                bnd (result_from_row (gw_value_text gw) row' False) (\<lambda>r. Inr (r, s2))))))"

definition persist_terminal ::
  "'w ToolGateway \<Rightarrow> ToolCallRequest \<Rightarrow> ToolExecutionStatus \<Rightarrow> json_object \<Rightarrow> string option \<Rightarrow> RiskLevel \<Rightarrow> int \<Rightarrow> db
     \<Rightarrow> ToolCallResult result \<times> db" where
  "persist_terminal gw call status output err risk attempts = commit (persist_body gw call status output err risk attempts)"

definition failed ::
  "'w ToolGateway \<Rightarrow> ToolCallRequest \<Rightarrow> string \<Rightarrow> RiskLevel \<Rightarrow> int \<Rightarrow> db \<Rightarrow> ToolCallResult result \<times> db" where
  "failed gw call err risk attempts =
     persist_terminal gw call ToolExecutionStatus.FAILED [] (Some (redact_text err)) risk attempts"

definition quarantine_graph :: "ToolCallRequest \<Rightarrow> db \<Rightarrow> (unit \<times> db) result" where
  "quarantine_graph call s =
     (case graph_of (tq_task_id call) s of
        Some graph \<Rightarrow>
          if gx_state graph \<noteq> GraphExecutionState.NEEDS_RECONCILIATION
          then bnd (transition_graph_execution (gx_task_id graph) (gx_run_id graph) (gx_repository_id graph)
                      (gx_baseline_commit graph) (gx_thread_id graph) GraphExecutionState.NEEDS_RECONCILIATION
                      (gx_checkpoint_id graph) s) (\<lambda>s'. Inr ((), s'))
          else Inr ((), s)
      | None \<Rightarrow> Inr ((), s))"

definition uncertain ::
  "'w ToolGateway \<Rightarrow> ToolCallRequest \<Rightarrow> string \<Rightarrow> RiskLevel \<Rightarrow> int \<Rightarrow> db \<Rightarrow> ToolCallResult result \<times> db" where
  "uncertain gw call err risk attempts s =
     (case persist_terminal gw call ToolExecutionStatus.NEEDS_RECONCILIATION [] (Some (redact_text err)) risk attempts s of
        (Inl e, s1) \<Rightarrow> (Inl e, s1)
      | (Inr r, s1) \<Rightarrow>
          (case commit (quarantine_graph call) s1 of (Inl e, s2) \<Rightarrow> (Inl e, s2) | (Inr _, s2) \<Rightarrow> (Inr r, s2)))"

subsection \<open>Execution\<close>

definition may_retry :: "ToolSpec \<Rightarrow> int \<Rightarrow> bool" where
  "may_retry spec attempts \<longleftrightarrow> sp_replay_policy spec \<noteq> NEVER \<and> attempts < sp_max_attempts spec"

definition tool_retry_delay :: "ToolSpec \<Rightarrow> int \<Rightarrow> rat" where
  "tool_retry_delay spec attempts =
     min (sp_maximum_backoff_seconds spec) (sp_initial_backoff_seconds spec * 2 ^ nat (max 0 (attempts - 1)))"

definition completed ::
  "'w ToolGateway \<Rightarrow> ToolCallRequest \<Rightarrow> ToolSpec \<Rightarrow> json_object \<Rightarrow> RiskLevel \<Rightarrow> int \<Rightarrow> db \<Rightarrow> ToolCallResult result \<times> db" where
  "completed gw call spec raw_result risk attempts s =
     (case validate_result spec raw_result of
        Inl e \<Rightarrow> failed gw call (gw_error_text gw e) risk attempts s
      | Inr validated \<Rightarrow>
          (case persist_terminal gw call ToolExecutionStatus.COMPLETED (redact_object validated) None risk attempts s of
             (Inl e, s') \<Rightarrow> failed gw call (gw_error_text gw e) risk attempts s'
           | (Inr r, s') \<Rightarrow> (Inr r, s')))"

fun attempt_loop ::
  "'w ToolGateway \<Rightarrow> ToolCallRequest \<Rightarrow> 'w RegisteredTool \<Rightarrow> json_object \<Rightarrow> ToolExecutionContext \<Rightarrow> RiskLevel
     \<Rightarrow> int list \<Rightarrow> 'w \<times> db \<Rightarrow> ToolCallResult result \<times> 'w \<times> db" where
  "attempt_loop gw call tool arguments context risk [] (w, s) =
     (Inl (AssertionError ''tool attempt loop exited unexpectedly''), w, s)"
| "attempt_loop gw call tool arguments context risk (n # ns) (w, s) =
     (let spec = rt_spec tool;
          (outcome, w1) = rt_executor tool arguments (context\<lparr>cx_tool_call_id := Some (tq_call_id call)\<rparr>) w;
          stop = (\<lambda>(r, s'). (r, w1, s'))
      in case outcome of
           Returned raw_result \<Rightarrow> stop (completed gw call spec raw_result risk n s)
         | UnknownOutcome e \<Rightarrow> stop (uncertain gw call e risk n s)
         | TimedOut e \<Rightarrow>
             if sp_side_effect spec = EXTERNAL then stop (uncertain gw call ''external tool timed out'' risk n s)
             else if \<not> sp_retry_on_timeout spec \<or> \<not> may_retry spec n then stop (failed gw call e risk n s)
             else attempt_loop gw call tool arguments context risk ns (w1, s)
         | Transient e \<Rightarrow>
             if sp_side_effect spec = EXTERNAL then stop (uncertain gw call e risk n s)
             else if \<not> sp_retry_on_transient spec \<or> \<not> may_retry spec n then stop (failed gw call e risk n s)
             else attempt_loop gw call tool arguments context risk ns (w1, s)
         | Raised e \<Rightarrow> stop (failed gw call e risk n s))"

definition execute_owned ::
  "'w ToolGateway \<Rightarrow> ToolCallRequest \<Rightarrow> 'w RegisteredTool \<Rightarrow> json_object \<Rightarrow> ToolExecutionContext \<Rightarrow> RiskLevel
     \<Rightarrow> 'w \<times> db \<Rightarrow> ToolCallResult result \<times> 'w \<times> db" where
  "execute_owned gw call tool arguments context risk =
     attempt_loop gw call tool arguments context risk [1..sp_max_attempts (rt_spec tool)]"

fun wait_for_terminal ::
  "'w ToolGateway \<Rightarrow> ToolCallRequest \<Rightarrow> (nat \<Rightarrow> db \<Rightarrow> db) \<Rightarrow> nat \<Rightarrow> db \<Rightarrow> ToolCallResult result \<times> db" where
  "wait_for_terminal gw call others 0 s = (Inl ToolClaimInProgress, s)"
| "wait_for_terminal gw call others (Suc polls) s =
     (let s1 = others polls s
      in case by_key (tq_idempotency_key call) s1 of
           None \<Rightarrow> (Inl (ToolGatewayError ''claimed tool execution is missing''), s1)
         | Some row \<Rightarrow>
             (case bnd (validate_replay row call) (\<lambda>_. status_of (te_status row)) of
                Inl e \<Rightarrow> (Inl e, s1)
              | Inr status \<Rightarrow>
                  if status \<in> set TERMINAL then (result_from_row (gw_value_text gw) row True, s1)
                  else wait_for_terminal gw call others polls s1))"

text \<open>Everything up to the claim: the normalised call, its tool and its risk, or the exception.\<close>

definition admit_call ::
  "'w ToolGateway \<Rightarrow> ToolCallRequest \<Rightarrow> ToolExecutionContext \<Rightarrow> db
     \<Rightarrow> (ToolCallRequest \<times> 'w RegisteredTool \<times> RiskLevel) result" where
  "admit_call gw call context s =
     bnd (validate_context call context s) (\<lambda>_.
     bnd (resolve_tool (tq_tool_name call) (tq_tool_version call) (gw_registry gw)) (\<lambda>tool.
     bnd (validate_arguments (gw_inside gw) (rt_spec tool) (tq_arguments call) context) (\<lambda>arguments.
     let risk = calculate (gw_risk_policy gw) (sp_base_risk (rt_spec tool)) (sp_name (rt_spec tool)) arguments
                  (sp_side_effect (rt_spec tool))
     in bnd (authorize_tool (rt_spec tool) context (Some risk)) (\<lambda>_.
          Inr (call\<lparr>tq_arguments := arguments\<rparr>, tool, risk)))))"

definition run_claimed ::
  "'w ToolGateway \<Rightarrow> ToolCallRequest \<Rightarrow> 'w RegisteredTool \<Rightarrow> ToolExecutionContext \<Rightarrow> RiskLevel \<Rightarrow> (nat \<Rightarrow> db \<Rightarrow> db) \<Rightarrow> nat
     \<Rightarrow> bool \<Rightarrow> 'w \<times> db \<Rightarrow> ToolCallResult result \<times> 'w \<times> db" where
  "run_claimed gw call tool context risk others polls owner = (\<lambda>(w, s).
     if \<not> owner then (case wait_for_terminal gw call others polls s of (r, s') \<Rightarrow> (r, w, s'))
     else execute_owned gw call tool (tq_arguments call) context risk (w, s))"

text \<open>The approval gate: the exception, or whether this caller promoted the call and owns it.\<close>

definition approval_gate ::
  "'w ToolGateway \<Rightarrow> ToolCallRequest \<Rightarrow> ToolExecutionContext \<Rightarrow> uuid option \<Rightarrow> string option \<Rightarrow> db \<Rightarrow> bool result \<times> db" where
  "approval_gate gw call context approval_id expected_approver s =
     (case request_approval (gw_approvals gw) call context None s of
        (Inl e, s1) \<Rightarrow> (Inl e, s1)
      | (Inr approval, s1) \<Rightarrow>
          (case approval_id of
             None \<Rightarrow> (Inl (ApprovalRequired (aq_approval_id approval)), s1)
           | Some given \<Rightarrow>
               if given \<noteq> aq_approval_id approval
               then (Inl (PermissionError ''approval ID does not match this exact tool call''), s1)
               else case authorize_approval (gw_approvals gw) given call context expected_approver None s1 of
                      Inl e \<Rightarrow> (Inl e, s1)
                    | Inr _ \<Rightarrow> (case promote_approved call s1 of (owner, s2) \<Rightarrow> (Inr owner, s2))))"

definition execute ::
  "'w ToolGateway \<Rightarrow> ToolCallRequest \<Rightarrow> ToolExecutionContext \<Rightarrow> uuid option \<Rightarrow> string option \<Rightarrow> (nat \<Rightarrow> db \<Rightarrow> db) \<Rightarrow> nat
     \<Rightarrow> 'w \<times> db \<Rightarrow> ToolCallResult result \<times> 'w \<times> db" where
  "execute gw call context approval_id expected_approver others polls = (\<lambda>(w, s).
     case admit_call gw call context s of
       Inl e \<Rightarrow> (Inl e, w, s)
     | Inr (normalized, tool, risk) \<Rightarrow>
         (let initial = (if sp_approval_required (rt_spec tool) then WAITING_FOR_APPROVAL else CLAIMED)
          in case claim_call gw normalized initial risk s of
               (Inl e, s1) \<Rightarrow> (Inl e, w, s1)
             | (Inr (row, owner), s1) \<Rightarrow>
                 (case status_of (te_status row) of
                    Inl e \<Rightarrow> (Inl e, w, s1)
                  | Inr status \<Rightarrow>
                      if status \<in> set TERMINAL then (result_from_row (gw_value_text gw) row True, w, s1)
                      else if sp_approval_required (rt_spec tool)
                      then case approval_gate gw normalized context approval_id expected_approver s1 of
                             (Inl e, s2) \<Rightarrow> (Inl e, w, s2)
                           | (Inr owner, s2) \<Rightarrow> run_claimed gw normalized tool context risk others polls owner (w, s2)
                      else run_claimed gw normalized tool context risk others polls owner (w, s1))))"

definition complete_approved ::
  "'w ToolGateway \<Rightarrow> ToolCallRequest \<Rightarrow> json_object \<Rightarrow> RiskLevel \<Rightarrow> db \<Rightarrow> ToolCallResult result \<times> db" where
  "complete_approved gw call output risk s =
     (case by_key (tq_idempotency_key call) s of
        None \<Rightarrow> (Inl (ToolGatewayError ''approved tool execution is missing''), s)
      | Some row \<Rightarrow>
          if te_id row \<noteq> tq_call_id call then (Inl (ToolGatewayError ''approved tool execution is missing''), s)
          else case bnd (validate_replay row call) (\<lambda>_. status_of (te_status row)) of
                 Inl e \<Rightarrow> (Inl e, s)
               | Inr status \<Rightarrow>
                   if status = ToolExecutionStatus.COMPLETED then (result_from_row (gw_value_text gw) row True, s)
                   else if status \<notin> {CLAIMED, WAITING_FOR_APPROVAL}
                   then (Inl (ToolGatewayError ''approved tool call is not executable''), s)
                   else persist_terminal gw call ToolExecutionStatus.COMPLETED (redact_object output) None risk 1 s)"

subsection \<open>One owner per call\<close>

lemma status_of_value [simp]: "status_of (status_value st) = Inr st"
  by (cases st) (simp_all add: status_of_def all_statuses_def)

text \<open>
  The transactions of the gateway and of the approval service, in any order and by any callers, mixed with
  changes made elsewhere. A transaction grants the ownership of a call when it inserts the call as
  CLAIMED or promotes it; the caller that is granted ownership goes on to run the executor.
\<close>

datatype transaction =
    Claim ToolCallRequest ToolExecutionStatus RiskLevel
  | Request ToolCallRequest ToolExecutionContext "time option"
  | Decide uuid string bool string "time option"
  | Promote ToolCallRequest
  | Persist ToolCallRequest ToolExecutionStatus json_object "string option" RiskLevel int
  | Quarantine ToolCallRequest
  | Elsewhere "db \<Rightarrow> db"

definition perform_transaction :: "'w ToolGateway \<Rightarrow> transaction \<Rightarrow> db \<Rightarrow> uuid list \<times> db" where
  "perform_transaction gw t s =
     (case t of
        Claim call initial risk \<Rightarrow>
          (case claim_call gw call initial risk s of
             (Inr (row, inserted), s') \<Rightarrow> (if inserted \<and> initial = CLAIMED then [tq_call_id call] else [], s')
           | (Inl e, s') \<Rightarrow> ([], s'))
      | Request call cx now \<Rightarrow> ([], snd (request_approval (gw_approvals gw) call cx now s))
      | Decide approval_id approver approved expected now \<Rightarrow>
          ([], snd (decide_approval (gw_approvals gw) approval_id approver approved expected now s))
      | Promote call \<Rightarrow> (case promote_approved call s of (owner, s') \<Rightarrow> (if owner then [tq_call_id call] else [], s'))
      | Persist call status output err risk attempts \<Rightarrow>
          ([], snd (persist_terminal gw call status output err risk attempts s))
      | Quarantine call \<Rightarrow> ([], snd (commit (quarantine_graph call) s))
      | Elsewhere f \<Rightarrow> ([], f s))"

fun perform_transactions :: "'w ToolGateway \<Rightarrow> transaction list \<Rightarrow> db \<Rightarrow> uuid list \<times> db" where
  "perform_transactions gw [] s = ([], s)"
| "perform_transactions gw (t # ts) s =
     (case perform_transaction gw t s of (g, s1) \<Rightarrow> (case perform_transactions gw ts s1 of (gs, s2) \<Rightarrow> (g @ gs, s2)))"

text \<open>A call is taken once its row has left WAITING_FOR_APPROVAL.\<close>

definition taken :: "uuid \<Rightarrow> db \<Rightarrow> bool" where
  "taken call_id s \<longleftrightarrow> (\<exists>row \<in> set (tool_executions s). te_id row = call_id \<and> te_status row \<noteq> ''WAITING_FOR_APPROVAL'')"

definition gateway_ok :: "db \<Rightarrow> bool" where
  "gateway_ok s \<longleftrightarrow> keyed te_id (tool_executions s)"

text \<open>The gateway persists terminal statuses only; other code does not take ownership back.\<close>

definition admissible :: "transaction \<Rightarrow> bool" where
  "admissible t =
     (case t of Persist _ status _ _ _ _ \<Rightarrow> status \<in> set TERMINAL
      | Elsewhere f \<Rightarrow> \<forall>s. gateway_ok s \<longrightarrow> gateway_ok (f s) \<and> (\<forall>c. taken c s \<longrightarrow> taken c (f s))
      | _ \<Rightarrow> True)"

lemma insert_execution_frame:
  assumes "insert_execution call status s = (inserted, s')" and "gateway_ok s"
  shows "gateway_ok s'" "taken c s \<Longrightarrow> taken c s'" "inserted \<Longrightarrow> \<not> taken (tq_call_id call) s"
    "inserted \<Longrightarrow> taken (tq_call_id call) s' \<longleftrightarrow> status \<noteq> ''WAITING_FOR_APPROVAL''"
    "approvals s' = approvals s"
  using assms by (auto simp: insert_execution_def gateway_ok_def keyed_def taken_def new_execution_def image_iff
      split: if_splits) metis

lemma tool_executions_events:
  "append_audit e ty ag ai p co ca s = Inr s' \<Longrightarrow> tool_executions s' = tool_executions s"
  "enqueue_event e topic p s = Inr s' \<Longrightarrow> tool_executions s' = tool_executions s"
  "tool_event e ty call p s = Inr s' \<Longrightarrow> tool_executions s' = tool_executions s"
  by (auto simp: append_audit_def enqueue_event_def tool_event_def bnd_eq_Inr)

lemma taken_cong: "tool_executions s' = tool_executions s \<Longrightarrow> taken c s' = taken c s \<and> gateway_ok s' = gateway_ok s"
  by (simp add: taken_def gateway_ok_def)

lemma claim_call_effect:
  assumes "claim_call gw call initial risk s = (r, s')"
  obtains "s' = s" "\<And>row. r \<noteq> Inr (row, True)"
  | row s1 where "r = Inr (row, True)" "insert_execution call (status_value initial) s = (True, s1)"
      "tool_executions s' = tool_executions s1"
proof -
  obtain inserted s1 where ins: "insert_execution call (status_value initial) s = (inserted, s1)" by fastforce
  have same: "s1 = s" if "\<not> inserted" using ins that by (auto simp: insert_execution_def split: if_splits)
  show thesis
  proof (cases "claim_body gw call initial risk s")
    case (Inl e)
    then show thesis using assms by (intro that(1)) (auto simp: claim_call_def commit_def)
  next
    case (Inr v)
    then obtain row owner where v: "r = Inr (row, owner)" "claim_body gw call initial risk s = Inr ((row, owner), s')"
      using assms by (cases v) (auto simp: claim_call_def commit_def)
    show thesis
    proof (cases inserted)
      case True
      then have "owner" "tool_executions s' = tool_executions s1"
        using v(2) by (auto simp: claim_body_def ins bnd_eq_Inr dest: tool_executions_events(3) split: option.splits)
      then show thesis using that(2) v(1) ins True by simp
    next
      case False
      then have "\<not> owner" "s' = s1"
        using v(2) by (auto simp: claim_body_def ins bnd_eq_Inr split: option.splits)
      then show thesis using that(1) v(1) same False by simp
    qed
  qed
qed

lemma request_approval_executions:
  assumes "request_approval svc call context now s = (r, s')"
  shows "s' = s \<or> tool_executions s' = tool_executions (snd (insert_execution call ''WAITING_FOR_APPROVAL'' s))"
proof -
  let ?i = "insert_execution call ''WAITING_FOR_APPROVAL'' s"
  have "tool_executions t = tool_executions (snd ?i)" if "request_body svc call provisional s = Inr (a, t)" for provisional a t
    using that by (cases ?i)
      (auto simp: request_body_def create_approval_def bnd_eq_Inr Let_def dest!: tool_executions_events split: option.splits)
  then show ?thesis
    using assms by (auto simp: request_approval_def commit_def Let_def split: sum.splits)
qed

lemma decide_approval_executions:
  "decide_approval svc approval_id approver approved expected now s = (r, s') \<Longrightarrow> tool_executions s' = tool_executions s"
  by (auto simp: decide_approval_def commit_def decide_body_def record_decision_def set_approval_def
      record_state_duration_def bnd_eq_Inr Let_def dest!: tool_executions_events
      split: sum.splits prod.splits option.splits if_splits)

lemma persist_terminal_effect:
  assumes "persist_terminal gw call status output err risk attempts s = (r, s')"
  obtains "s' = s"
  | row where "execution_of (tq_call_id call) s = Some row" "status_of (te_status row) \<in> {Inr WAITING_FOR_APPROVAL, Inr CLAIMED}"
      "tool_executions s' = row_update (\<lambda>r. te_id r = tq_call_id call)
         (\<lambda>_. row\<lparr>te_status := status_value status, te_result := stored_result output err risk attempts,
                  te_completed_at := Some (utc_now s)\<rparr>) (tool_executions s)"
      "result_from_row (gw_value_text gw) (row\<lparr>te_status := status_value status,
         te_result := stored_result output err risk attempts, te_completed_at := Some (utc_now s)\<rparr>) False = r"
proof (cases "persist_body gw call status output err risk attempts s")
  case (Inl e)
  then show thesis using assms by (intro that(1)) (auto simp: persist_terminal_def commit_def)
next
  case (Inr v)
  obtain res where v: "v = (res, s')" "r = Inr res"
    using assms Inr by (cases v) (auto simp: persist_terminal_def commit_def)
  obtain row current where row: "execution_of (tq_call_id call) s = Some row" "status_of (te_status row) = Inr current"
    using Inr by (auto simp: persist_body_def bnd_eq_Inr split: option.splits)
  show thesis
  proof (cases "current \<in> set TERMINAL")
    case True
    then show thesis using Inr row v by (intro that(1)) (auto simp: persist_body_def bnd_eq_Inr)
  next
    case False
    then have "current = WAITING_FOR_APPROVAL \<or> current = CLAIMED" by (cases current) (auto simp: TERMINAL_def)
    then show thesis
      using Inr row v False by (intro that(2)[OF row(1)]) (auto simp: persist_body_def bnd_eq_Inr Let_def dest!: tool_executions_events(3))
  qed
qed

text \<open>An update that moves rows out of WAITING_FOR_APPROVAL and keeps their identifiers.\<close>

lemma taken_update:
  assumes "tool_executions s' = row_update p f (tool_executions s)" and "\<And>r. p r \<Longrightarrow> te_id (f r) = te_id r"
    and "\<And>r. p r \<Longrightarrow> te_status (f r) \<noteq> ''WAITING_FOR_APPROVAL''"
  shows "gateway_ok s \<Longrightarrow> gateway_ok s'" "taken c s \<Longrightarrow> taken c s'"
    "r \<in> set (tool_executions s) \<Longrightarrow> p r \<Longrightarrow> taken (te_id r) s'"
proof -
  have mem: "(if p r then f r else r) \<in> set (tool_executions s')" if "r \<in> set (tool_executions s)" for r
    using that by (auto simp: assms(1) set_row_update)
  show "gateway_ok s \<Longrightarrow> gateway_ok s'" using assms(2) by (auto simp: gateway_ok_def assms(1))
  show "taken c s'" if t: "taken c s"
  proof -
    obtain r where r: "r \<in> set (tool_executions s)" "te_id r = c" "te_status r \<noteq> ''WAITING_FOR_APPROVAL''"
      using t by (auto simp: taken_def)
    show ?thesis unfolding taken_def by (rule bexI[OF _ mem[OF r(1)]]) (use r(2,3) assms(2,3) in simp)
  qed
  show "taken (te_id r) s'" if "r \<in> set (tool_executions s)" "p r"
    unfolding taken_def by (rule bexI[OF _ mem[OF that(1)]]) (use that(2) assms(2,3) in simp)
qed

lemma promote_approved_effect:
  assumes "promote_approved call s = (owner, s')" and "gateway_ok s"
  shows "gateway_ok s'" "taken c s \<Longrightarrow> taken c s'"
    "owner \<Longrightarrow> \<not> taken (tq_call_id call) s \<and> taken (tq_call_id call) s'"
proof -
  let ?hit = "\<lambda>r. te_id r = tq_call_id call \<and> te_idempotency_key r = tq_idempotency_key call \<and>
      te_status r = ''WAITING_FOR_APPROVAL''"
  have s': "tool_executions s' = row_update ?hit (\<lambda>r. r\<lparr>te_status := ''CLAIMED''\<rparr>) (tool_executions s)"
    and owner: "owner \<longleftrightarrow> list_ex ?hit (tool_executions s)"
    using assms(1) by (auto simp: promote_approved_def Let_def)
  note up = taken_update[OF s']
  show "gateway_ok s'" by (rule up(1)[OF _ _ assms(2)]) simp_all
  show "taken c s \<Longrightarrow> taken c s'" by (rule up(2)) simp_all
  assume owner
  then obtain r where r: "r \<in> set (tool_executions s)" "?hit r" by (auto simp: owner list_ex_iff)
  then have "\<not> taken (tq_call_id call) s"
    using keyed_unique[of te_id "tool_executions s" r] assms(2) by (auto simp: taken_def gateway_ok_def)
  moreover have "taken (te_id r) s'" by (rule up(3)[OF _ _ r]) simp_all
  ultimately show "\<not> taken (tq_call_id call) s \<and> taken (tq_call_id call) s'" using r(2) by simp
qed

lemma persist_terminal_taken:
  assumes "persist_terminal gw call status output err risk attempts s = (r, s')" and "gateway_ok s"
    and "status \<in> set TERMINAL"
  shows "gateway_ok s'" "taken c s \<Longrightarrow> taken c s'"
proof -
  have "gateway_ok s' \<and> (taken c s \<longrightarrow> taken c s')"
    using assms(1)
  proof (cases rule: persist_terminal_effect)
    case 1
    then show ?thesis using assms(2) by simp
  next
    case (2 row)
    have id: "te_id row = tq_call_id call" using 2(1) by (auto simp: execution_of_def dest: row_get_Some(2))
    have "status_value status \<noteq> ''WAITING_FOR_APPROVAL''" using assms(3) by (cases status) (auto simp: TERMINAL_def)
    then show ?thesis using taken_update(1,2)[OF 2(3)] assms(2) id by simp
  qed
  then show "gateway_ok s'" "taken c s \<Longrightarrow> taken c s'" by auto
qed

lemma emit_executions: "emit ty ag ai p co topic s = Inr s' \<Longrightarrow> tool_executions s' = tool_executions s"
  by (auto elim!: emit_cases)

lemma rollover_executions: "rollover row t r th target s = Inr s' \<Longrightarrow> tool_executions s' = tool_executions s"
  by (auto simp: rollover_def bnd_eq_Inr set_graph_row_def dest!: emit_executions)

lemma record_graph_executions:
  "record_graph_execution t r repo b th st cp s = Inr (row, s') \<Longrightarrow> tool_executions s' = tool_executions s"
  by (auto simp: record_graph_execution_def uuid4_def Let_def bnd_eq_Inr)

lemma transition_graph_executions:
  "transition_graph_execution t run repo base thread target cp s = Inr s' \<Longrightarrow> tool_executions s' = tool_executions s"
  by (auto simp: transition_graph_execution_def graph_changed_def bnd_eq_Inr Let_def set_graph_row_def
      record_state_duration_def split: option.splits if_splits
      dest!: emit_executions rollover_executions record_graph_executions)

lemma quarantine_graph_executions:
  assumes "commit (quarantine_graph call) s = (r, s')"
  shows "tool_executions s' = tool_executions s"
proof -
  have "tool_executions t = tool_executions s" if "quarantine_graph call s = Inr (u, t)" for u t
    using that by (auto simp: quarantine_graph_def bnd_eq_Inr dest: transition_graph_executions split: option.splits if_splits)
  then show ?thesis using assms by (auto simp: commit_def split: sum.splits)
qed

lemma perform_transaction_grants:
  assumes "gateway_ok s" and "admissible t" and "perform_transaction gw t s = (g, s')"
  shows "gateway_ok s'" "taken c s \<Longrightarrow> taken c s'" "g = [] \<or> (\<exists>k. g = [k] \<and> \<not> taken k s \<and> taken k s')"
proof -
  have "gateway_ok s' \<and> (taken c s \<longrightarrow> taken c s') \<and> (g = [] \<or> (\<exists>k. g = [k] \<and> \<not> taken k s \<and> taken k s'))"
  proof (cases t)
    case (Claim call initial risk)
    obtain r where run: "claim_call gw call initial risk s = (r, s')"
      using assms(3) by (auto simp: perform_transaction_def Claim split: prod.splits sum.splits)
    then show ?thesis
    proof (cases rule: claim_call_effect)
      case 1
      then show ?thesis using assms(1,3) run by (auto simp: perform_transaction_def Claim split: sum.splits if_splits)
    next
      case (2 row s1)
      note ins = insert_execution_frame[OF 2(2) assms(1)]
      have "taken k s' = taken k s1 \<and> gateway_ok s' = gateway_ok s1" for k by (rule taken_cong[OF 2(3)])
      moreover have "g = (if initial = CLAIMED then [tq_call_id call] else [])"
        using assms(3) run by (simp add: perform_transaction_def Claim 2(1))
      ultimately show ?thesis using ins by auto
    qed
  next
    case (Request call cx now)
    obtain r where run: "request_approval (gw_approvals gw) call cx now s = (r, s')"
      using assms(3) by (cases "request_approval (gw_approvals gw) call cx now s") (auto simp: perform_transaction_def Request)
    obtain i s1 where ins: "insert_execution call ''WAITING_FOR_APPROVAL'' s = (i, s1)" by fastforce
    have "g = []" using assms(3) by (simp add: perform_transaction_def Request)
    then show ?thesis
      using request_approval_executions[OF run] taken_cong[of s' s1 c] insert_execution_frame(1,2)[OF ins assms(1)] assms(1)
      by (auto simp: ins)
  next
    case (Decide approval_id approver approved expected now)
    then have "tool_executions s' = tool_executions s" "g = []"
      using assms(3) decide_approval_executions[of "gw_approvals gw" approval_id approver approved expected now s]
      by (auto simp: perform_transaction_def prod_eq_iff)
    then show ?thesis using assms(1) taken_cong[of s' s c] by simp
  next
    case (Promote call)
    obtain owner where "promote_approved call s = (owner, s')" "g = (if owner then [tq_call_id call] else [])"
      using assms(3) by (auto simp: perform_transaction_def Promote split: prod.splits)
    then show ?thesis using promote_approved_effect[of call s owner s'] assms(1) by auto
  next
    case (Persist call status out err risk attempts)
    then obtain r where "persist_terminal gw call status out err risk attempts s = (r, s')" "g = []"
      using assms(3) by (cases "persist_terminal gw call status out err risk attempts s") (auto simp: perform_transaction_def)
    then show ?thesis using persist_terminal_taken[of gw call status out err risk attempts s r s'] assms(1,2)
      by (simp add: admissible_def Persist)
  next
    case (Quarantine call)
    then obtain r where "commit (quarantine_graph call) s = (r, s')" "g = []"
      using assms(3) by (cases "commit (quarantine_graph call) s") (auto simp: perform_transaction_def)
    then show ?thesis using quarantine_graph_executions[of call s r s'] taken_cong[of s' s c] assms(1) by simp
  next
    case (Elsewhere f)
    then show ?thesis using assms by (auto simp: perform_transaction_def admissible_def)
  qed
  then show "gateway_ok s'" "taken c s \<Longrightarrow> taken c s'" "g = [] \<or> (\<exists>k. g = [k] \<and> \<not> taken k s \<and> taken k s')" by auto
qed

text \<open>
  Property C5: a tool call is owned at most once. Whatever the order in which the transactions of any
  number of concurrent callers commit, no two of them are granted the same call, a call that is already
  claimed or finished is never granted, and a granted call stays taken. So of all concurrent and repeated
  submissions of a call one at most runs its executor.
\<close>

theorem call_owned_at_most_once:
  assumes "gateway_ok s" and "\<forall>t \<in> set ts. admissible t" and "perform_transactions gw ts s = (grants, s')"
  shows "distinct grants \<and> (\<forall>c \<in> set grants. \<not> taken c s \<and> taken c s') \<and> (\<forall>c. taken c s \<longrightarrow> taken c s')"
  using assms
proof (induction ts arbitrary: s grants)
  case Nil
  then show ?case by simp
next
  case (Cons t ts)
  obtain g s1 gs where one: "perform_transaction gw t s = (g, s1)" and rest: "perform_transactions gw ts s1 = (gs, s')"
    and grants: "grants = g @ gs" using Cons.prems(3) by (auto split: prod.splits)
  have t: "admissible t" using Cons.prems(2) by simp
  note step = perform_transaction_grants[OF Cons.prems(1) t one]
  have "distinct gs \<and> (\<forall>c \<in> set gs. \<not> taken c s1 \<and> taken c s') \<and> (\<forall>c. taken c s1 \<longrightarrow> taken c s')"
    using Cons.IH[OF step(1) _ rest] Cons.prems(2) by simp
  then show ?case using step(2,3) by (auto simp: grants)
qed

subsection \<open>A sample gateway\<close>

definition sample_contract :: contract_model where
  "sample_contract = \<lparr>cm_name = ''PushArguments'', cm_schema_version = Some ''1.0'', cm_validate = Inr\<rparr>"

text \<open>A push to a remote repository: external, never replayed, approved by a human.\<close>

definition sample_push :: ToolSpec where
  "sample_push = \<lparr>sp_name = ''git_push'', sp_version = ''1.0'', sp_argument_model = sample_contract,
     sp_result_model = sample_contract, sp_owning_capability = ''release'', sp_eligible_agents = [''developer''],
     sp_base_risk = HIGH, sp_timeout_seconds = 60, sp_max_attempts = 1, sp_replay_policy = NEVER,
     sp_sandbox_profile = ''default'', sp_network_profile = NetworkProfile.NONE, sp_side_effect = EXTERNAL,
     sp_approval_required = True, sp_path_fields = [], sp_retry_on_timeout = False, sp_retry_on_transient = False,
     sp_initial_backoff_seconds = 0, sp_maximum_backoff_seconds = 0\<rparr>"

text \<open>A test run that is retried on transient failures.\<close>

definition sample_check :: ToolSpec where
  "sample_check = sample_push\<lparr>sp_name := ''run_tests'', sp_base_risk := LOW, sp_max_attempts := 5, sp_replay_policy := SAFE,
     sp_side_effect := SideEffectClass.NONE, sp_approval_required := False, sp_retry_on_transient := True\<rparr>"

text \<open>The world counts the runs of the executor; the first two fail transiently.\<close>

definition sample_executor :: "nat tool_executor" where
  "sample_executor arguments cx n = (if n < 2 then (Transient ''busy'', Suc n) else (Returned [(''ok'', JBool True)], Suc n))"

definition sample_approvals :: ApprovalService where
  "sample_approvals = \<lparr>as_ttl = 3600, as_sha256 = (\<lambda>b. tq_idempotency_key (bi_call b)),
     as_uuid5 = (\<lambda>name. case name of
        Approval_name call t \<Rightarrow> 10 * call + 1 | Approval_requested_name a \<Rightarrow> 10 * a + 2 | Approval_decided_name a st \<Rightarrow> 10 * a + 3
      | Tool_requested_name call \<Rightarrow> 10 * call + 4 | Tool_terminal_name call st \<Rightarrow> 10 * call + 5)\<rparr>"

definition sample_gateway :: "'w ToolRegistry \<Rightarrow> 'w ToolGateway" where
  "sample_gateway tools = \<lparr>gw_registry = tools, gw_approvals = sample_approvals, gw_risk_policy = default_risk_policy,
     gw_inside = (\<lambda>_ _. Inr True), gw_error_text = (\<lambda>_. ''error''), gw_value_text = (\<lambda>_. ''value'')\<rparr>"

definition sample_call :: ToolCallRequest where
  "sample_call = \<lparr>tq_call_id = 21, tq_run_id = 9, tq_task_id = 7, tq_attempt_id = 11, tq_requested_by = ''developer'',
     tq_tool_name = ''git_push'', tq_tool_version = ''1.0'', tq_arguments = [(''force'', JBool False)],
     tq_idempotency_key = ''push-1''\<rparr>"

definition sample_context :: ToolExecutionContext where
  "sample_context = \<lparr>cx_project_id = 3, cx_repository_id = 2, cx_run_id = 9, cx_task_id = 7, cx_attempt_id = 11,
     cx_baseline_commit = ''base'', cx_agent_role = ''developer'', cx_agent_capabilities = [''release''],
     cx_risk_ceiling = HIGH, cx_worktree_root = ''/w'', cx_tool_call_id = None, cx_available_egress = NetworkProfile.NONE\<rparr>"

definition sample_approval :: ApprovalRow where
  "sample_approval = \<lparr>ap_id = 31, ap_call_id = 21, ap_project_id = 3, ap_repository_id = 2, ap_baseline_commit = ''base'',
     ap_call_hash = ''push-1'', ap_status = APPROVED, ap_expires_at = 3600, ap_created_at = 0,
     ap_decided_at = Some 0, ap_approver = Some ''lead''\<rparr>"

definition sample_gateway_db :: db where
  "sample_gateway_db = empty_db\<lparr>tasks := [sample_task\<lparr>tr_state := TaskStatus.RUNNING\<rparr>],
     task_attempts := [\<lparr>ta_id = 11, ta_task_id = 7, ta_agent_spec_hash = ''h'', ta_status = ''RUNNING'',
       ta_started_at = 0, ta_ended_at = None\<rparr>],
     runs := [\<lparr>rn_id = 9, rn_project_id = 3, rn_repository_id = 2, rn_goal = ''g'', rn_baseline_commit = ''base'',
       rn_state = RunStatus.EXECUTING, rn_state_entered_at = 0, rn_cancellation_requested_at = None\<rparr>],
     approvals := [sample_approval]\<rparr>"

definition sample_transactions :: "transaction list" where
  "sample_transactions =
     [Claim sample_call WAITING_FOR_APPROVAL HIGH, Request sample_call sample_context None, Promote sample_call,
      Claim sample_call WAITING_FOR_APPROVAL HIGH, Promote sample_call,
      Persist sample_call ToolExecutionStatus.COMPLETED [(''ok'', JBool True)] None HIGH 1,
      Claim sample_call WAITING_FOR_APPROVAL HIGH, Promote sample_call]"

lemma sample_grants:
  "fst (perform_transactions (sample_gateway [] :: nat ToolGateway) sample_transactions sample_gateway_db) = [21]"
  by code_simp

theorem call_owned_at_most_once_witness:
  "\<exists>s'. perform_transactions (sample_gateway [] :: nat ToolGateway) sample_transactions sample_gateway_db = ([21], s') \<and>
     \<not> taken 21 sample_gateway_db \<and> taken 21 s'"
proof -
  obtain s' where run: "perform_transactions (sample_gateway [] :: nat ToolGateway) sample_transactions sample_gateway_db = ([21], s')"
    using sample_grants by (metis prod.collapse)
  have "\<forall>t \<in> set sample_transactions. admissible t" "gateway_ok sample_gateway_db"
    by (simp_all add: sample_transactions_def admissible_def TERMINAL_def sample_gateway_db_def gateway_ok_def empty_db_def)
  then show ?thesis using call_owned_at_most_once[OF _ _ run] run by auto
qed

end
