(* ===== verification/Gateway_Contracts.thy ===== *)
theory Gateway_Contracts
  imports Tool_Gateway
begin

section \<open>What the tool gateway guarantees\<close>

text \<open>
  The properties of a whole \<open>execute\<close> call, composed from the registry, the risk policy, the approval
  service and the claim protocol: when an executor can run at all, how often it runs, that a stored result
  is replayed as it was, and that every stored row can be decoded again.
\<close>

subsection \<open>Authorisation\<close>

lemma events_approvals:
  "append_audit e ty ag ai p co ca s = Inr s' \<Longrightarrow> approvals s' = approvals s \<and> db_clock s' = db_clock s"
  "enqueue_event e topic p s = Inr s' \<Longrightarrow> approvals s' = approvals s \<and> db_clock s' = db_clock s"
  "tool_event e ty call p s = Inr s' \<Longrightarrow> approvals s' = approvals s \<and> db_clock s' = db_clock s"
  by (auto simp: append_audit_def enqueue_event_def tool_event_def bnd_eq_Inr)

lemma insert_execution_approvals:
  "insert_execution call st s = (i, s') \<Longrightarrow> approvals s' = approvals s \<and> db_clock s' = db_clock s"
  by (auto simp: insert_execution_def split: if_splits)

lemma claim_call_approvals:
  assumes "claim_call gw call initial risk s = (r, s')"
  shows "approvals s' = approvals s \<and> db_clock s' = db_clock s"
proof (cases "claim_body gw call initial risk s")
  case (Inl e)
  then show ?thesis using assms by (auto simp: claim_call_def commit_def)
next
  case (Inr v)
  obtain i s1 where ins: "insert_execution call (status_value initial) s = (i, s1)" by fastforce
  have "claim_body gw call initial risk s = Inr (fst v, s')" using assms Inr by (auto simp: claim_call_def commit_def split: prod.splits)
  then have "approvals s' = approvals s1 \<and> db_clock s' = db_clock s1"
    by (auto simp: claim_body_def ins bnd_eq_Inr dest!: events_approvals(3) split: option.splits if_splits)
  then show ?thesis using insert_execution_approvals[OF ins] by simp
qed

text \<open>Requesting an approval only ever adds pending ones.\<close>

lemma request_approval_pending:
  assumes "request_approval svc call cx now s = (r, s')"
  shows "db_clock s' = db_clock s" "row \<in> set (approvals s') \<Longrightarrow> ap_status row \<noteq> ApprovalStatus.PENDING \<Longrightarrow> row \<in> set (approvals s)"
proof -
  obtain i s1 where ins: "insert_execution call ''WAITING_FOR_APPROVAL'' s = (i, s1)" by fastforce
  have "db_clock t = db_clock s \<and> (\<forall>row \<in> set (approvals t). ap_status row \<noteq> ApprovalStatus.PENDING \<longrightarrow> row \<in> set (approvals s))"
    if "request_body svc call p s = Inr (a, t)" "aq_status p = ApprovalStatus.PENDING" for p a t
    using that insert_execution_approvals[OF ins]
    by (auto simp: request_body_def ins create_approval_def bnd_eq_Inr Let_def row_insert_Inr dest!: events_approvals
        split: option.splits)
  then have "db_clock s' = db_clock s \<and> (\<forall>row \<in> set (approvals s'). ap_status row \<noteq> ApprovalStatus.PENDING \<longrightarrow> row \<in> set (approvals s))"
    using assms by (auto simp: request_approval_def commit_def Let_def split: sum.splits)
  then show "db_clock s' = db_clock s" "row \<in> set (approvals s') \<Longrightarrow> ap_status row \<noteq> ApprovalStatus.PENDING \<Longrightarrow> row \<in> set (approvals s)"
    by auto
qed

text \<open>A granted approval for exactly this call in this context.\<close>

definition approved_for :: "ApprovalService \<Rightarrow> ToolCallRequest \<Rightarrow> ToolExecutionContext \<Rightarrow> time \<Rightarrow> ApprovalRow \<Rightarrow> bool" where
  "approved_for svc call cx now row \<longleftrightarrow> ap_status row = APPROVED \<and> now < ap_expires_at row \<and>
     ap_approver row \<notin> {None, Some []} \<and> ap_project_id row = cx_project_id cx \<and>
     ap_repository_id row = cx_repository_id cx \<and> ap_baseline_commit row = cx_baseline_commit cx \<and>
     ap_call_hash row = as_sha256 svc (context_binding call cx (ap_expires_at row))"

lemma authorize_approval_sound:
  assumes "authorize_approval svc approval_id call cx expected None s = Inr a"
  shows "\<exists>row \<in> set (approvals s). ap_id row = approval_id \<and> approved_for svc call cx (utc_now s) row"
proof (cases "row_get ap_id approval_id (approvals s)")
  case None
  then show ?thesis using assms by (simp add: authorize_approval_def bnd_eq_Inr)
next
  case (Some row)
  then have "approved_for svc call cx (utc_now s) row"
    using assms by (auto simp: authorize_approval_def approved_for_def bnd_eq_Inr
        split: option.splits if_splits ApprovalStatus.splits)
  then show ?thesis using row_get_SomeD[OF Some] by blast
qed

lemma approval_gate_owner:
  assumes "approval_gate gw call cx approval_id expected s = (Inr True, s')" and "gateway_ok s"
  shows "\<exists>row \<in> set (approvals s). Some (ap_id row) = approval_id \<and> approved_for (gw_approvals gw) call cx (utc_now s) row"
    "\<not> taken (tq_call_id call) s"
proof -
  obtain approval s1 given a where req: "request_approval (gw_approvals gw) call cx None s = (Inr approval, s1)"
    and id: "approval_id = Some given"
    and auth: "authorize_approval (gw_approvals gw) given call cx expected None s1 = Inr a"
    and prom: "promote_approved call s1 = (True, s')"
    using assms(1) by (auto simp: approval_gate_def split: prod.splits sum.splits option.splits if_splits)
  obtain row where row: "row \<in> set (approvals s1)" "ap_id row = given" "approved_for (gw_approvals gw) call cx (utc_now s1) row"
    using authorize_approval_sound[OF auth] by blast
  have "ap_status row \<noteq> ApprovalStatus.PENDING" using row(3) by (simp add: approved_for_def)
  then have "row \<in> set (approvals s)" "utc_now s1 = utc_now s"
    using request_approval_pending[OF req] row(1) by (auto simp: utc_now_def)
  then show "\<exists>row \<in> set (approvals s). Some (ap_id row) = approval_id \<and> approved_for (gw_approvals gw) call cx (utc_now s) row"
    using row id by auto
  obtain i t where ins: "insert_execution call ''WAITING_FOR_APPROVAL'' s = (i, t)" by fastforce
  have "gateway_ok s1 \<and> (taken (tq_call_id call) s \<longrightarrow> taken (tq_call_id call) s1)"
    using request_approval_executions[OF req] taken_cong[of s1 t "tq_call_id call"] insert_execution_frame(1,2)[OF ins assms(2)] assms(2)
    by (auto simp: ins)
  then show "\<not> taken (tq_call_id call) s" using promote_approved_effect(3)[OF prom] by blast
qed

lemma run_claimed_world:
  "run_claimed gw call tool cx risk others polls owner (w, s) = (r, w', s') \<Longrightarrow> w' \<noteq> w \<Longrightarrow> owner"
  by (auto simp: run_claimed_def split: if_splits prod.splits)

text \<open>The running task, attempt and run a call must belong to.\<close>

definition bound_to_running_task :: "ToolCallRequest \<Rightarrow> ToolExecutionContext \<Rightarrow> db \<Rightarrow> bool" where
  "bound_to_running_task call cx s \<longleftrightarrow>
     (\<exists>task \<in> set (tasks s). tr_id task = tq_task_id call \<and> tr_state task = TaskStatus.RUNNING \<and>
        tr_project_id task = cx_project_id cx \<and> tr_repository_id task = cx_repository_id cx) \<and>
     (\<exists>attempt \<in> set (task_attempts s). ta_id attempt = tq_attempt_id call \<and> ta_task_id attempt = tq_task_id call) \<and>
     (\<exists>run \<in> set (runs s). rn_id run = tq_run_id call \<and> rn_baseline_commit run = cx_baseline_commit cx \<and>
        rn_project_id run = cx_project_id cx \<and> rn_repository_id run = cx_repository_id cx)"

lemma validate_context_bound: "validate_context call cx s = Inr u \<Longrightarrow> bound_to_running_task call cx s"
  by (auto simp: validate_context_def bound_to_running_task_def bnd_eq_Inr dest!: row_get_SomeD split: option.splits)

lemma execute_cases:
  assumes "execute gw call cx approval_id expected others polls (w, s) = (r, w', s')" and "w' \<noteq> w"
  obtains normalized tool risk row owner s1 where "admit_call gw call cx s = Inr (normalized, tool, risk)"
    "claim_call gw normalized (if sp_approval_required (rt_spec tool) then WAITING_FOR_APPROVAL else CLAIMED) risk s =
       (Inr (row, owner), s1)"
    "if sp_approval_required (rt_spec tool)
     then \<exists>s2. approval_gate gw normalized cx approval_id expected s1 = (Inr True, s2) else owner"
proof -
  obtain normalized tool risk where admit: "admit_call gw call cx s = Inr (normalized, tool, risk)"
    using assms by (auto simp: execute_def split: sum.splits)
  let ?initial = "if sp_approval_required (rt_spec tool) then WAITING_FOR_APPROVAL else CLAIMED"
  obtain row owner s1 where claim: "claim_call gw normalized ?initial risk s = (Inr (row, owner), s1)"
    using assms by (auto simp: execute_def admit Let_def split: prod.splits sum.splits)
  show thesis
  proof (rule that[OF admit claim])
    show "if sp_approval_required (rt_spec tool)
     then \<exists>s2. approval_gate gw normalized cx approval_id expected s1 = (Inr True, s2) else owner"
      using assms claim run_claimed_world[where w' = w']
      by (auto simp: execute_def admit Let_def split: sum.splits if_splits prod.splits) metis+
  qed
qed

text \<open>
  Property C2: an executor runs only for an authorised call. If an \<open>execute\<close> call touches the world at
  all, the tool is registered and its arguments passed validation, the call belongs to the RUNNING task and
  to the run's baseline, the agent has the tool's capability and an eligible role, the risk calculated
  from the very arguments passed to the executor is within the agent's ceiling, nobody owned the call before,
  and, for a tool that requires approval or whose name makes approval mandatory, an unexpired approval of
  exactly these arguments in this project, repository and baseline had been granted before the call.
\<close>

theorem executor_runs_only_authorized:
  assumes "execute gw call cx approval_id expected others polls (w, s) = (r, w', s')" and "w' \<noteq> w"
    and "gateway_ok s" and "registry (gw_registry gw)"
  shows "\<exists>tool arguments. resolve_tool (tq_tool_name call) (tq_tool_version call) (gw_registry gw) = Inr tool \<and>
    validate_arguments (gw_inside gw) (rt_spec tool) (tq_arguments call) cx = Inr arguments \<and>
    bound_to_running_task call cx s \<and>
    sp_owning_capability (rt_spec tool) \<in> set (cx_agent_capabilities cx) \<and>
    cx_agent_role cx \<in> set (sp_eligible_agents (rt_spec tool)) \<and>
    \<not> risk_exceeds (calculate (gw_risk_policy gw) (sp_base_risk (rt_spec tool)) (tq_tool_name call) arguments
        (sp_side_effect (rt_spec tool))) (cx_risk_ceiling cx) \<and>
    \<not> taken (tq_call_id call) s \<and>
    (sp_approval_required (rt_spec tool) \<or> approval_is_mandatory (rt_spec tool) \<longrightarrow>
       (\<exists>row \<in> set (approvals s). Some (ap_id row) = approval_id \<and>
          approved_for (gw_approvals gw) (call\<lparr>tq_arguments := arguments\<rparr>) cx (utc_now s) row))"
proof -
  obtain normalized tool risk row owner s1 where admit: "admit_call gw call cx s = Inr (normalized, tool, risk)"
    and claim: "claim_call gw normalized (if sp_approval_required (rt_spec tool) then WAITING_FOR_APPROVAL else CLAIMED) risk s =
       (Inr (row, owner), s1)"
    and gate: "if sp_approval_required (rt_spec tool)
     then \<exists>s2. approval_gate gw normalized cx approval_id expected s1 = (Inr True, s2) else owner"
    by (rule execute_cases[OF assms(1,2)])
  obtain arguments where tool: "resolve_tool (tq_tool_name call) (tq_tool_version call) (gw_registry gw) = Inr tool"
    and arguments: "validate_arguments (gw_inside gw) (rt_spec tool) (tq_arguments call) cx = Inr arguments"
    and bound: "bound_to_running_task call cx s" and normalized: "normalized = call\<lparr>tq_arguments := arguments\<rparr>"
    and auth: "authorize_tool (rt_spec tool) cx (Some (calculate (gw_risk_policy gw) (sp_base_risk (rt_spec tool))
        (sp_name (rt_spec tool)) arguments (sp_side_effect (rt_spec tool)))) = Inr ()"
    using admit by (auto simp: admit_call_def bnd_eq_Inr Let_def dest: validate_context_bound)
  note named = resolve_tool_ok(1,4)[OF assms(4) tool]
  have same: "approvals s1 = approvals s" "utc_now s1 = utc_now s" using claim_call_approvals[OF claim] by (auto simp: utc_now_def)
  have free: "gateway_ok s1 \<and> (taken c s \<longrightarrow> taken c s1) \<and>
      (\<not> sp_approval_required (rt_spec tool) \<longrightarrow> owner \<longrightarrow> \<not> taken (tq_call_id normalized) s)" for c
    using claim
  proof (cases rule: claim_call_effect)
    case 1
    then show ?thesis using assms(3) by auto
  next
    case (2 row' t)
    then show ?thesis using taken_cong[OF 2(3), of c] insert_execution_frame[OF 2(2) assms(3)] by auto
  qed
  have "\<not> taken (tq_call_id call) s"
    using gate free[of "tq_call_id call"] approval_gate_owner(2)[of gw normalized cx approval_id expected s1]
    by (auto simp: normalized split: if_splits)
  moreover have "\<exists>row \<in> set (approvals s). Some (ap_id row) = approval_id \<and> approved_for (gw_approvals gw) normalized cx (utc_now s) row"
    if "sp_approval_required (rt_spec tool)"
    using that gate free approval_gate_owner(1)[of gw normalized cx approval_id expected s1] same by auto
  ultimately show ?thesis
    using tool arguments bound auth named by (auto simp: authorize_tool_def bnd_eq_Inr normalized)
qed

definition sample_tools :: "nat ToolRegistry" where
  "sample_tools = [((''git_push'', ''1.0''), \<lparr>rt_spec = sample_push, rt_executor = (\<lambda>a c n. (Returned [(''ok'', JBool True)], Suc n))\<rparr>)]"

lemma sample_push_ok: "ToolSpec_post_init sample_push = Inr ()"
  by code_simp

lemma sample_tools_registry: "registry sample_tools"
  unfolding sample_tools_def
  by (rule registry_register[OF registry_empty sample_push_ok, where executor = "\<lambda>a c n. (Returned [(''ok'', JBool True)], Suc n)"])
    (simp add: register_tool_def sample_push_def)

definition sample_pushed :: "ToolCallResult result \<times> nat \<times> db" where
  "sample_pushed = execute (sample_gateway sample_tools) sample_call sample_context (Some 31) None (\<lambda>_ s. s) 0 (0, sample_gateway_db)"

lemma sample_pushed_outcome:
  "fst (snd sample_pushed) = 1"
  "fst sample_pushed = Inr \<lparr>tc_call_id = 21, tc_tool_name = ''git_push'', tc_tool_version = ''1.0'',
     tc_status = ToolExecutionStatus.COMPLETED, tc_output = [(''ok'', JBool True)], tc_error = None, tc_risk = HIGH,
     tc_attempts = 1, tc_replayed = False\<rparr>"
  by code_simp+

lemma sample_gateway_db_ok: "gateway_ok sample_gateway_db"
  by (simp add: sample_gateway_db_def gateway_ok_def empty_db_def)

theorem executor_runs_only_authorized_witness:
  "fst (snd sample_pushed) \<noteq> 0 \<and> approval_is_mandatory sample_push \<and>
   (\<exists>row \<in> set (approvals sample_gateway_db). ap_id row = 31 \<and> approved_for sample_approvals sample_call sample_context 0 row) \<and>
   bound_to_running_task sample_call sample_context sample_gateway_db"
proof -
  have run: "execute (sample_gateway sample_tools) sample_call sample_context (Some 31) None (\<lambda>_ s. s) 0 (0, sample_gateway_db) =
      (fst sample_pushed, fst (snd sample_pushed), snd (snd sample_pushed))" by (simp add: sample_pushed_def)
  have reg: "registry (gw_registry (sample_gateway sample_tools))" by (simp add: sample_gateway_def sample_tools_registry)
  have now: "utc_now sample_gateway_db = 0" "approval_is_mandatory sample_push" by code_simp+
  have moved: "fst (snd sample_pushed) \<noteq> 0" by (simp add: sample_pushed_outcome)
  obtain tool arguments where ok: "resolve_tool (tq_tool_name sample_call) (tq_tool_version sample_call) sample_tools = Inr tool"
    "validate_arguments (\<lambda>_ _. Inr True) (rt_spec tool) (tq_arguments sample_call) sample_context = Inr arguments"
    "bound_to_running_task sample_call sample_context sample_gateway_db"
    "approval_is_mandatory (rt_spec tool) \<longrightarrow> (\<exists>row \<in> set (approvals sample_gateway_db). Some (ap_id row) = Some 31 \<and>
       approved_for sample_approvals (sample_call\<lparr>tq_arguments := arguments\<rparr>) sample_context (utc_now sample_gateway_db) row)"
    using executor_runs_only_authorized[OF run moved sample_gateway_db_ok reg] by (auto simp: sample_gateway_def)
  have tool: "rt_spec tool = sample_push" using ok(1) by (auto simp: resolve_tool_def sample_tools_def sample_call_def)
  have "arguments = tq_arguments sample_call" using ok(2) by (simp add: tool validate_arguments_def sample_push_def sample_contract_def)
  then show ?thesis using ok(3,4) now moved by (simp add: tool)
qed

subsection \<open>Attempts\<close>

text \<open>A tool whose executor also counts its calls, in the first component of the world.\<close>

definition counted :: "'w RegisteredTool \<Rightarrow> (nat \<times> 'w) RegisteredTool" where
  "counted tool = \<lparr>rt_spec = rt_spec tool, rt_executor = (\<lambda>a c (n, w).
     case rt_executor tool a c w of (outcome, w') \<Rightarrow> (outcome, Suc n, w'))\<rparr>"

text \<open>The three ways an owned call ends.\<close>

definition settled ::
  "'w ToolGateway \<Rightarrow> ToolCallRequest \<Rightarrow> ToolSpec \<Rightarrow> RiskLevel \<Rightarrow> int \<Rightarrow> db \<Rightarrow> (ToolCallResult result \<times> db) set" where
  "settled gw call spec risk k s =
     (\<Union>raw. {completed gw call spec raw risk k s}) \<union>
     (\<Union>e. {failed gw call e risk k s}) \<union> (\<Union>e. {uncertain gw call e risk k s})"

lemma settledI [intro]:
  "completed gw call spec raw risk k s \<in> settled gw call spec risk k s"
  "failed gw call e risk k s \<in> settled gw call spec risk k s"
  "uncertain gw call e risk k s \<in> settled gw call spec risk k s"
  by (auto simp: settled_def)

lemma attempt_loop_step:
  assumes "attempt_loop gw call tool arguments cx risk (m # ms) (w, s) = (r, w', s')"
  obtains w1 where "w1 = snd (rt_executor tool arguments (cx\<lparr>cx_tool_call_id := Some (tq_call_id call)\<rparr>) w)"
      "attempt_loop gw call tool arguments cx risk ms (w1, s) = (r, w', s')"
      "sp_side_effect (rt_spec tool) \<noteq> EXTERNAL" "may_retry (rt_spec tool) m"
  | "(r, s') \<in> settled gw call (rt_spec tool) risk m s"
      "w' = snd (rt_executor tool arguments (cx\<lparr>cx_tool_call_id := Some (tq_call_id call)\<rparr>) w)"
proof -
  let ?spec = "rt_spec tool"
  obtain outcome w1 where ex: "rt_executor tool arguments (cx\<lparr>cx_tool_call_id := Some (tq_call_id call)\<rparr>) w = (outcome, w1)" by fastforce
  note retry = that(1) and finish = that(2)
  have stop: thesis if run: "(\<lambda>(r, s'). (r, w1, s')) x = (r, w', s')" and x: "x \<in> settled gw call ?spec risk m s" for x
    by (rule finish) (use run x in \<open>auto simp: ex split: prod.splits\<close>)
  note loop = assms[unfolded attempt_loop.simps Let_def ex prod.case]
  show thesis
  proof (cases outcome)
    case (Returned raw)
    show thesis by (rule stop[OF _ settledI(1)[where raw = raw]]) (use loop Returned in simp)
  next
    case (UnknownOutcome e)
    show thesis by (rule stop[OF _ settledI(3)[where e = e]]) (use loop UnknownOutcome in simp)
  next
    case (TimedOut e)
    consider "sp_side_effect ?spec = EXTERNAL" | "sp_side_effect ?spec \<noteq> EXTERNAL" "\<not> sp_retry_on_timeout ?spec \<or> \<not> may_retry ?spec m"
      | "sp_side_effect ?spec \<noteq> EXTERNAL" "sp_retry_on_timeout ?spec" "may_retry ?spec m" by blast
    then show thesis
    proof cases
      case 1
      then show thesis by (intro stop[OF _ settledI(3)[where e = "''external tool timed out''"]]) (use loop TimedOut in simp)
    next
      case 2
      then show thesis by (intro stop[OF _ settledI(2)[where e = e]]) (use loop TimedOut in simp)
    next
      case 3
      then show thesis by (intro retry[of w1]) (use loop TimedOut in \<open>simp_all add: ex\<close>)
    qed
  next
    case (Transient e)
    consider "sp_side_effect ?spec = EXTERNAL" | "sp_side_effect ?spec \<noteq> EXTERNAL" "\<not> sp_retry_on_transient ?spec \<or> \<not> may_retry ?spec m"
      | "sp_side_effect ?spec \<noteq> EXTERNAL" "sp_retry_on_transient ?spec" "may_retry ?spec m" by blast
    then show thesis
    proof cases
      case 1
      then show thesis by (intro stop[OF _ settledI(3)[where e = e]]) (use loop Transient in simp)
    next
      case 2
      then show thesis by (intro stop[OF _ settledI(2)[where e = e]]) (use loop Transient in simp)
    next
      case 3
      then show thesis by (intro retry[of w1]) (use loop Transient in \<open>simp_all add: ex\<close>)
    qed
  next
    case (Raised e)
    show thesis by (rule stop[OF _ settledI(2)[where e = e]]) (use loop Raised in simp)
  qed
qed

text \<open>What one run of the executor does to the world.\<close>

definition run_once :: "'w RegisteredTool \<Rightarrow> ToolCallRequest \<Rightarrow> json_object \<Rightarrow> ToolExecutionContext \<Rightarrow> 'w \<Rightarrow> 'w" where
  "run_once tool call arguments cx w = snd (rt_executor tool arguments (cx\<lparr>cx_tool_call_id := Some (tq_call_id call)\<rparr>) w)"

lemma attempt_loop_settled:
  assumes "attempt_loop gw call tool arguments cx risk [m..sp_max_attempts (rt_spec tool)] (w, s) = (r, w', s')"
    and "m \<le> sp_max_attempts (rt_spec tool)"
  shows "\<exists>k \<in> {m..sp_max_attempts (rt_spec tool)}. (r, s') \<in> settled gw call (rt_spec tool) risk k s \<and>
    w' = (run_once tool call arguments cx ^^ nat (k - m + 1)) w \<and>
    (sp_side_effect (rt_spec tool) = EXTERNAL \<or> sp_replay_policy (rt_spec tool) = NEVER \<longrightarrow> k = m)"
  using assms
proof (induction "nat (sp_max_attempts (rt_spec tool) - m)" arbitrary: m w)
  case 0
  then have m: "[m..sp_max_attempts (rt_spec tool)] = [m]" "sp_max_attempts (rt_spec tool) = m" by simp_all
  from 0(2)[unfolded m(1)] show ?case
  proof (cases rule: attempt_loop_step)
    case (1 w1)
    then show ?thesis by (simp add: may_retry_def m)
  qed (simp add: m run_once_def)
next
  case (Suc d)
  let ?spec = "rt_spec tool"
  have more: "[m..sp_max_attempts ?spec] = m # [m + 1..sp_max_attempts ?spec]" using Suc.prems(2) by (simp add: upto.simps)
  from Suc.prems(1)[unfolded more] show ?case
  proof (cases rule: attempt_loop_step)
    case (1 w1)
    have "d = nat (sp_max_attempts ?spec - (m + 1))" "m + 1 \<le> sp_max_attempts ?spec" using Suc.hyps(2) by auto
    from Suc.hyps(1)[OF this(1) 1(2) this(2)] obtain k where k: "k \<in> {m + 1..sp_max_attempts ?spec}"
      "(r, s') \<in> settled gw call ?spec risk k s" "w' = (run_once tool call arguments cx ^^ nat (k - (m + 1) + 1)) w1" by blast
    have "nat (k - m + 1) = Suc (nat (k - (m + 1) + 1))" using k(1) by auto
    then have "w' = (run_once tool call arguments cx ^^ nat (k - m + 1)) w"
      using k(3) 1(1) by (simp only: funpow_Suc_right comp_def run_once_def)
    then show ?thesis using k(1,2) 1(3,4) by (intro bexI[of _ k]) (auto simp: may_retry_def)
  next
    case 2
    then show ?thesis using Suc.prems(2) by (intro bexI[of _ m]) (auto simp: run_once_def)
  qed
qed

lemma run_once_counted: "fst ((run_once (counted tool) call arguments cx ^^ k) (n, w)) = n + k"
  by (induction k) (auto simp: run_once_def counted_def case_prod_beta)


definition sample_checked :: "ToolCallResult result \<times> (nat \<times> nat) \<times> db" where
  "sample_checked = execute_owned (sample_gateway []) sample_call
     (counted \<lparr>rt_spec = sample_check, rt_executor = sample_executor\<rparr>) [] sample_context LOW ((0, 0),
     snd (claim_call (sample_gateway [] :: nat ToolGateway) sample_call CLAIMED LOW sample_gateway_db))"

lemma sample_checked_outcome: "fst (snd sample_checked) = (3, 3)" "map_sum (\<lambda>_. ()) tc_attempts (fst sample_checked) = Inr 3"
  by code_simp+


subsection \<open>Replay\<close>

text \<open>The call's row is found under its key, and belongs to exactly this call.\<close>

definition recorded :: "ToolCallRequest \<Rightarrow> ToolExecutionRow \<Rightarrow> db \<Rightarrow> bool" where
  "recorded call row s \<longleftrightarrow> by_key (tq_idempotency_key call) s = Some row \<and> execution_matches row call"

text \<open>Its stored outcome is final and decodes to a given result.\<close>

definition stored :: "(json \<Rightarrow> string) \<Rightarrow> ToolCallRequest \<Rightarrow> ToolCallResult \<Rightarrow> db \<Rightarrow> bool" where
  "stored vt call res s \<longleftrightarrow> (\<exists>row st. recorded call row s \<and> status_of (te_status row) = Inr st \<and> st \<in> set TERMINAL \<and>
     result_from_row vt row True = Inr (res\<lparr>tc_replayed := True\<rparr>))"

lemma recorded_cong: "tool_executions s' = tool_executions s \<Longrightarrow> recorded call row s' = recorded call row s"
  by (simp add: recorded_def by_key_def)

lemma stored_cong: "tool_executions s' = tool_executions s \<Longrightarrow> stored vt call res s' = stored vt call res s"
  by (simp add: stored_def recorded_def by_key_def)

lemma result_from_row_replayed:
  "result_from_row vt row b = Inr r \<Longrightarrow> result_from_row vt row True = Inr (r\<lparr>tc_replayed := True\<rparr>)"
  by (auto simp: result_from_row_def bnd_eq_Inr Let_def)

lemma recorded_id:
  assumes "recorded call row s" and "gateway_ok s"
  shows "execution_of (tq_call_id call) s = Some row"
  using assms keyed_row_get[of te_id "tool_executions s" row] row_get_Some(1)[of te_idempotency_key _ "tool_executions s" row]
  by (auto simp: recorded_def by_key_def execution_of_def gateway_ok_def execution_matches_def)

text \<open>Updating the row of the call, keeping its identity, keeps it recorded.\<close>

lemma recorded_update:
  assumes "recorded call row s" and "gateway_ok s" and "tool_executions s' = row_update p f (tool_executions s)"
    and "p row" and "\<And>r. p r \<Longrightarrow> te_id r = tq_call_id call"
    and "execution_matches (f row) call"
  shows "recorded call (f row) s'"
proof -
  have get: "row_get te_idempotency_key (tq_idempotency_key call) (tool_executions s) = Some row"
    using assms(1) by (simp add: recorded_def by_key_def)
  have same: "f r = f row \<and> te_idempotency_key r = tq_idempotency_key call" if "r \<in> set (tool_executions s)" "p r" for r
    using that assms keyed_unique[of te_id "tool_executions s" r row] row_get_Some[OF get]
    by (auto simp: gateway_ok_def recorded_def execution_matches_def)
  have "row_get te_idempotency_key (tq_idempotency_key call) (row_update p f rows) =
      map_option (\<lambda>r. if p r then f r else r) (row_get te_idempotency_key (tq_idempotency_key call) rows)"
    if "set rows \<subseteq> set (tool_executions s)" for rows
    using that
  proof (induction rows)
    case (Cons r rows)
    then show ?case using same[of r] assms(6) by (auto simp: execution_matches_def)
  qed simp
  from this[OF order_refl] have "row_get te_idempotency_key (tq_idempotency_key call) (tool_executions s') = Some (f row)"
    using get assms(4) by (simp add: assms(3))
  then show ?thesis using assms(6) by (simp add: recorded_def by_key_def)
qed

lemma persist_terminal_stores:
  assumes "persist_terminal gw call status out err risk k s = (Inr res, s')" and "status \<in> set TERMINAL"
    and "recorded call row s" and "gateway_ok s"
  shows "stored (gw_value_text gw) call res s'"
proof -
  have id: "execution_of (tq_call_id call) s = Some row" by (rule recorded_id[OF assms(3,4)])
  let ?row = "row\<lparr>te_status := status_value status, te_result := stored_result out err risk k,
      te_completed_at := Some (utc_now s)\<rparr>"
  obtain st where st: "status_of (te_status row) = Inr st"
    using assms(1) id by (auto simp: persist_terminal_def commit_def persist_body_def bnd_eq_Inr split: sum.splits)
  show ?thesis
  proof (cases "st \<in> set TERMINAL")
    case True
    then have s': "s' = s" and res: "result_from_row (gw_value_text gw) row True = Inr res"
      using assms(1) id st by (auto simp: persist_terminal_def commit_def persist_body_def bnd_eq_Inr split: sum.splits)
    show ?thesis unfolding stored_def s' using assms(3) st True result_from_row_replayed[OF res] by blast
  next
    case False
    then have up: "tool_executions s' = row_update (\<lambda>r. te_id r = tq_call_id call) (\<lambda>_. ?row) (tool_executions s)"
      and res: "result_from_row (gw_value_text gw) ?row False = Inr res"
      using assms(1) id st
      by (auto simp: persist_terminal_def commit_def persist_body_def bnd_eq_Inr Let_def dest!: tool_executions_events(3)
          split: sum.splits)
    have "execution_matches row call" using assms(3) by (simp add: recorded_def)
    then have "recorded call ?row s'"
      by (intro recorded_update[OF assms(3,4) up]) (auto simp: execution_matches_def)
    moreover have "status_of (te_status ?row) = Inr status" by simp
    ultimately show ?thesis unfolding stored_def using result_from_row_replayed[OF res] assms(2) by blast
  qed
qed

lemma settled_stores:
  assumes "(Inr res, s') \<in> settled gw call spec risk k s" and "recorded call row s" and "gateway_ok s"
  shows "stored (gw_value_text gw) call res s'"
proof -
  have kept: "s1 = s" if "persist_terminal gw call st out err risk k s = (Inl e, s1)" for st out err e s1
    using that by (auto simp: persist_terminal_def commit_def split: sum.splits prod.splits)
  have fin: "stored (gw_value_text gw) call res s1" if "persist_terminal gw call st out err risk k s = (Inr res, s1)" "st \<in> set TERMINAL"
    for st out err s1 using persist_terminal_stores[OF that assms(2,3)] .
  consider raw where "completed gw call spec raw risk k s = (Inr res, s')" | e where "failed gw call e risk k s = (Inr res, s')"
    | e where "uncertain gw call e risk k s = (Inr res, s')" using assms(1) by (auto simp: settled_def)
  then show ?thesis
  proof cases
    case 1
    then show ?thesis
      by (auto simp: completed_def failed_def TERMINAL_def dest: fin dest!: kept split: sum.splits prod.splits)
  next
    case 2
    then show ?thesis by (auto simp: failed_def TERMINAL_def dest: fin)
  next
    case 3
    then obtain s1 r2 where "persist_terminal gw call ToolExecutionStatus.NEEDS_RECONCILIATION [] (Some (redact_text e)) risk k s = (Inr res, s1)"
      "commit (quarantine_graph call) s1 = (r2, s')"
      by (auto simp: uncertain_def split: sum.splits prod.splits)
    then show ?thesis using fin stored_cong[OF quarantine_graph_executions] by (auto simp: TERMINAL_def)
  qed
qed

lemma claim_call_records:
  assumes "claim_call gw call initial risk s = (Inr (row, owner), s')"
  shows "recorded call row s'"
proof -
  obtain i s1 where ins: "insert_execution call (status_value initial) s = (i, s1)" by fastforce
  have body: "claim_body gw call initial risk s = Inr ((row, owner), s')"
    using assms by (auto simp: claim_call_def commit_def split: sum.splits prod.splits)
  have "by_key (tq_idempotency_key call) s1 = Some row" "execution_matches row call" "tool_executions s' = tool_executions s1"
    using body
    by (auto simp: claim_body_def ins bnd_eq_Inr validate_replay_def dest: tool_executions_events(3) split: option.splits if_splits)
  then show ?thesis by (simp add: recorded_def by_key_def)
qed

lemma claim_call_ok:
  assumes "claim_call gw call initial risk s = (r, s')" and "gateway_ok s"
  shows "gateway_ok s'"
  using assms(1)
proof (cases rule: claim_call_effect)
  case (2 row s1)
  then show ?thesis using taken_cong[OF 2(3), of 0] insert_execution_frame(1)[OF 2(2) assms(2)] by simp
qed (use assms(2) in simp)

lemma insert_execution_recorded: "recorded call row s \<Longrightarrow> insert_execution call st s = (False, s)"
  by (force simp: insert_execution_def recorded_def by_key_def dest!: row_get_SomeD)

lemma approval_gate_records:
  assumes "approval_gate gw call cx approval_id expected s = (Inr owner, s')" and "recorded call row s" and "gateway_ok s"
  shows "\<exists>row'. recorded call row' s'" "gateway_ok s'"
proof -
  obtain approval s1 where req: "request_approval (gw_approvals gw) call cx None s = (Inr approval, s1)"
    and prom: "promote_approved call s1 = (owner, s')"
    using assms(1) by (auto simp: approval_gate_def split: prod.splits sum.splits option.splits if_splits)
  have same: "tool_executions s1 = tool_executions s"
    using request_approval_executions[OF req] insert_execution_recorded[OF assms(2)] by auto
  have ok: "gateway_ok s1" and rec: "recorded call row s1"
    using taken_cong[OF same, of 0] assms(2,3) by (simp_all add: recorded_cong[OF same])
  show "gateway_ok s'" by (rule promote_approved_effect(1)[OF prom ok])
  let ?hit = "\<lambda>r. te_id r = tq_call_id call \<and> te_idempotency_key r = tq_idempotency_key call \<and>
      te_status r = ''WAITING_FOR_APPROVAL''"
  have s': "tool_executions s' = row_update ?hit (\<lambda>r. r\<lparr>te_status := ''CLAIMED''\<rparr>) (tool_executions s1)"
    using prom by (auto simp: promote_approved_def Let_def)
  show "\<exists>row'. recorded call row' s'"
  proof (cases "?hit row")
    case True
    have "recorded call (row\<lparr>te_status := ''CLAIMED''\<rparr>) s'"
      by (rule recorded_update[OF rec ok s' True]) (use rec in \<open>auto simp: recorded_def execution_matches_def\<close>)
    then show ?thesis by blast
  next
    case False
    have "row \<in> set (tool_executions s1)" using rec by (auto simp: recorded_def by_key_def dest: row_get_SomeD)
    then have "\<not> ?hit r" if "r \<in> set (tool_executions s1)" for r
      using False that ok rec keyed_unique[of te_id "tool_executions s1" r row]
      by (auto simp: gateway_ok_def recorded_def execution_matches_def)
    then have "tool_executions s' = tool_executions s1" unfolding s' by (rule row_update_none)
    then show ?thesis using rec recorded_cong by blast
  qed
qed

lemma wait_for_terminal_stores:
  "wait_for_terminal gw call others polls s = (Inr res, s') \<Longrightarrow> stored (gw_value_text gw) call res s'"
proof (induction gw call others polls s rule: wait_for_terminal.induct)
  case (2 gw call others polls s)
  let ?s1 = "others polls s"
  obtain row where row: "by_key (tq_idempotency_key call) ?s1 = Some row"
    using 2(2) by (auto simp: Let_def split: option.splits)
  obtain st where st: "execution_matches row call" "status_of (te_status row) = Inr st"
    using 2(2) by (auto simp: Let_def row validate_replay_def bnd_def guard_def split: sum.splits if_splits)
  show ?case
  proof (cases "st \<in> set TERMINAL")
    case True
    then have "s' = ?s1" "result_from_row (gw_value_text gw) row True = Inr res"
      using 2(2) st by (auto simp: Let_def row validate_replay_def)
    then show ?thesis using row st True result_from_row_replayed unfolding stored_def recorded_def by blast
  next
    case False
    then show ?thesis using 2(1)[OF refl row _ False] 2(2) st by (simp add: Let_def row validate_replay_def)
  qed
qed simp

lemma run_claimed_stores:
  assumes "run_claimed gw call tool cx risk others polls owner (w, s) = (Inr res, w', s')"
    and "recorded call row s" and "gateway_ok s" and "1 \<le> sp_max_attempts (rt_spec tool)"
  shows "stored (gw_value_text gw) call res s'"
proof (cases owner)
  case True
  then have "attempt_loop gw call tool (tq_arguments call) cx risk [1..sp_max_attempts (rt_spec tool)] (w, s) = (Inr res, w', s')"
    using assms(1) by (simp add: run_claimed_def execute_owned_def)
  from attempt_loop_settled[OF this assms(4)] obtain k where "(Inr res, s') \<in> settled gw call (rt_spec tool) risk k s" by blast
  then show ?thesis by (rule settled_stores[OF _ assms(2,3)])
next
  case False
  then show ?thesis using assms(1) by (auto simp: run_claimed_def dest: wait_for_terminal_stores split: prod.splits)
qed

lemma execute_stores:
  assumes "execute gw call cx approval_id expected others polls (w, s) = (Inr res, w', s')"
    and "gateway_ok s" and "registry (gw_registry gw)"
    and admit: "admit_call gw call cx s = Inr (normalized, tool, risk)"
  shows "stored (gw_value_text gw) normalized res s'"
proof -
  let ?initial = "if sp_approval_required (rt_spec tool) then WAITING_FOR_APPROVAL else CLAIMED"
  obtain row owner s1 where claim: "claim_call gw normalized ?initial risk s = (Inr (row, owner), s1)"
    using assms(1) by (auto simp: execute_def admit Let_def split: prod.splits sum.splits)
  obtain st where st: "status_of (te_status row) = Inr st"
    using assms(1) by (auto simp: execute_def admit Let_def claim split: prod.splits sum.splits)
  note rec = claim_call_records[OF claim] and ok = claim_call_ok[OF claim assms(2)]
  have run: "(if st \<in> set TERMINAL then (result_from_row (gw_value_text gw) row True, w, s1)
      else if sp_approval_required (rt_spec tool) then
        (case approval_gate gw normalized cx approval_id expected s1 of
           (Inl e, s2) \<Rightarrow> (Inl e, w, s2)
         | (Inr mine, s2) \<Rightarrow> run_claimed gw normalized tool cx risk others polls mine (w, s2))
      else run_claimed gw normalized tool cx risk others polls owner (w, s1)) = (Inr res, w', s')"
    using assms(1) by (simp add: execute_def admit Let_def claim st)
  have "resolve_tool (tq_tool_name call) (tq_tool_version call) (gw_registry gw) = Inr tool"
    using admit by (auto simp: admit_call_def bnd_eq_Inr Let_def)
  then have max: "1 \<le> sp_max_attempts (rt_spec tool)"
    using resolve_tool_ok(3)[OF assms(3)] ToolSpec_post_init_attempts(1) by blast
  show ?thesis
  proof (cases "st \<in> set TERMINAL")
    case True
    then have "s' = s1" "result_from_row (gw_value_text gw) row True = Inr res"
      using run by simp_all
    then show ?thesis using rec st True result_from_row_replayed unfolding stored_def by blast
  next
    case False
    show ?thesis
    proof (cases "sp_approval_required (rt_spec tool)")
      case True
      then obtain mine s2 where gate: "approval_gate gw normalized cx approval_id expected s1 = (Inr mine, s2)"
        and mine: "run_claimed gw normalized tool cx risk others polls mine (w, s2) = (Inr res, w', s')"
        using run False by (auto split: prod.splits sum.splits)
      obtain row' where "recorded normalized row' s2" "gateway_ok s2" using approval_gate_records[OF gate rec ok] by blast
      then show ?thesis using run_claimed_stores[OF mine _ _ max] by blast
    next
      case no: False
      then have "run_claimed gw normalized tool cx risk others polls owner (w, s1) = (Inr res, w', s')"
        using run False by simp
      then show ?thesis using run_claimed_stores[OF _ rec ok max] by blast
    qed
  qed
qed

lemma execute_replays:
  assumes "stored (gw_value_text gw) normalized res s" and "admit_call gw call cx s = Inr (normalized, tool, risk)"
  shows "execute gw call cx approval_id expected others polls (w, s) = (Inr (res\<lparr>tc_replayed := True\<rparr>), w, s)"
proof -
  obtain row st where row: "recorded normalized row s" "status_of (te_status row) = Inr st" "st \<in> set TERMINAL"
    "result_from_row (gw_value_text gw) row True = Inr (res\<lparr>tc_replayed := True\<rparr>)"
    using assms(1) by (auto simp: stored_def)
  have "claim_call gw normalized initial risk s = (Inr (row, False), s)" for initial
    using row(1) insert_execution_recorded[OF row(1)]
    by (simp add: claim_call_def commit_def claim_body_def recorded_def validate_replay_def)
  then show ?thesis using row by (simp add: execute_def assms(2) Let_def)
qed



subsection \<open>Stored rows decode\<close>

text \<open>
  A row of \<open>tool_executions\<close> is well typed: its status is a \<open>ToolExecutionStatus\<close>, an unfinished call has
  no result and no completion time, a finished one has both, and its result is what \<open>_persist_terminal\<close>
  writes, with an attempt count within the bounds of \<open>ToolCallResult\<close>.
\<close>

definition well_typed_row :: "ToolExecutionRow \<Rightarrow> bool" where
  "well_typed_row row \<longleftrightarrow> (\<exists>st. te_status row = status_value st \<and>
     (if st \<in> set TERMINAL
      then te_completed_at row \<noteq> None \<and>
        (\<exists>out err risk k. te_result row = stored_result out err risk k \<and> 0 \<le> k \<and> k \<le> 20)
      else te_completed_at row = None \<and> te_result row = []))"

text \<open>Claims start unfinished, terminal statuses are persisted, and other code keeps the rows well typed.\<close>

definition typed_transaction :: "transaction \<Rightarrow> bool" where
  "typed_transaction t =
     (case t of Claim _ initial _ \<Rightarrow> initial \<notin> set TERMINAL
      | Persist _ status _ _ _ _ \<Rightarrow> status \<in> set TERMINAL
      | Elsewhere f \<Rightarrow> \<forall>s. list_all well_typed_row (tool_executions s) \<longrightarrow> list_all well_typed_row (tool_executions (f s))
      | _ \<Rightarrow> True)"

lemma risk_of_value [simp]: "risk_of (risk_value r) = Inr r"
  by (cases r) (simp_all add: risk_of_def)

lemma risk_value_Nil [simp]: "risk_value r \<noteq> []"
  by (cases r) simp_all

lemma result_from_stored:
  assumes "te_status row = status_value st" and "te_result row = stored_result out err risk k"
  shows "result_from_row vt row b =
    (if 0 \<le> k \<and> k \<le> 20
     then Inr \<lparr>tc_call_id = te_id row, tc_tool_name = te_tool_name row, tc_tool_version = te_tool_version row,
            tc_status = st, tc_output = out, tc_error = err, tc_risk = risk, tc_attempts = k, tc_replayed = b\<rparr>
     else Inl (ValidationError ''attempts''))"
  by (auto simp: result_from_row_def assms stored_result_def Let_def falsy_def text_of_def result_attempts_def
      optional_text_def split: option.splits)

lemma well_typed_row_decodes:
  assumes "well_typed_row row"
  shows "\<exists>res. result_from_row vt row b = Inr res \<and> tc_call_id res = te_id row \<and> status_value (tc_status res) = te_status row \<and>
    tc_replayed res = b \<and> 0 \<le> tc_attempts res \<and> tc_attempts res \<le> 20"
proof -
  obtain st where st: "te_status row = status_value st" "if st \<in> set TERMINAL
      then te_completed_at row \<noteq> None \<and> (\<exists>out err risk k. te_result row = stored_result out err risk k \<and> 0 \<le> k \<and> k \<le> 20)
      else te_completed_at row = None \<and> te_result row = []" using assms by (auto simp: well_typed_row_def)
  show ?thesis
  proof (cases "st \<in> set TERMINAL")
    case True
    then show ?thesis using st result_from_stored[OF st(1)] by fastforce
  next
    case False
    then have "te_result row = []" using st(2) by simp
    then show ?thesis using st(1) by (simp add: result_from_row_def result_attempts_def risk_of_def)
  qed
qed

lemma insert_execution_typed:
  assumes "list_all well_typed_row (tool_executions s)" and "st \<notin> set TERMINAL"
  shows "list_all well_typed_row (tool_executions (snd (insert_execution call (status_value st) s)))"
  using assms by (auto simp: insert_execution_def new_execution_def well_typed_row_def)

lemma persist_terminal_typed:
  assumes "persist_terminal gw call status out err risk k s = (r, s')" and "status \<in> set TERMINAL"
    and "list_all well_typed_row (tool_executions s)"
  shows "list_all well_typed_row (tool_executions s')"
  using assms(1)
proof (cases rule: persist_terminal_effect)
  case 1
  then show ?thesis using assms(3) by simp
next
  case (2 row)
  let ?row = "row\<lparr>te_status := status_value status, te_result := stored_result out err risk k, te_completed_at := Some (utc_now s)\<rparr>"
  show ?thesis
  proof (cases "0 \<le> k \<and> k \<le> 20")
    case True
    then have "well_typed_row ?row" unfolding well_typed_row_def using assms(2) by (intro exI[of _ status]) auto
    then show ?thesis using assms(3) by (auto simp: 2(3) list_all_iff set_row_update)
  next
    case False
    then have "s' = s" using assms(1) 2(4) result_from_stored[of ?row status out err risk k "gw_value_text gw" False]
      by (auto simp: persist_terminal_def commit_def split: sum.splits prod.splits)
    then show ?thesis using assms(3) by simp
  qed
qed

lemma promote_approved_typed:
  "list_all well_typed_row (tool_executions s) \<Longrightarrow> list_all well_typed_row (tool_executions (snd (promote_approved call s)))"
proof -
  have "well_typed_row (r\<lparr>te_status := ''CLAIMED''\<rparr>)" if r: "well_typed_row r" "te_status r = ''WAITING_FOR_APPROVAL''" for r
  proof -
    obtain st where "te_status r = status_value st" "if st \<in> set TERMINAL then te_completed_at r \<noteq> None
      else te_completed_at r = None \<and> te_result r = []" using r(1) unfolding well_typed_row_def by (metis (full_types))
    then have "te_completed_at r = None \<and> te_result r = []" using r(2) by (cases st) (auto simp: TERMINAL_def)
    then show ?thesis unfolding well_typed_row_def by (intro exI[of _ CLAIMED]) (simp add: TERMINAL_def)
  qed
  then show "list_all well_typed_row (tool_executions s) \<Longrightarrow> list_all well_typed_row (tool_executions (snd (promote_approved call s)))"
    by (auto simp: promote_approved_def Let_def list_all_iff set_row_update)
qed

lemma perform_transaction_typed:
  assumes "list_all well_typed_row (tool_executions s)" and "typed_transaction t"
  shows "list_all well_typed_row (tool_executions (snd (perform_transaction gw t s)))"
proof (cases t)
  case (Claim call initial risk)
  obtain r s' where run: "claim_call gw call initial risk s = (r, s')" by fastforce
  have "snd (perform_transaction gw t s) = s'" by (auto simp: perform_transaction_def Claim run split: sum.splits)
  moreover have "list_all well_typed_row (tool_executions s')"
    using run
  proof (cases rule: claim_call_effect)
    case (2 row s1)
    then show ?thesis using insert_execution_typed[OF assms(1), of initial call] assms(2) by (simp add: typed_transaction_def Claim)
  qed (use assms(1) in simp)
  ultimately show ?thesis by simp
next
  case (Request call cx now)
  obtain r s' where run: "request_approval (gw_approvals gw) call cx now s = (r, s')" by fastforce
  have "list_all well_typed_row (tool_executions (snd (insert_execution call ''WAITING_FOR_APPROVAL'' s)))"
    using insert_execution_typed[OF assms(1), of WAITING_FOR_APPROVAL call] by (simp add: TERMINAL_def)
  then show ?thesis using request_approval_executions[OF run] assms(1) by (auto simp: perform_transaction_def Request run)
next
  case (Decide approval_id approver approved expected now)
  obtain r s' where "decide_approval (gw_approvals gw) approval_id approver approved expected now s = (r, s')" by fastforce
  then show ?thesis using assms(1) by (simp add: perform_transaction_def Decide decide_approval_executions)
next
  case (Promote call)
  then show ?thesis using promote_approved_typed[OF assms(1), of call] by (auto simp: perform_transaction_def split: prod.splits)
next
  case (Persist call status out err risk k)
  obtain r s' where "persist_terminal gw call status out err risk k s = (r, s')" by fastforce
  then show ?thesis using persist_terminal_typed[of gw call status out err risk k s r s'] assms
    by (simp add: perform_transaction_def Persist typed_transaction_def)
next
  case (Quarantine call)
  obtain r s' where "commit (quarantine_graph call) s = (r, s')" by fastforce
  then show ?thesis using assms(1) by (simp add: perform_transaction_def Quarantine quarantine_graph_executions)
next
  case (Elsewhere f)
  then show ?thesis using assms by (simp add: perform_transaction_def typed_transaction_def)
qed

lemma perform_transactions_typed:
  assumes "list_all well_typed_row (tool_executions s)" and "list_all typed_transaction ts"
  shows "list_all well_typed_row (tool_executions (snd (perform_transactions gw ts s)))"
  using assms
proof (induction ts arbitrary: s)
  case (Cons t ts)
  then show ?case using perform_transaction_typed[of s t gw] by (auto split: prod.splits) (metis snd_conv)
qed simp

text \<open>
  Property C32: every stored tool execution can be read back. Whatever transactions have run, each row of
  \<open>tool_executions\<close> is well typed, and \<open>_result_from_row\<close> decodes it without raising, to a result of the
  same call and status whose attempt count is within its field's bounds.
\<close>

theorem stored_executions_decode:
  assumes "list_all well_typed_row (tool_executions s)" and "list_all typed_transaction ts"
    and "perform_transactions gw ts s = (grants, s')" and "row \<in> set (tool_executions s')"
  shows "well_typed_row row \<and> (\<exists>res. result_from_row (gw_value_text gw) row replayed = Inr res \<and>
    tc_call_id res = te_id row \<and> status_value (tc_status res) = te_status row \<and> tc_replayed res = replayed \<and>
    0 \<le> tc_attempts res \<and> tc_attempts res \<le> 20)"
proof -
  have "well_typed_row row" using perform_transactions_typed[OF assms(1,2), of gw] assms(3,4) by (auto simp: list_all_iff)
  then show ?thesis using well_typed_row_decodes by blast
qed

lemma sample_rows:
  "map te_status (tool_executions (snd (perform_transactions (sample_gateway [] :: nat ToolGateway) sample_transactions sample_gateway_db)))
     = [''COMPLETED'']"
  by code_simp

theorem stored_executions_decode_witness:
  "\<exists>grants s' row res. perform_transactions (sample_gateway [] :: nat ToolGateway) sample_transactions sample_gateway_db = (grants, s') \<and>
     tool_executions s' = [row] \<and> result_from_row (\<lambda>_. ''value'') row True = Inr res \<and>
     tc_status res = ToolExecutionStatus.COMPLETED"
proof -
  obtain grants s' where run: "perform_transactions (sample_gateway [] :: nat ToolGateway) sample_transactions sample_gateway_db = (grants, s')"
    by fastforce
  then obtain row where row: "tool_executions s' = [row]" "te_status row = ''COMPLETED''" using sample_rows by auto
  have "list_all typed_transaction sample_transactions" "list_all well_typed_row (tool_executions sample_gateway_db)"
    by (simp_all add: sample_transactions_def typed_transaction_def TERMINAL_def sample_gateway_db_def empty_db_def)
  then obtain res where res: "result_from_row (\<lambda>_. ''value'') row True = Inr res" "status_value (tc_status res) = ''COMPLETED''"
    using stored_executions_decode[OF _ _ run, of row True] row by (auto simp: sample_gateway_def)
  then have "tc_status res = ToolExecutionStatus.COMPLETED" by (cases "tc_status res") auto
  then show ?thesis using run row res by blast
qed

end
