(* ===== verification/Workflow.thy ===== *)
theory Workflow
  imports Risk_Policy Plan_Model
begin

section \<open>Workflow state, task subgraphs and the run graph\<close>

text \<open>
  \<open>src/workflows/state.py\<close>, \<open>task_subgraphs.py\<close> and \<open>feature.py\<close>. The channel reducers, the typed
  states and the node functions are modelled; LangGraph, which calls them, is not part of the repository.
  What it does with them is: it runs nodes along the edges the builders add, it may run a node again
  after a crash as long as the node's update has not been checkpointed, and it merges each update
  into the state with the channels' reducers, in any order for nodes of one step.

  Identifiers are kept as such: the source stores them as text and parses them back. A text such as
  \<open>workflow-node:{run}:{task}:{attempt}:{node}\<close>, which determines its parts, is a value of a
  datatype. Node executors and task runners act on a world of any type.
\<close>

subsection \<open>Reducers\<close>

fun merge_unique :: "'a list \<Rightarrow> 'a list \<Rightarrow> 'a list" where
  "merge_unique result [] = result"
| "merge_unique result (v # vs) = merge_unique (if v \<in> set result then result else result @ [v]) vs"

definition merge_summaries :: "('k \<times> 'v) list \<Rightarrow> ('k \<times> 'v) list \<Rightarrow> ('k \<times> 'v) list" where
  "merge_summaries left right = dict_union left right"

record TaskDispatchResult =
  td_task_id :: uuid
  td_result_id :: uuid
  td_artifact_ids :: "uuid list"
  td_message_ids :: "uuid list"

fun merge_dispatch_loop ::
  "(uuid \<times> TaskDispatchResult) list \<Rightarrow> TaskDispatchResult list \<Rightarrow> (uuid \<times> TaskDispatchResult) list result" where
  "merge_dispatch_loop by_task [] = Inr by_task"
| "merge_dispatch_loop by_task (item # right) =
     (let key = td_task_id item
      in bnd (guard (case map_of by_task key of None \<Rightarrow> True | Some existing \<Rightarrow> existing = item)
                (ValueError ''conflicting replay result for task'')) (\<lambda>_.
         merge_dispatch_loop (dict_set key item by_task) right))"

definition merge_dispatch_results ::
  "TaskDispatchResult list \<Rightarrow> TaskDispatchResult list \<Rightarrow> TaskDispatchResult list result" where
  "merge_dispatch_results left right =
     (let by_task = foldl (\<lambda>d item. dict_set (td_task_id item) item d) [] left
      in bnd (merge_dispatch_loop by_task right) (\<lambda>d. Inr (map snd d)))"

subsection \<open>Task subgraphs\<close>

record TaskWorkflowState =
  tw_trace_id :: string
  tw_run_id :: uuid
  tw_project_id :: uuid
  tw_repository_id :: uuid
  tw_task_id :: uuid
  tw_attempt_id :: uuid
  tw_baseline_commit :: string
  tw_task_type :: TaskType
  tw_goal :: string
  tw_input_refs :: "(string \<times> string) list"
  tw_completed_nodes :: "string list"
  tw_message_ids :: "uuid list"
  tw_artifact_ids :: "uuid list"
  tw_summaries :: "(string \<times> string) list"
  tw_result_id :: "uuid option"

record TaskExecutionInput =
  ti_trace_id :: string
  ti_run_id :: uuid
  ti_project_id :: uuid
  ti_repository_id :: uuid
  ti_task_id :: uuid
  ti_attempt_id :: uuid
  ti_baseline_commit :: string
  ti_task_type :: TaskType
  ti_goal :: string
  ti_input_refs :: "(string \<times> string) list"

definition TaskExecutionInput_fields :: "TaskExecutionInput \<Rightarrow> bool" where
  "TaskExecutionInput_fields i \<longleftrightarrow> text_ok 500 (ti_trace_id i) \<and> is_commit_sha (ti_baseline_commit i) \<and>
     text_ok 20000 (ti_goal i) \<and> int (length (ti_input_refs i)) \<le> 1000"

definition to_state :: "TaskExecutionInput \<Rightarrow> TaskWorkflowState" where
  "to_state i =
     \<lparr>tw_trace_id = ti_trace_id i, tw_run_id = ti_run_id i, tw_project_id = ti_project_id i,
      tw_repository_id = ti_repository_id i, tw_task_id = ti_task_id i, tw_attempt_id = ti_attempt_id i,
      tw_baseline_commit = ti_baseline_commit i, tw_task_type = ti_task_type i, tw_goal = ti_goal i,
      tw_input_refs = ti_input_refs i, tw_completed_nodes = [], tw_message_ids = [], tw_artifact_ids = [],
      tw_summaries = [], tw_result_id = None\<rparr>"

datatype idempotency_key = Node_key uuid uuid uuid string | Stage_key uuid string

record NodeExecutionRequest =
  nq_trace_id :: string
  nq_run_id :: uuid
  nq_project_id :: uuid
  nq_repository_id :: uuid
  nq_task_id :: uuid
  nq_attempt_id :: uuid
  nq_baseline_commit :: string
  nq_task_type :: TaskType
  nq_node_name :: string
  nq_goal :: string
  nq_input_refs :: "(string \<times> string) list"
  nq_prior_summaries :: "(string \<times> string) list"
  nq_prior_message_ids :: "uuid list"
  nq_prior_artifact_ids :: "uuid list"
  nq_idempotency_key :: idempotency_key

definition NodeExecutionRequest_fields :: "NodeExecutionRequest \<Rightarrow> bool" where
  "NodeExecutionRequest_fields q \<longleftrightarrow> text_ok 500 (nq_trace_id q) \<and> is_commit_sha (nq_baseline_commit q) \<and>
     text_ok 100 (nq_node_name q) \<and> text_ok 20000 (nq_goal q) \<and> int (length (nq_input_refs q)) \<le> 1000 \<and>
     int (length (nq_prior_summaries q)) \<le> 100 \<and> int (length (nq_prior_message_ids q)) \<le> 1000 \<and>
     int (length (nq_prior_artifact_ids q)) \<le> 1000"

definition node_request :: "TaskWorkflowState \<Rightarrow> string \<Rightarrow> NodeExecutionRequest result" where
  "node_request state node_name =
     (let q = \<lparr>nq_trace_id = tw_trace_id state, nq_run_id = tw_run_id state, nq_project_id = tw_project_id state,
               nq_repository_id = tw_repository_id state, nq_task_id = tw_task_id state,
               nq_attempt_id = tw_attempt_id state, nq_baseline_commit = tw_baseline_commit state,
               nq_task_type = tw_task_type state, nq_node_name = node_name, nq_goal = tw_goal state,
               nq_input_refs = tw_input_refs state, nq_prior_summaries = tw_summaries state,
               nq_prior_message_ids = tw_message_ids state, nq_prior_artifact_ids = tw_artifact_ids state,
               nq_idempotency_key = Node_key (tw_run_id state) (tw_task_id state) (tw_attempt_id state) node_name\<rparr>
      in bnd (guard (NodeExecutionRequest_fields q) (ValidationError ''NodeExecutionRequest'')) (\<lambda>_. Inr q))"

record NodeExecutionResult =
  nr_message_ids :: "uuid list"
  nr_artifact_ids :: "uuid list"
  nr_result_id :: uuid
  nr_summary :: string

text \<open>The \<open>TaskNodeExecutor\<close> protocol.\<close>

record 'w TaskNodeExecutor =
  nx_cancellation_requested :: "uuid \<Rightarrow> 'w \<Rightarrow> bool \<times> 'w"
  nx_execute :: "NodeExecutionRequest \<Rightarrow> 'w \<Rightarrow> NodeExecutionResult result \<times> 'w"

fun TASK_NODE_SEQUENCES :: "TaskType \<Rightarrow> string list" where
  "TASK_NODE_SEQUENCES RESEARCH = [''recall'', ''investigate'', ''evidence'', ''synthesis'']"
| "TASK_NODE_SEQUENCES IMPLEMENTATION = [''recall'', ''implement'', ''targeted_test'', ''review'']"
| "TASK_NODE_SEQUENCES TEST = [''recall'', ''generate_tests'', ''execute'', ''review'']"
| "TASK_NODE_SEQUENCES REFACTOR = [''recall'', ''establish_invariants'', ''refactor'', ''regression_verify'', ''review'']"
| "TASK_NODE_SEQUENCES DOCUMENTATION = [''recall'', ''draft'', ''validate_examples'', ''review'']"
| "TASK_NODE_SEQUENCES VALIDATION = [''recall'', ''inspect'', ''verify'', ''evidence'']"

record task_update =
  up_completed_nodes :: "string list"
  up_message_ids :: "uuid list"
  up_artifact_ids :: "uuid list"
  up_summaries :: "(string \<times> string) list"
  up_result_id :: uuid

definition execute_node ::
  "string \<Rightarrow> TaskType \<Rightarrow> 'w TaskNodeExecutor \<Rightarrow> TaskWorkflowState \<Rightarrow> 'w \<Rightarrow> task_update result \<times> 'w" where
  "execute_node node_name task_type executor state w =
     (if tw_task_type state \<noteq> task_type then (Inl (ValueError ''task state type cannot run this subgraph''), w)
      else case node_request state node_name of
        Inl e \<Rightarrow> (Inl e, w)
      | Inr request \<Rightarrow>
          (case nx_cancellation_requested executor (nq_task_id request) w of (stop, w1) \<Rightarrow>
           if stop then (Inl (WorkflowCancelled ''before''), w1)
           else case nx_execute executor request w1 of
             (Inl e, w2) \<Rightarrow> (Inl e, w2)
           | (Inr r, w2) \<Rightarrow>
               (case nx_cancellation_requested executor (nq_task_id request) w2 of (stop, w3) \<Rightarrow>
                if stop then (Inl (WorkflowCancelled ''after''), w3)
                else (Inr \<lparr>up_completed_nodes = [node_name], up_message_ids = nr_message_ids r,
                           up_artifact_ids = nr_artifact_ids r, up_summaries = [(node_name, nr_summary r)],
                           up_result_id = nr_result_id r\<rparr>, w3))))"

text \<open>The annotated channels of \<open>TaskWorkflowState\<close>: an update is merged by each channel's reducer.\<close>

definition apply_update :: "TaskWorkflowState \<Rightarrow> task_update \<Rightarrow> TaskWorkflowState" where
  "apply_update state u =
     state\<lparr>tw_completed_nodes := merge_unique (tw_completed_nodes state) (up_completed_nodes u),
           tw_message_ids := merge_unique (tw_message_ids state) (up_message_ids u),
           tw_artifact_ids := merge_unique (tw_artifact_ids state) (up_artifact_ids u),
           tw_summaries := merge_summaries (tw_summaries state) (up_summaries u),
           tw_result_id := Some (up_result_id u)\<rparr>"

text \<open>The edges added by \<open>build_task_subgraph\<close>; None is START and END.\<close>

definition task_edges :: "TaskType \<Rightarrow> (string option \<times> string option) list" where
  "task_edges task_type =
     (let sequence = TASK_NODE_SEQUENCES task_type
      in (None, Some (hd sequence)) # map (\<lambda>(a, b). (Some a, Some b)) (zip sequence (tl sequence)) @
         [(Some (last sequence), None)])"

record TaskGraphResult =
  tg_task_id :: uuid
  tg_attempt_id :: uuid
  tg_task_type :: TaskType
  tg_completed_nodes :: "string list"
  tg_message_ids :: "uuid list"
  tg_artifact_ids :: "uuid list"
  tg_result_id :: uuid
  tg_summaries :: "(string \<times> string) list"

definition task_result_from_state :: "TaskWorkflowState \<Rightarrow> TaskGraphResult result" where
  "task_result_from_state state =
     (case tw_result_id state of
        None \<Rightarrow> Inl KeyError
      | Some r \<Rightarrow> Inr \<lparr>tg_task_id = tw_task_id state, tg_attempt_id = tw_attempt_id state, tg_task_type = tw_task_type state,
          tg_completed_nodes = tw_completed_nodes state, tg_message_ids = tw_message_ids state,
          tg_artifact_ids = tw_artifact_ids state, tg_result_id = r, tg_summaries = tw_summaries state\<rparr>)"

subsection \<open>Waiting for an external event\<close>

datatype WaitKind = TOOL | APPROVAL | UAMS

fun WAIT_GRAPH_STATES :: "WaitKind \<Rightarrow> GraphExecutionState" where
  "WAIT_GRAPH_STATES TOOL = GraphExecutionState.WAITING_FOR_TOOL"
| "WAIT_GRAPH_STATES APPROVAL = GraphExecutionState.WAITING_FOR_APPROVAL"
| "WAIT_GRAPH_STATES UAMS = GraphExecutionState.WAITING_FOR_MEMORY"

text \<open>
  \<open>interrupt\<close> gives the value the graph is resumed with, or suspends the node: None. \<open>json_text\<close> is \<open>str\<close>
  of a JSON value, \<open>uuid_text\<close> that of an identifier.
\<close>

definition member :: "string \<Rightarrow> (string \<times> json) list \<Rightarrow> json" where
  "member key obj = (case map_of obj key of None \<Rightarrow> JNull | Some v \<Rightarrow> v)"

definition await_external ::
  "(json \<Rightarrow> string) \<Rightarrow> (uuid \<Rightarrow> string) \<Rightarrow> uuid \<Rightarrow> json option \<Rightarrow> (string \<times> json) list result" where
  "await_external json_text uuid_text request_id resumed =
     (case resumed of
        None \<Rightarrow> Inl GraphInterrupt
      | Some (JObj obj) \<Rightarrow>
          if json_text (member ''request_id'' obj) \<noteq> uuid_text request_id
          then Inl (ValueError ''workflow resume request_id does not match the interrupt'')
          else if member ''released'' obj \<noteq> JBool True
          then Inl (ValueError ''workflow wait was not explicitly released'')
          else Inr obj
      | Some _ \<Rightarrow> Inl (ValueError ''workflow resume payload must be an object''))"

subsection \<open>The run graph\<close>

record AdmittedTask =
  at_task_id :: uuid
  at_task_type :: TaskType
  at_dependencies :: "uuid list"

record SchedulerDispatchBatch =
  sb_run_id :: uuid
  sb_project_id :: uuid
  sb_repository_id :: uuid
  sb_baseline_commit :: string
  sb_admitted_tasks :: "AdmittedTask list"
  sb_completed_task_ids :: "uuid list"
  sb_scheduler_parallel_limit :: int

definition SchedulerDispatchBatch_fields :: "SchedulerDispatchBatch \<Rightarrow> bool" where
  "SchedulerDispatchBatch_fields b \<longleftrightarrow> is_commit_sha (sb_baseline_commit b) \<and> int (length (sb_admitted_tasks b)) \<le> 256 \<and>
     int (length (sb_completed_task_ids b)) \<le> 500 \<and> 1 \<le> sb_scheduler_parallel_limit b \<and> sb_scheduler_parallel_limit b \<le> 256"

fun dependencies_completed :: "uuid set \<Rightarrow> AdmittedTask list \<Rightarrow> unit result" where
  "dependencies_completed finished [] = Inr ()"
| "dependencies_completed finished (task # tasks) =
     (if set (at_dependencies task) - finished \<noteq> {}
      then Inl (ValueError ''scheduler admitted task before dependencies completed'')
      else dependencies_completed finished tasks)"

definition scheduler_admission_is_self_consistent :: "SchedulerDispatchBatch \<Rightarrow> SchedulerDispatchBatch result" where
  "scheduler_admission_is_self_consistent b =
     (let task_ids = map at_task_id (sb_admitted_tasks b)
      in bnd (guard (length task_ids = card (set task_ids)) (ValueError ''scheduler admission contains duplicate tasks'')) (\<lambda>_.
         bnd (guard (int (length task_ids) \<le> sb_scheduler_parallel_limit b)
                (ValueError ''scheduler admission exceeds its reserved parallel capacity'')) (\<lambda>_.
         bnd (dependencies_completed (set (sb_completed_task_ids b)) (sb_admitted_tasks b)) (\<lambda>_. Inr b))))"

definition SchedulerDispatchBatch_model :: "SchedulerDispatchBatch \<Rightarrow> SchedulerDispatchBatch result" where
  "SchedulerDispatchBatch_model b =
     (if \<not> SchedulerDispatchBatch_fields b then Inl (ValidationError ''SchedulerDispatchBatch'')
      else case scheduler_admission_is_self_consistent b of
             Inl _ \<Rightarrow> Inl (ValidationError ''SchedulerDispatchBatch'') | Inr b' \<Rightarrow> Inr b')"

record RunWorkflowState =
  rw_trace_id :: string
  rw_run_id :: uuid
  rw_project_id :: uuid
  rw_repository_id :: uuid
  rw_baseline_commit :: string
  rw_goal :: string
  rw_scheduler_parallel_limit :: int
  rw_completed_task_ids :: "uuid list"
  rw_completed_stages :: "string list"
  rw_message_ids :: "uuid list"
  rw_artifact_ids :: "uuid list"
  rw_stage_summaries :: "(string \<times> string) list"
  rw_admitted_tasks :: "AdmittedTask list"
  rw_task_results :: "TaskDispatchResult list"
  rw_ordered_task_ids :: "uuid list"
  rw_approval_request_id :: "uuid option"
  rw_approval_decision :: "(string \<times> json) list option"
  rw_completion_state :: "string option"

record RunWorkflowInput =
  ri_trace_id :: string
  ri_run_id :: uuid
  ri_project_id :: uuid
  ri_repository_id :: uuid
  ri_baseline_commit :: string
  ri_goal :: string
  ri_scheduler_parallel_limit :: int
  ri_completed_task_ids :: "uuid list"

definition RunWorkflowInput_fields :: "RunWorkflowInput \<Rightarrow> bool" where
  "RunWorkflowInput_fields i \<longleftrightarrow> text_ok 500 (ri_trace_id i) \<and> is_commit_sha (ri_baseline_commit i) \<and>
     text_ok 20000 (ri_goal i) \<and> 1 \<le> ri_scheduler_parallel_limit i \<and> ri_scheduler_parallel_limit i \<le> 256 \<and>
     int (length (ri_completed_task_ids i)) \<le> 500"

definition run_to_state :: "RunWorkflowInput \<Rightarrow> RunWorkflowState" where
  "run_to_state i =
     \<lparr>rw_trace_id = ri_trace_id i, rw_run_id = ri_run_id i, rw_project_id = ri_project_id i,
      rw_repository_id = ri_repository_id i, rw_baseline_commit = ri_baseline_commit i, rw_goal = ri_goal i,
      rw_scheduler_parallel_limit = ri_scheduler_parallel_limit i, rw_completed_task_ids = ri_completed_task_ids i,
      rw_completed_stages = [], rw_message_ids = [], rw_artifact_ids = [], rw_stage_summaries = [],
      rw_admitted_tasks = [], rw_task_results = [], rw_ordered_task_ids = [], rw_approval_request_id = None,
      rw_approval_decision = None, rw_completion_state = None\<rparr>"

record RunStageRequest =
  rq_trace_id :: string
  rq_run_id :: uuid
  rq_project_id :: uuid
  rq_repository_id :: uuid
  rq_baseline_commit :: string
  rq_goal :: string
  rq_stage :: string
  rq_completed_task_ids :: "uuid list"
  rq_message_ids :: "uuid list"
  rq_artifact_ids :: "uuid list"
  rq_idempotency_key :: idempotency_key

definition RunStageRequest_fields :: "RunStageRequest \<Rightarrow> bool" where
  "RunStageRequest_fields q \<longleftrightarrow> text_ok 500 (rq_trace_id q) \<and> is_commit_sha (rq_baseline_commit q) \<and>
     text_ok 20000 (rq_goal q) \<and> text_ok 100 (rq_stage q) \<and> int (length (rq_completed_task_ids q)) \<le> 500 \<and>
     int (length (rq_message_ids q)) \<le> 1000 \<and> int (length (rq_artifact_ids q)) \<le> 1000"

definition stage_request :: "RunWorkflowState \<Rightarrow> string \<Rightarrow> RunStageRequest result" where
  "stage_request state stage =
     (let q = \<lparr>rq_trace_id = rw_trace_id state, rq_run_id = rw_run_id state, rq_project_id = rw_project_id state,
               rq_repository_id = rw_repository_id state, rq_baseline_commit = rw_baseline_commit state,
               rq_goal = rw_goal state, rq_stage = stage, rq_completed_task_ids = rw_completed_task_ids state,
               rq_message_ids = rw_message_ids state, rq_artifact_ids = rw_artifact_ids state,
               rq_idempotency_key = Stage_key (rw_run_id state) stage\<rparr>
      in bnd (guard (RunStageRequest_fields q) (ValidationError ''RunStageRequest'')) (\<lambda>_. Inr q))"

record RunStageResult =
  rr_summary :: string
  rr_message_ids :: "uuid list"
  rr_artifact_ids :: "uuid list"
  rr_admitted_tasks :: "AdmittedTask list"
  rr_approval_request_id :: "uuid option"

record 'w RunStageExecutor =
  rx_cancellation_requested :: "uuid \<Rightarrow> 'w \<Rightarrow> bool \<times> 'w"
  rx_execute :: "RunStageRequest \<Rightarrow> 'w \<Rightarrow> RunStageResult result \<times> 'w"

text \<open>The update of a stage: a channel that is not in it is None.\<close>

record run_update =
  ru_completed_stages :: "string list"
  ru_message_ids :: "uuid list"
  ru_artifact_ids :: "uuid list"
  ru_stage_summaries :: "(string \<times> string) list"
  ru_admitted_tasks :: "AdmittedTask list option"
  ru_approval_request_id :: "uuid option"
  ru_completion_state :: "string option"

definition stage_update :: "string \<Rightarrow> RunWorkflowState \<Rightarrow> RunStageRequest \<Rightarrow> RunStageResult \<Rightarrow> run_update result" where
  "stage_update stage state request r =
     (let update = \<lparr>ru_completed_stages = [stage], ru_message_ids = rr_message_ids r, ru_artifact_ids = rr_artifact_ids r,
                    ru_stage_summaries = [(stage, rr_summary r)], ru_admitted_tasks = None,
                    ru_approval_request_id = rr_approval_request_id r,
                    ru_completion_state = (if stage = ''complete'' then Some ''COMPLETED'' else None)\<rparr>
      in if stage = ''admit''
         then bnd (SchedulerDispatchBatch_model
                \<lparr>sb_run_id = rq_run_id request, sb_project_id = rq_project_id request,
                 sb_repository_id = rq_repository_id request, sb_baseline_commit = rq_baseline_commit request,
                 sb_admitted_tasks = rr_admitted_tasks r, sb_completed_task_ids = rq_completed_task_ids request,
                 sb_scheduler_parallel_limit = rw_scheduler_parallel_limit state\<rparr>) (\<lambda>batch.
              Inr (update\<lparr>ru_admitted_tasks := Some (sb_admitted_tasks batch)\<rparr>))
         else Inr update)"

definition execute_stage ::
  "string \<Rightarrow> 'w RunStageExecutor \<Rightarrow> RunWorkflowState \<Rightarrow> 'w \<Rightarrow> run_update result \<times> 'w" where
  "execute_stage stage executor state w =
     (case stage_request state stage of
        Inl e \<Rightarrow> (Inl e, w)
      | Inr request \<Rightarrow>
          (case rx_cancellation_requested executor (rq_run_id request) w of (stop, w1) \<Rightarrow>
           if stop then (Inl (WorkflowCancelled ''before''), w1)
           else case rx_execute executor request w1 of
             (Inl e, w2) \<Rightarrow> (Inl e, w2)
           | (Inr r, w2) \<Rightarrow>
               (case rx_cancellation_requested executor (rq_run_id request) w2 of (stop, w3) \<Rightarrow>
                if stop then (Inl (WorkflowCancelled ''after''), w3)
                else (stage_update stage state request r, w3))))"

definition apply_run_update :: "RunWorkflowState \<Rightarrow> run_update \<Rightarrow> RunWorkflowState" where
  "apply_run_update state u =
     state\<lparr>rw_completed_stages := merge_unique (rw_completed_stages state) (ru_completed_stages u),
           rw_message_ids := merge_unique (rw_message_ids state) (ru_message_ids u),
           rw_artifact_ids := merge_unique (rw_artifact_ids state) (ru_artifact_ids u),
           rw_stage_summaries := merge_summaries (rw_stage_summaries state) (ru_stage_summaries u),
           rw_admitted_tasks := (case ru_admitted_tasks u of None \<Rightarrow> rw_admitted_tasks state | Some ts \<Rightarrow> ts),
           rw_approval_request_id :=
             (case ru_approval_request_id u of None \<Rightarrow> rw_approval_request_id state | Some a \<Rightarrow> Some a),
           rw_completion_state :=
             (case ru_completion_state u of None \<Rightarrow> rw_completion_state state | Some c \<Rightarrow> Some c)\<rparr>"

text \<open>The tasks \<open>admitted_sends\<close> fans out; with none the graph goes on to \<open>fan_in\<close> at once.\<close>

definition admitted_sends :: "RunWorkflowState \<Rightarrow> AdmittedTask list" where
  "admitted_sends state = rw_admitted_tasks state"

definition fan_in :: "RunWorkflowState \<Rightarrow> RunWorkflowState" where
  "fan_in state = state\<lparr>rw_ordered_task_ids := map td_task_id (sort_key td_task_id (rw_task_results state))\<rparr>"

definition approval_node ::
  "(json \<Rightarrow> string) \<Rightarrow> (uuid \<Rightarrow> string) \<Rightarrow> json option \<Rightarrow> RunWorkflowState \<Rightarrow> RunWorkflowState result" where
  "approval_node json_text uuid_text resumed state =
     (case rw_approval_request_id state of
        None \<Rightarrow> Inr (state\<lparr>rw_approval_decision := Some [(''required'', JBool False)]\<rparr>)
      | Some request_id \<Rightarrow>
          (case resumed of
             None \<Rightarrow> Inl GraphInterrupt
           | Some (JObj decision) \<Rightarrow>
               if json_text (member ''request_id'' decision) \<noteq> uuid_text request_id
               then Inl (ValueError ''approval decision does not match the exact request'')
               else if member ''approved'' decision \<noteq> JBool True
               then Inl (PermissionError ''run approval was not granted'')
               else Inr (state\<lparr>rw_approval_decision := Some decision\<rparr>)
           | Some _ \<Rightarrow> Inl (ValueError ''approval resume payload must be an object'')))"

definition RUN_STAGE_SEQUENCE :: "string list" where
  "RUN_STAGE_SEQUENCE = [''intake'', ''recall'', ''analyze'', ''architect'', ''validate'', ''admit'', ''verify'', ''repair'',
     ''review'', ''complete'']"

text \<open>The edges of \<open>build_run_graph\<close>; the conditional edges of \<open>send\<close> lead to both its targets.\<close>

definition run_edges :: "(string option \<times> string option) list" where
  "run_edges =
     (None, Some ''intake'') #
     map (\<lambda>(a, b). (Some a, Some b))
       (zip [''intake'', ''recall'', ''analyze'', ''architect'', ''validate'']
            [''recall'', ''analyze'', ''architect'', ''validate'', ''admit'']) @
     [(Some ''admit'', Some ''send''), (Some ''send'', Some ''execute_task''), (Some ''send'', Some ''fan_in''),
      (Some ''execute_task'', Some ''fan_in''), (Some ''fan_in'', Some ''verify''), (Some ''verify'', Some ''repair''),
      (Some ''repair'', Some ''review''), (Some ''review'', Some ''approval''), (Some ''approval'', Some ''complete''),
      (Some ''complete'', None)]"

subsection \<open>The reducers are replay-safe\<close>

lemma merge_unique_uniq: "merge_unique result vs = uniq_onto result vs"
  by (induction result vs rule: merge_unique.induct) auto

interpretation unique_channel: replay_reducer merge_unique
  by unfold_locales (simp add: merge_unique_uniq uniq_onto_subset)

interpretation summary_channel: replay_reducer merge_summaries
  by unfold_locales (simp add: merge_summaries_def dict_union_replay)

interpretation task_state: replay_reducer apply_update
  by unfold_locales (simp add: apply_update_def unique_channel.replay summary_channel.replay)

interpretation run_state: replay_reducer apply_run_update
  by unfold_locales (simp add: apply_run_update_def unique_channel.replay summary_channel.replay split: option.splits)

text \<open>The dict of results per task: every value is stored under its own task.\<close>

definition dispatch_dict :: "(uuid \<times> TaskDispatchResult) list \<Rightarrow> bool" where
  "dispatch_dict d \<longleftrightarrow> distinct (map fst d) \<and> (\<forall>(k, item) \<in> set d. k = td_task_id item)"

lemma dispatch_dict_set: "dispatch_dict d \<Longrightarrow> dispatch_dict (dict_set (td_task_id item) item d)"
  using uniq_onto_distinct[of "map fst d" "[td_task_id item]"]
  by (auto simp: dispatch_dict_def keys_dict_set) (auto simp: dict_set_def split: if_splits)

lemma dispatch_dict_fold: "dispatch_dict d \<Longrightarrow> dispatch_dict (foldl (\<lambda>d item. dict_set (td_task_id item) item d) d items)"
  by (induction items arbitrary: d) (simp_all add: dispatch_dict_set)

lemma dispatch_dict_values:
  assumes "dispatch_dict d"
  shows "map td_task_id (map snd d) = map fst d" "foldl (\<lambda>d item. dict_set (td_task_id item) item d) [] (map snd d) = d"
proof -
  show keys: "map td_task_id (map snd d) = map fst d" using assms by (auto simp: dispatch_dict_def)
  have "foldl (\<lambda>d item. dict_set (td_task_id item) item d) acc (map snd d) = acc @ d"
    if "distinct (map fst (acc @ d))" "dispatch_dict d" for acc
    using that
  proof (induction d arbitrary: acc)
    case (Cons e d)
    obtain k item where e: "e = (k, item)" by fastforce
    have "k = td_task_id item" "dispatch_dict d" using Cons.prems(2) by (auto simp: e dispatch_dict_def)
    then show ?case using Cons.IH[of "acc @ [e]"] Cons.prems(1) by (auto simp: e dict_set_def)
  qed simp
  from this[of "[]"] show "foldl (\<lambda>d item. dict_set (td_task_id item) item d) [] (map snd d) = d"
    using assms by (simp add: dispatch_dict_def)
qed

lemma merge_dispatch_loop_ok:
  assumes "merge_dispatch_loop d items = Inr d'" and "dispatch_dict d"
  shows "dispatch_dict d'" "map_of d \<subseteq>\<^sub>m map_of d'" "\<And>i. i \<in> set items \<Longrightarrow> map_of d' (td_task_id i) = Some i"
    "fst ` set d' = fst ` set d \<union> td_task_id ` set items"
proof -
  have "dispatch_dict d' \<and> map_of d \<subseteq>\<^sub>m map_of d' \<and> (\<forall>i \<in> set items. map_of d' (td_task_id i) = Some i) \<and>
      fst ` set d' = fst ` set d \<union> td_task_id ` set items"
    using assms
  proof (induction d items rule: merge_dispatch_loop.induct)
    case (2 by_task item right)
    let ?d = "dict_set (td_task_id item) item by_task"
    have free: "case map_of by_task (td_task_id item) of None \<Rightarrow> True | Some existing \<Rightarrow> existing = item"
      and loop: "merge_dispatch_loop ?d right = Inr d'" using 2(2) by (auto simp: bnd_eq_Inr Let_def)
    have ih: "dispatch_dict d' \<and> map_of ?d \<subseteq>\<^sub>m map_of d' \<and> (\<forall>i \<in> set right. map_of d' (td_task_id i) = Some i) \<and>
      fst ` set d' = fst ` set ?d \<union> td_task_id ` set right"
      using 2(1)[OF refl loop dispatch_dict_set[OF 2(3)]] .
    have "map_of by_task \<subseteq>\<^sub>m map_of ?d" using free by (auto simp: map_le_def split: option.splits)
    moreover have "map_of d' (td_task_id item) = Some item" using ih by (auto simp: map_le_def dom_def)
    ultimately show ?case using ih by (auto intro: map_le_trans)
  qed (auto)
  then show "dispatch_dict d'" "map_of d \<subseteq>\<^sub>m map_of d'" "\<And>i. i \<in> set items \<Longrightarrow> map_of d' (td_task_id i) = Some i"
    "fst ` set d' = fst ` set d \<union> td_task_id ` set items" by auto
qed

lemma dict_set_same: "distinct (map fst d) \<Longrightarrow> map_of d k = Some v \<Longrightarrow> dict_set k v d = d"
proof -
  assume "distinct (map fst d)" "map_of d k = Some v"
  moreover have "k \<in> fst ` set d" using map_of_SomeD[OF \<open>map_of d k = Some v\<close>] by (rule image_eqI[rotated]) simp
  ultimately show "dict_set k v d = d" unfolding dict_set_def by (auto intro!: map_idI dest: eq_key_imp_eq_value)
qed

lemma merge_dispatch_loop_known:
  "distinct (map fst d) \<Longrightarrow> \<forall>i \<in> set items. map_of d (td_task_id i) = Some i \<Longrightarrow> merge_dispatch_loop d items = Inr d"
  by (induction items) (auto simp: Let_def dict_set_same)

text \<open>On results: a conflict stays a conflict, and a merged update is absorbed.\<close>

interpretation dispatch_channel: replay_reducer "\<lambda>left right. bnd left (\<lambda>l. merge_dispatch_results l right)"
proof unfold_locales
  fix left :: "TaskDispatchResult list result" and right
  have "merge_dispatch_results l' right = Inr l'" if m: "merge_dispatch_results l right = Inr l'" for l l'
  proof -
    let ?d = "foldl (\<lambda>d item. dict_set (td_task_id item) item d) [] l"
    obtain d where d: "merge_dispatch_loop ?d right = Inr d" "l' = map snd d"
      using m by (auto simp: merge_dispatch_results_def Let_def bnd_eq_Inr)
    have "dispatch_dict ?d" by (rule dispatch_dict_fold) (simp add: dispatch_dict_def)
    note ok = merge_dispatch_loop_ok[OF d(1) this]
    then show ?thesis
      using merge_dispatch_loop_known[of d right] dispatch_dict_values(2)[OF ok(1)]
      by (auto simp: merge_dispatch_results_def d(2) dispatch_dict_def)
  qed
  then show "bnd (bnd left (\<lambda>l. merge_dispatch_results l right)) (\<lambda>l. merge_dispatch_results l right) =
      bnd left (\<lambda>l. merge_dispatch_results l right)"
    by (cases left) (auto simp: bnd_def split: sum.splits)
qed

subsection \<open>Runs of a task subgraph\<close>

text \<open>
  A configuration is the last node whose update is in the checkpoint (None: the start), the state, the
  last update and the world. The engine runs a successor of the node and checkpoints its update; it may
  also lose a run before the checkpoint is written, the node having raised or not, and it may merge the
  last update again when it resumes.
\<close>

type_synonym 'w task_config = "string option \<times> TaskWorkflowState \<times> task_update option \<times> 'w"

inductive task_step :: "TaskType \<Rightarrow> 'w TaskNodeExecutor \<Rightarrow> 'w task_config \<Rightarrow> 'w task_config \<Rightarrow> bool" for task_type executor where
  checkpointed: "(pos, Some n) \<in> set (task_edges task_type) \<Longrightarrow> execute_node n task_type executor state w = (Inr u, w') \<Longrightarrow>
    task_step task_type executor (pos, state, recent, w) (Some n, apply_update state u, Some u, w')"
| lost: "(pos, Some n) \<in> set (task_edges task_type) \<Longrightarrow> execute_node n task_type executor state w = (r, w') \<Longrightarrow>
    task_step task_type executor (pos, state, recent, w) (pos, state, recent, w')"
| merged_again: "task_step task_type executor (pos, state, Some u, w) (pos, apply_update state u, Some u, w)"

text \<open>An executor that also keeps the idempotency keys of the requests it gets, in the order of arrival.\<close>

definition logged :: "'w TaskNodeExecutor \<Rightarrow> (idempotency_key list \<times> 'w) TaskNodeExecutor" where
  "logged executor =
     \<lparr>nx_cancellation_requested = (\<lambda>t (keys, w). case nx_cancellation_requested executor t w of (b, w') \<Rightarrow> (b, keys, w')),
      nx_execute = (\<lambda>q (keys, w). case nx_execute executor q w of (r, w') \<Rightarrow> (r, keys @ [nq_idempotency_key q], w'))\<rparr>"

definition node_keys :: "TaskExecutionInput \<Rightarrow> string set \<Rightarrow> idempotency_key set" where
  "node_keys i nodes = Node_key (ti_run_id i) (ti_task_id i) (ti_attempt_id i) ` nodes"

text \<open>The nodes up to and including the last checkpointed one.\<close>

definition nodes_done :: "TaskType \<Rightarrow> string option \<Rightarrow> string list" where
  "nodes_done task_type pos =
     (case pos of None \<Rightarrow> [] | Some n \<Rightarrow> takeWhile (\<lambda>m. m \<noteq> n) (TASK_NODE_SEQUENCES task_type) @ [n])"

lemma task_edges_checked:
  "list_all (\<lambda>(pos, n). case n of
       None \<Rightarrow> nodes_done task_type pos = TASK_NODE_SEQUENCES task_type \<and> pos \<noteq> None
     | Some n \<Rightarrow> nodes_done task_type (Some n) = nodes_done task_type pos @ [n] \<and>
         n \<in> set (TASK_NODE_SEQUENCES task_type) \<and> n \<notin> set (nodes_done task_type pos)) (task_edges task_type)"
  by (induction task_type; code_simp)

lemma task_edges_next:
  "(pos, Some n) \<in> set (task_edges task_type) \<Longrightarrow> nodes_done task_type (Some n) = nodes_done task_type pos @ [n]"
  "(pos, Some n) \<in> set (task_edges task_type) \<Longrightarrow> n \<in> set (TASK_NODE_SEQUENCES task_type)"
  "(pos, Some n) \<in> set (task_edges task_type) \<Longrightarrow> n \<notin> set (nodes_done task_type pos)"
  "(pos, None) \<in> set (task_edges task_type) \<Longrightarrow> nodes_done task_type pos = TASK_NODE_SEQUENCES task_type \<and> pos \<noteq> None"
  using task_edges_checked[of task_type] by (auto simp: list_all_iff)

definition task_inv :: "TaskExecutionInput \<Rightarrow> (idempotency_key list \<times> 'w) task_config \<Rightarrow> bool" where
  "task_inv i = (\<lambda>(pos, state, recent, keys, w).
     tw_completed_nodes state = nodes_done (ti_task_type i) pos \<and>
     map fst (tw_summaries state) = nodes_done (ti_task_type i) pos \<and>
     distinct (tw_message_ids state) \<and> distinct (tw_artifact_ids state) \<and>
     (tw_result_id state = None \<longleftrightarrow> pos = None) \<and>
     tw_run_id state = ti_run_id i \<and> tw_task_id state = ti_task_id i \<and> tw_attempt_id state = ti_attempt_id i \<and>
     tw_task_type state = ti_task_type i \<and>
     set keys \<subseteq> node_keys i (set (TASK_NODE_SEQUENCES (ti_task_type i))) \<and>
     node_keys i (set (nodes_done (ti_task_type i) pos)) \<subseteq> set keys \<and>
     (\<forall>u. recent = Some u \<longrightarrow> apply_update state u = state))"

lemma execute_node_logged:
  assumes "execute_node n tt (logged executor) state (keys, w) = (r, keys', w')"
  shows "keys' = keys \<or> keys' = keys @ [Node_key (tw_run_id state) (tw_task_id state) (tw_attempt_id state) n]"
    "r = Inr u \<Longrightarrow> keys' = keys @ [Node_key (tw_run_id state) (tw_task_id state) (tw_attempt_id state) n] \<and>
       up_completed_nodes u = [n] \<and> (\<exists>summary. up_summaries u = [(n, summary)])"
  using assms by (auto simp: execute_node_def logged_def node_request_def Let_def bnd_def guard_def
      split: prod.splits sum.splits if_splits)

lemma task_inv_step:
  assumes "task_step (ti_task_type i) (logged executor) c c'" and "task_inv i c"
  shows "task_inv i c'"
  using assms
proof (cases rule: task_step.cases)
  case (checkpointed pos n state w u w' recent)
  obtain keys v keys' v' where w: "w = (keys, v)" "w' = (keys', v')" by fastforce
  note run = execute_node_logged[OF checkpointed(4)[unfolded w]] and edge = task_edges_next(1-3)[OF checkpointed(3)]
  obtain summary where u: "up_completed_nodes u = [n]" "up_summaries u = [(n, summary)]"
    and keys': "keys' = keys @ [Node_key (tw_run_id state) (tw_task_id state) (tw_attempt_id state) n]"
    using run(2)[OF refl] by blast
  have inv: "task_inv i (pos, state, recent, keys, v)" using assms(2) by (simp add: checkpointed(1) w)
  let ?st = "apply_update state u"
  have "tw_completed_nodes ?st = nodes_done (ti_task_type i) (Some n)" "map fst (tw_summaries ?st) = nodes_done (ti_task_type i) (Some n)"
    "distinct (tw_message_ids ?st)" "distinct (tw_artifact_ids ?st)" "tw_result_id ?st \<noteq> None"
    "tw_run_id ?st = ti_run_id i" "tw_task_id ?st = ti_task_id i" "tw_attempt_id ?st = ti_attempt_id i" "tw_task_type ?st = ti_task_type i"
    using inv edge u by (simp_all add: task_inv_def apply_update_def merge_unique_uniq merge_summaries_def keys_dict_union uniq_onto_distinct)
  moreover have "set keys' \<subseteq> node_keys i (set (TASK_NODE_SEQUENCES (ti_task_type i)))"
    "node_keys i (set (nodes_done (ti_task_type i) (Some n))) \<subseteq> set keys'"
    using inv edge keys' by (auto simp: task_inv_def node_keys_def)
  ultimately show ?thesis
    unfolding checkpointed(2) w task_inv_def by (simp add: task_state.replay)
next
  case (lost pos n state w r w' recent)
  obtain keys v keys' v' where w: "w = (keys, v)" "w' = (keys', v')" by fastforce
  note run = execute_node_logged(1)[OF lost(4)[unfolded w]] and edge = task_edges_next(2)[OF lost(3)]
  show ?thesis using assms(2) run edge by (auto simp: lost(1,2) w task_inv_def node_keys_def)
next
  case (merged_again pos state u w)
  then have "apply_update state u = state" using assms(2) by (auto simp: task_inv_def)
  then show ?thesis using assms(2) merged_again by simp
qed

interpretation task_runs: step_invariant "task_step (ti_task_type i) (logged executor)" "task_inv i" for i executor
  by unfold_locales (rule task_inv_step)

text \<open>
  Property C33: a task subgraph finishes with exactly its node sequence, whatever crashes. Along every run
  from the initial state in which the engine loses runs before a checkpoint and merges updates again, the
  executor only gets requests under the idempotency keys of the nodes of this task attempt; and when the
  end is reached each node of the sequence has completed once, in order, with one summary, under a
  requested key, and the result of the graph can be built, with no message or artifact twice.
\<close>

theorem task_graph_completes_in_order:
  assumes "reaches (task_step (ti_task_type i) (logged executor)) (None, to_state i, None, [], w) (pos, state, recent, keys, w')"
  shows "set keys \<subseteq> node_keys i (set (TASK_NODE_SEQUENCES (ti_task_type i))) \<and>
    ((pos, None) \<in> set (task_edges (ti_task_type i)) \<longrightarrow>
      set keys = node_keys i (set (TASK_NODE_SEQUENCES (ti_task_type i))) \<and>
      (\<exists>res. task_result_from_state state = Inr res \<and> tg_task_id res = ti_task_id i \<and> tg_attempt_id res = ti_attempt_id i \<and>
         tg_completed_nodes res = TASK_NODE_SEQUENCES (ti_task_type i) \<and>
         map fst (tg_summaries res) = TASK_NODE_SEQUENCES (ti_task_type i) \<and>
         distinct (tg_message_ids res) \<and> distinct (tg_artifact_ids res)))"
proof -
  have "task_inv i (None, to_state i, None, [], w)" by (simp add: task_inv_def to_state_def nodes_done_def node_keys_def)
  from task_runs.reaches_keeps[OF assms this] have inv: "task_inv i (pos, state, recent, keys, w')" .
  show ?thesis using inv task_edges_next(4)[of pos "ti_task_type i"] by (auto simp: task_inv_def task_result_from_state_def)
qed

text \<open>A run without crashes, to compute examples.\<close>

fun drive_task :: "'w TaskNodeExecutor \<Rightarrow> TaskType \<Rightarrow> string list \<Rightarrow> 'w task_config \<Rightarrow> 'w task_config option" where
  "drive_task executor task_type [] c = Some c"
| "drive_task executor task_type (n # ns) (pos, state, recent, w) =
     (if (pos, Some n) \<notin> set (task_edges task_type) then None
      else case execute_node n task_type executor state w of
             (Inl e, w') \<Rightarrow> None
           | (Inr u, w') \<Rightarrow> drive_task executor task_type ns (Some n, apply_update state u, Some u, w'))"

lemma drive_task_reaches:
  "drive_task executor task_type ns c = Some c' \<Longrightarrow> reaches (task_step task_type executor) c0 c \<Longrightarrow>
    reaches (task_step task_type executor) c0 c'"
  by (induction executor task_type ns c rule: drive_task.induct)
    (auto split: if_splits prod.splits sum.splits intro: reaches.further task_step.checkpointed)

definition sample_input :: TaskExecutionInput where
  "sample_input = \<lparr>ti_trace_id = ''trace'', ti_run_id = 9, ti_project_id = 3, ti_repository_id = 2, ti_task_id = 7,
     ti_attempt_id = 11, ti_baseline_commit = replicate 40 CHR ''a'', ti_task_type = TEST, ti_goal = ''goal'', ti_input_refs = []\<rparr>"

definition sample_node_executor :: "nat TaskNodeExecutor" where
  "sample_node_executor = \<lparr>nx_cancellation_requested = (\<lambda>t n. (False, n)),
     nx_execute = (\<lambda>q n. (Inr \<lparr>nr_message_ids = [n, 4], nr_artifact_ids = [n], nr_result_id = n, nr_summary = nq_node_name q\<rparr>, Suc n))\<rparr>"

definition sample_task_run :: "(idempotency_key list \<times> nat) task_config option" where
  "sample_task_run = drive_task (logged sample_node_executor) TEST (TASK_NODE_SEQUENCES TEST) (None, to_state sample_input, None, [], 0)"

lemma sample_task_run_ends: "map_option (\<lambda>(pos, state, rest). (pos, tw_message_ids state)) sample_task_run = Some (Some ''review'', [0, 4, 1, 2, 3])"
  by code_simp

theorem task_graph_completes_in_order_witness:
  "\<exists>pos state recent keys w. sample_task_run = Some (pos, state, recent, keys, w) \<and>
     set keys = node_keys sample_input {''recall'', ''generate_tests'', ''execute'', ''review''} \<and>
     (\<exists>res. task_result_from_state state = Inr res \<and> tg_completed_nodes res = TASK_NODE_SEQUENCES TEST)"
proof -
  obtain state recent keys w where run: "sample_task_run = Some (Some ''review'', state, recent, keys, w)"
    using sample_task_run_ends by (cases sample_task_run) auto
  have type: "ti_task_type sample_input = TEST" by (simp add: sample_input_def)
  have "reaches (task_step (ti_task_type sample_input) (logged sample_node_executor)) (None, to_state sample_input, None, [], 0)
      (Some ''review'', state, recent, keys, w)"
    using drive_task_reaches[OF run[unfolded sample_task_run_def] reaches.here] by (simp add: type)
  from task_graph_completes_in_order[OF this]
  have "set keys = node_keys sample_input {''recall'', ''generate_tests'', ''execute'', ''review''}"
    "\<exists>res. task_result_from_state state = Inr res \<and> tg_completed_nodes res = TASK_NODE_SEQUENCES TEST"
    by (auto simp: type task_edges_def)
  with run show ?thesis by blast
qed

subsection \<open>Runs of the run graph\<close>

type_synonym 'w AdmittedTaskRunner = "AdmittedTask \<Rightarrow> 'w \<Rightarrow> TaskDispatchResult result \<times> 'w"

text \<open>What the protocol promises: a runner answers with the result of the task it was given.\<close>

definition answers :: "'w AdmittedTaskRunner \<Rightarrow> bool" where
  "answers runner \<longleftrightarrow> (\<forall>task w r w'. runner task w = (Inr r, w') \<longrightarrow> td_task_id r = at_task_id task)"

text \<open>The fanned-out \<open>execute_task\<close> nodes, run in the order of the list; each gives the update of one result.\<close>

fun execute_tasks ::
  "'w AdmittedTaskRunner \<Rightarrow> AdmittedTask list \<Rightarrow> 'w \<Rightarrow> TaskDispatchResult list list result \<times> 'w" where
  "execute_tasks runner [] w = (Inr [], w)"
| "execute_tasks runner (task # tasks) w =
     (case runner task w of
        (Inl e, w1) \<Rightarrow> (Inl e, w1)
      | (Inr r, w1) \<Rightarrow>
          (case execute_tasks runner tasks w1 of (Inl e, w2) \<Rightarrow> (Inl e, w2) | (Inr us, w2) \<Rightarrow> (Inr ([r] # us), w2)))"

fun merge_results ::
  "TaskDispatchResult list \<Rightarrow> TaskDispatchResult list list \<Rightarrow> TaskDispatchResult list result" where
  "merge_results left [] = Inr left"
| "merge_results left (u # us) = bnd (merge_dispatch_results left u) (\<lambda>l. merge_results l us)"

definition RUN_GRAPH_NODES :: "string list" where
  "RUN_GRAPH_NODES = [''intake'', ''recall'', ''analyze'', ''architect'', ''validate'', ''admit'', ''send'', ''execute_task'',
     ''fan_in'', ''verify'', ''repair'', ''review'', ''approval'', ''complete'']"

type_synonym 'w run_config = "string option \<times> RunWorkflowState \<times> 'w"

text \<open>
  The engine's steps: the stages, the fan-out whose tasks run and whose updates arrive in any order, the
  approval, resumed with any payload. Losing a run before its checkpoint changes the world only.
\<close>

inductive run_step ::
  "(json \<Rightarrow> string) \<Rightarrow> (uuid \<Rightarrow> string) \<Rightarrow> 'w RunStageExecutor \<Rightarrow> 'w AdmittedTaskRunner \<Rightarrow> 'w run_config \<Rightarrow> 'w run_config \<Rightarrow> bool"
  for json_text uuid_text executor runner where
  stage: "(pos, Some n) \<in> set run_edges \<Longrightarrow> n \<in> set RUN_STAGE_SEQUENCE \<Longrightarrow> execute_stage n executor state w = (Inr u, w') \<Longrightarrow>
    run_step json_text uuid_text executor runner (pos, state, w) (Some n, apply_run_update state u, w')"
| send: "(pos, Some ''send'') \<in> set run_edges \<Longrightarrow>
    run_step json_text uuid_text executor runner (pos, state, w) (Some ''send'', state, w)"
| fan_out: "admitted_sends state \<noteq> [] \<Longrightarrow> mset tasks = mset (admitted_sends state) \<Longrightarrow>
    execute_tasks runner tasks w = (Inr us, w') \<Longrightarrow> mset us' = mset us \<Longrightarrow>
    merge_results (rw_task_results state) us' = Inr rs \<Longrightarrow>
    run_step json_text uuid_text executor runner (Some ''send'', state, w) (Some ''execute_task'', state\<lparr>rw_task_results := rs\<rparr>, w')"
| gathered: "pos = Some ''execute_task'' \<or> pos = Some ''send'' \<and> admitted_sends state = [] \<Longrightarrow>
    run_step json_text uuid_text executor runner (pos, state, w) (Some ''fan_in'', fan_in state, w)"
| approval: "(pos, Some ''approval'') \<in> set run_edges \<Longrightarrow> approval_node json_text uuid_text resumed state = Inr state' \<Longrightarrow>
    run_step json_text uuid_text executor runner (pos, state, w) (Some ''approval'', state', w)"
| lost: "run_step json_text uuid_text executor runner (pos, state, w) (pos, state, w')"

definition rank :: "string option \<Rightarrow> nat" where
  "rank pos = (case pos of None \<Rightarrow> 0 | Some n \<Rightarrow> Suc (length (takeWhile (\<lambda>m. m \<noteq> n) RUN_GRAPH_NODES)))"

definition stages_done :: "string option \<Rightarrow> string list" where
  "stages_done pos =
     (case pos of None \<Rightarrow> []
      | Some n \<Rightarrow> filter (\<lambda>m. m \<in> set RUN_STAGE_SEQUENCE) (takeWhile (\<lambda>m. m \<noteq> n) RUN_GRAPH_NODES @ [n]))"

definition admission_ok :: "RunWorkflowState \<Rightarrow> bool" where
  "admission_ok state \<longleftrightarrow> distinct (map at_task_id (rw_admitted_tasks state)) \<and>
     int (length (rw_admitted_tasks state)) \<le> rw_scheduler_parallel_limit state \<and>
     (\<forall>task \<in> set (rw_admitted_tasks state). set (at_dependencies task) \<subseteq> set (rw_completed_task_ids state))"

definition granted :: "(json \<Rightarrow> string) \<Rightarrow> (uuid \<Rightarrow> string) \<Rightarrow> uuid option \<Rightarrow> (string \<times> json) list \<Rightarrow> bool" where
  "granted json_text uuid_text request decision =
     (case request of None \<Rightarrow> decision = [(''required'', JBool False)]
      | Some r \<Rightarrow> json_text (member ''request_id'' decision) = uuid_text r \<and> member ''approved'' decision = JBool True)"

definition run_inv :: "(json \<Rightarrow> string) \<Rightarrow> (uuid \<Rightarrow> string) \<Rightarrow> 'w run_config \<Rightarrow> bool" where
  "run_inv json_text uuid_text = (\<lambda>(pos, state, w).
     rw_completed_stages state = stages_done pos \<and>
     (if rank pos < 6 then rw_admitted_tasks state = [] else admission_ok state) \<and>
     (if rank pos < 8 then rw_task_results state = []
      else distinct (map td_task_id (rw_task_results state)) \<and>
        td_task_id ` set (rw_task_results state) = at_task_id ` set (rw_admitted_tasks state)) \<and>
     (9 \<le> rank pos \<longrightarrow> rw_ordered_task_ids state = sorted_list_of_set (at_task_id ` set (rw_admitted_tasks state))) \<and>
     (rank pos = 13 \<longrightarrow> (\<exists>d. rw_approval_decision state = Some d \<and> granted json_text uuid_text (rw_approval_request_id state) d)) \<and>
     (rw_completion_state state = (if pos = Some ''complete'' then Some ''COMPLETED'' else None)))"

lemma run_edges_checked:
  "list_all (\<lambda>(pos, n). case n of None \<Rightarrow> True | Some n \<Rightarrow>
      (n \<in> set RUN_STAGE_SEQUENCE \<longrightarrow> stages_done (Some n) = stages_done pos @ [n] \<and> n \<notin> set (stages_done pos) \<and>
         rank (Some n) = Suc (rank pos) \<and> (n = ''admit'') = (rank pos = 5) \<and> (n = ''complete'') = (rank pos = 13) \<and>
         rank pos \<notin> {6, 7, 8, 12} \<and> rank pos < 14) \<and>
      (n = ''send'' \<longrightarrow> pos = Some ''admit'') \<and> (n = ''approval'' \<longrightarrow> pos = Some ''review'')) run_edges"
  by code_simp

lemma run_positions:
  "rank (Some ''admit'') = 6" "rank (Some ''send'') = 7" "rank (Some ''execute_task'') = 8" "rank (Some ''fan_in'') = 9"
  "rank (Some ''review'') = 12" "rank (Some ''approval'') = 13" "rank (Some ''complete'') = 14"
  "stages_done (Some ''send'') = stages_done (Some ''admit'')"
  "stages_done (Some ''execute_task'') = stages_done (Some ''send'')" "stages_done (Some ''fan_in'') = stages_done (Some ''send'')"
  "stages_done (Some ''approval'') = stages_done (Some ''review'')" "stages_done (Some ''complete'') = RUN_STAGE_SEQUENCE"
  by code_simp+

lemma merge_dispatch_results_ids:
  assumes "merge_dispatch_results left right = Inr l"
  shows "distinct (map td_task_id l)" "td_task_id ` set l = td_task_id ` set left \<union> td_task_id ` set right"
proof -
  let ?d = "foldl (\<lambda>d item. dict_set (td_task_id item) item d) [] left"
  obtain d where d: "merge_dispatch_loop ?d right = Inr d" "l = map snd d"
    using assms by (auto simp: merge_dispatch_results_def Let_def bnd_eq_Inr)
  have keys: "fst ` set (foldl (\<lambda>d item. dict_set (td_task_id item) item d) acc left) = fst ` set acc \<union> td_task_id ` set left" for acc
    by (induction left arbitrary: acc) auto
  have "dispatch_dict ?d" by (rule dispatch_dict_fold) (simp add: dispatch_dict_def)
  note ok = merge_dispatch_loop_ok[OF d(1) this]
  show "distinct (map td_task_id l)" using ok(1) unfolding d(2) dispatch_dict_values(1)[OF ok(1)] by (simp add: dispatch_dict_def)
  have "set (map td_task_id l) = set (map fst d)" using dispatch_dict_values(1)[OF ok(1)] by (simp only: d(2))
  then show "td_task_id ` set l = td_task_id ` set left \<union> td_task_id ` set right" using ok(4) keys[of "[]"] by simp
qed

lemma merge_results_ids:
  assumes "merge_results left us = Inr l" and "distinct (map td_task_id left)"
  shows "distinct (map td_task_id l)" "td_task_id ` set l = td_task_id ` set left \<union> td_task_id ` set (concat us)"
proof -
  have "distinct (map td_task_id l) \<and> td_task_id ` set l = td_task_id ` set left \<union> td_task_id ` set (concat us)"
    using assms
  proof (induction us arbitrary: left)
    case (Cons u us)
    obtain l1 where l1: "merge_dispatch_results left u = Inr l1" "merge_results l1 us = Inr l"
      using Cons.prems(1) by (auto simp: bnd_eq_Inr)
    note ids = merge_dispatch_results_ids[OF l1(1)]
    from Cons.IH[OF l1(2) ids(1)] ids(2) show ?case by auto
  qed simp
  then show "distinct (map td_task_id l)" "td_task_id ` set l = td_task_id ` set left \<union> td_task_id ` set (concat us)" by auto
qed

lemma execute_tasks_ids:
  assumes "execute_tasks runner tasks w = (Inr us, w')"
    and "answers runner"
  shows "td_task_id ` set (concat us) = at_task_id ` set tasks"
  using assms(1)
proof (induction tasks arbitrary: us w)
  case (Cons t ts)
  then obtain r w1 us' where r: "runner t w = (Inr r, w1)" and "execute_tasks runner ts w1 = (Inr us', w')" "us = [r] # us'"
    by (auto split: prod.splits sum.splits)
  moreover have "td_task_id r = at_task_id t" using r assms(2) unfolding answers_def by blast
  ultimately show ?case using Cons.IH by simp
qed simp

lemma sort_key_ids:
  assumes "distinct (map f xs)"
  shows "map f (sort_key f xs) = sorted_list_of_set (f ` set xs)"
  using assms by (intro sorted_distinct_set_unique) (simp_all add: distinct_map)

lemma stage_update_effect:
  assumes "execute_stage n executor state w = (Inr u, w')"
  shows "ru_completed_stages u = [n]" "ru_completion_state u = (if n = ''complete'' then Some ''COMPLETED'' else None)"
    "n \<noteq> ''admit'' \<Longrightarrow> ru_admitted_tasks u = None"
    "n = ''admit'' \<Longrightarrow> admission_ok (apply_run_update state u)"
proof -
  obtain request r where req: "stage_request state n = Inr request" and up: "stage_update n state request r = Inr u"
    using assms by (auto simp: execute_stage_def split: sum.splits prod.splits if_splits)
  have request: "rq_completed_task_ids request = rw_completed_task_ids state"
    using req by (auto simp: stage_request_def Let_def bnd_eq_Inr)
  have deps: "\<forall>task \<in> set tasks. set (at_dependencies task) \<subseteq> finished" if "dependencies_completed finished tasks = Inr x" for tasks finished x
    using that by (induction tasks) (auto split: if_splits)
  show "ru_completed_stages u = [n]" "ru_completion_state u = (if n = ''complete'' then Some ''COMPLETED'' else None)"
    "n \<noteq> ''admit'' \<Longrightarrow> ru_admitted_tasks u = None"
    using up by (auto simp: stage_update_def Let_def bnd_eq_Inr split: if_splits)
  show "admission_ok (apply_run_update state u)" if n: "n = ''admit''"
  proof -
    from up n obtain tasks where "ru_admitted_tasks u = Some tasks" "distinct (map at_task_id tasks)"
      "int (length tasks) \<le> rw_scheduler_parallel_limit state"
      "\<forall>task \<in> set tasks. set (at_dependencies task) \<subseteq> set (rw_completed_task_ids state)"
      by (auto simp: stage_update_def SchedulerDispatchBatch_model_def scheduler_admission_is_self_consistent_def bnd_eq_Inr
          Let_def request card_distinct dest!: deps split: if_splits sum.splits)
    then show ?thesis by (simp add: admission_ok_def apply_run_update_def)
  qed
qed

lemma run_edges_next:
  assumes "(pos, Some n) \<in> set run_edges"
  shows "n \<in> set RUN_STAGE_SEQUENCE \<Longrightarrow> stages_done (Some n) = stages_done pos @ [n] \<and> n \<notin> set (stages_done pos) \<and>
      rank (Some n) = Suc (rank pos) \<and> (n = ''admit'') = (rank pos = 5) \<and> (n = ''complete'') = (rank pos = 13) \<and>
      rank pos \<notin> {6, 7, 8, 12} \<and> rank pos < 14"
    "n = ''send'' \<Longrightarrow> pos = Some ''admit''" "n = ''approval'' \<Longrightarrow> pos = Some ''review''"
  using run_edges_checked assms by (auto simp: list_all_iff)

lemma run_inv_step:
  assumes "run_step json_text uuid_text executor runner c c'" and "run_inv json_text uuid_text c"
    and "answers runner"
  shows "run_inv json_text uuid_text c'"
  using assms(1)
proof (cases rule: run_step.cases)
  case (stage pos n state w u w')
  note e = run_edges_next(1)[OF stage(3,4)] and u = stage_update_effect[OF stage(5)]
  have inv: "run_inv json_text uuid_text (pos, state, w)" using assms(2) stage(1) by simp
  let ?st = "apply_run_update state u"
  have same: "rw_task_results ?st = rw_task_results state" "rw_ordered_task_ids ?st = rw_ordered_task_ids state"
    "n \<noteq> ''admit'' \<Longrightarrow> rw_admitted_tasks ?st = rw_admitted_tasks state" "rw_completed_stages ?st = stages_done (Some n)"
    "rw_scheduler_parallel_limit ?st = rw_scheduler_parallel_limit state" "rw_completed_task_ids ?st = rw_completed_task_ids state"
    "rw_completion_state ?st = (if n = ''complete'' then Some ''COMPLETED'' else rw_completion_state state)"
    using inv u(1-3) e by (auto simp: apply_run_update_def run_inv_def merge_unique_uniq)
  have pos: "pos \<noteq> Some ''complete''" using e run_positions(7) by auto
  show ?thesis
  proof (cases "n = ''admit''")
    case True
    then show ?thesis using inv e same u(4) pos by (simp add: stage(2) run_inv_def run_positions)
  next
    case False
    have "admission_ok ?st = admission_ok state" using same False by (simp add: admission_ok_def)
    then show ?thesis using inv e same False pos by (auto simp: stage(2) run_inv_def)
  qed
next
  case (send pos state w)
  then show ?thesis using assms(2) run_edges_next(2)[OF send(3)] by (simp add: run_inv_def run_positions)
next
  case (fan_out state tasks w us w' us' rs)
  have inv: "run_inv json_text uuid_text (Some ''send'', state, w)" using assms(2) fan_out(1) by simp
  have "set (concat us') = set (concat us)" using mset_eq_setD[OF fan_out(6)] by simp
  moreover have "set tasks = set (rw_admitted_tasks state)" using mset_eq_setD[OF fan_out(4)] by (simp add: admitted_sends_def)
  moreover note execute_tasks_ids[OF fan_out(5) assms(3)]
  ultimately have ids: "td_task_id ` set (concat us') = at_task_id ` set (rw_admitted_tasks state)" by (simp only:)
  have "rw_task_results state = []" using inv by (simp add: run_inv_def run_positions)
  then have "distinct (map td_task_id rs)" "td_task_id ` set rs = at_task_id ` set (rw_admitted_tasks state)"
    using merge_results_ids[OF fan_out(7)] unfolding ids by simp_all
  then show ?thesis using inv by (auto simp: fan_out(2) run_inv_def run_positions admission_ok_def)
next
  case (gathered pos state w)
  have inv: "run_inv json_text uuid_text (pos, state, w)" using assms(2) gathered(1) by simp
  have "distinct (map td_task_id (rw_task_results state))" "td_task_id ` set (rw_task_results state) = at_task_id ` set (rw_admitted_tasks state)"
    "admission_ok state" "rw_completed_stages state = stages_done (Some ''fan_in'')" "rw_completion_state state = None"
    using gathered(3) inv by (elim disjE; simp add: run_inv_def run_positions admitted_sends_def)+
  then show ?thesis by (simp add: gathered(2) run_inv_def run_positions fan_in_def sort_key_ids admission_ok_def)
next
  case (approval pos resumed state state' w)
  have inv: "run_inv json_text uuid_text (Some ''review'', state, w)"
    using assms(2) approval(1) run_edges_next(3)[OF approval(3)] by simp
  obtain d where "state' = state\<lparr>rw_approval_decision := Some d\<rparr>" "granted json_text uuid_text (rw_approval_request_id state) d"
    using approval(4) by (auto simp: approval_node_def granted_def split: option.splits json.splits if_splits)
  then show ?thesis using inv by (simp add: approval(2) run_inv_def run_positions admission_ok_def)
next
  case (lost pos state w w')
  then show ?thesis using assms(2) by (simp add: run_inv_def)
qed


text \<open>A run without crashes, to compute examples.\<close>

definition drive_run_step ::
  "(json \<Rightarrow> string) \<Rightarrow> (uuid \<Rightarrow> string) \<Rightarrow> 'w RunStageExecutor \<Rightarrow> 'w AdmittedTaskRunner \<Rightarrow> json option \<Rightarrow> string
     \<Rightarrow> 'w run_config \<Rightarrow> 'w run_config option" where
  "drive_run_step json_text uuid_text executor runner resumed n = (\<lambda>(pos, state, w).
     if (pos, Some n) \<notin> set run_edges then None
     else if n \<in> set RUN_STAGE_SEQUENCE
     then case execute_stage n executor state w of (Inl e, w') \<Rightarrow> None | (Inr u, w') \<Rightarrow> Some (Some n, apply_run_update state u, w')
     else if n = ''send'' then Some (Some n, state, w)
     else if n = ''execute_task''
     then if admitted_sends state = [] \<or> pos \<noteq> Some ''send'' then None
       else (case execute_tasks runner (admitted_sends state) w of
         (Inl e, w') \<Rightarrow> None
       | (Inr us, w') \<Rightarrow>
           (case merge_results (rw_task_results state) us of
              Inl e \<Rightarrow> None | Inr rs \<Rightarrow> Some (Some n, state\<lparr>rw_task_results := rs\<rparr>, w')))
     else if n = ''fan_in''
     then if pos = Some ''execute_task'' \<or> pos = Some ''send'' \<and> admitted_sends state = [] then Some (Some n, fan_in state, w) else None
     else if n = ''approval''
     then case approval_node json_text uuid_text resumed state of Inl e \<Rightarrow> None | Inr state' \<Rightarrow> Some (Some n, state', w)
     else None)"

fun drive_run where
  "drive_run json_text uuid_text executor runner resumed [] c = Some c"
| "drive_run json_text uuid_text executor runner resumed (n # ns) c =
     Option.bind (drive_run_step json_text uuid_text executor runner resumed n c)
       (drive_run json_text uuid_text executor runner resumed ns)"

lemma drive_run_step_sound:
  "drive_run_step json_text uuid_text executor runner resumed n c = Some c' \<Longrightarrow> run_step json_text uuid_text executor runner c c'"
  unfolding drive_run_step_def
  by (cases c) (auto split: if_splits prod.splits sum.splits intro: run_step.intros)

lemma drive_run_reaches:
  "drive_run json_text uuid_text executor runner resumed ns c = Some c' \<Longrightarrow>
    reaches (run_step json_text uuid_text executor runner) c0 c \<Longrightarrow> reaches (run_step json_text uuid_text executor runner) c0 c'"
proof (induction ns arbitrary: c)
  case (Cons n ns)
  obtain c1 where c1: "drive_run_step json_text uuid_text executor runner resumed n c = Some c1"
    "drive_run json_text uuid_text executor runner resumed ns c1 = Some c'"
    using Cons.prems(1) by (auto simp: bind_eq_Some_conv)
  show ?case by (rule Cons.IH[OF c1(2) reaches.further[OF Cons.prems(2) drive_run_step_sound[OF c1(1)]]])
qed simp

definition sample_run_input :: RunWorkflowInput where
  "sample_run_input = \<lparr>ri_trace_id = ''trace'', ri_run_id = 9, ri_project_id = 3, ri_repository_id = 2,
     ri_baseline_commit = replicate 40 CHR ''a'', ri_goal = ''goal'', ri_scheduler_parallel_limit = 2, ri_completed_task_ids = [5]\<rparr>"

definition sample_stages :: "nat RunStageExecutor" where
  "sample_stages = \<lparr>rx_cancellation_requested = (\<lambda>r n. (False, n)),
     rx_execute = (\<lambda>q n. (Inr \<lparr>rr_summary = rq_stage q, rr_message_ids = [n], rr_artifact_ids = [],
       rr_admitted_tasks = [\<lparr>at_task_id = 8, at_task_type = TEST, at_dependencies = [5]\<rparr>,
                            \<lparr>at_task_id = 7, at_task_type = TEST, at_dependencies = []\<rparr>],
       rr_approval_request_id = (if rq_stage q = ''review'' then Some 31 else None)\<rparr>, Suc n))\<rparr>"

definition sample_runner :: "nat AdmittedTaskRunner" where
  "sample_runner task n = (Inr \<lparr>td_task_id = at_task_id task, td_result_id = n, td_artifact_ids = [], td_message_ids = []\<rparr>, Suc n)"

definition sample_run_to :: "string list \<Rightarrow> nat run_config option" where
  "sample_run_to nodes = drive_run (\<lambda>v. case v of JStr t \<Rightarrow> t | _ \<Rightarrow> []) (\<lambda>u. replicate u CHR ''1'') sample_stages sample_runner
     (Some (JObj [(''request_id'', JStr (replicate 31 CHR ''1'')), (''approved'', JBool True)])) nodes
     (None, run_to_state sample_run_input, 0)"

lemma sample_run_ends:
  "map_option (\<lambda>(pos, state, w). (pos, rw_ordered_task_ids state, rw_approval_request_id state)) (sample_run_to (butlast RUN_GRAPH_NODES)) =
     Some (Some ''approval'', [7, 8], Some 31)"
  "map_option (\<lambda>(pos, state, w). rw_completion_state state) (sample_run_to RUN_GRAPH_NODES) = Some (Some ''COMPLETED'')"
  by code_simp+


end
