(* ===== verification/Artifacts.thy ===== *)
theory Artifacts
  imports Store "HOL-Library.List_Lexorder" "HOL-Library.Char_ord"
begin

section \<open>Artifacts and the release review\<close>

text \<open>
  \<open>src/persistence/artifacts.py\<close>: the content-addressed object store and the service that records its
  objects, the artifact operations of \<open>src/persistence/repositories.py\<close>, and the release review of
  \<open>src/workflows/review.py\<close> that rests on them.

  The store is the directory tree below its root: what lies at a path, a regular file with its
  bytes, a symbolic link (to something that exists or not) or something else, and which directories
  resolve to a place outside the root. \<open>sha256\<close> is the digest of \<open>hashlib\<close> in hexadecimal; reading a
  file in chunks and hashing them is hashing its bytes. Metrics and file modes are left out.
\<close>

subsection \<open>The object store\<close>

datatype entry = Regular string | Symlink bool | Other

record artifact_store =
  st_files :: "(string list \<times> entry) list"
  st_escapes :: "string list \<Rightarrow> bool"
  st_uuid_text :: "uuid \<Rightarrow> string"

record StoredArtifact =
  sa_artifact_id :: uuid
  sa_sha256 :: string
  sa_media_type :: string
  sa_size_bytes :: int
  sa_storage_key :: string

record ArtifactVerification =
  av_valid :: bool
  av_expected_sha256 :: string
  av_actual_sha256 :: "string option"
  av_expected_size_bytes :: int
  av_actual_size_bytes :: "int option"

definition require_contained :: "artifact_store \<Rightarrow> string list \<Rightarrow> unit result" where
  "require_contained fs dir =
     guard (\<not> (dir \<noteq> [] \<and> st_escapes fs dir)) (ArtifactPathError ''artifact path escapes the artifact root'')"

definition safe_path :: "artifact_store \<Rightarrow> string \<Rightarrow> bool \<Rightarrow> string list result" where
  "safe_path fs storage_key require_exists =
     (let parts = path_parts storage_key
      in bnd (guard (\<not> (path_is_absolute storage_key \<or> parts = [] \<or> ''..'' \<in> set parts \<or> CHR '':'' \<in> set (hd parts)))
                (ArtifactPathError ''artifact storage key escapes the artifact root'')) (\<lambda>_.
         if require_exists
         then case map_of (st_files fs) parts of
                None \<Rightarrow> Inl FileNotFoundError
              | Some (Symlink False) \<Rightarrow> Inl FileNotFoundError
              | Some e \<Rightarrow>
                  bnd (require_contained fs (butlast parts)) (\<lambda>_.
                  bnd (guard (e \<noteq> Symlink True) (ArtifactPathError ''artifact object cannot be a symlink'')) (\<lambda>_. Inr parts))
         else bnd (require_contained fs (butlast parts)) (\<lambda>_. Inr parts)))"

definition open_contained :: "artifact_store \<Rightarrow> string \<Rightarrow> string result" where
  "open_contained fs storage_key =
     bnd (safe_path fs storage_key True) (\<lambda>path.
     case map_of (st_files fs) path of
       Some (Regular content) \<Rightarrow> Inr content
     | _ \<Rightarrow> Inl (ArtifactPathError ''artifact object must be a regular file''))"

definition verify_artifact :: "(string \<Rightarrow> string) \<Rightarrow> StoredArtifact \<Rightarrow> artifact_store \<Rightarrow> ArtifactVerification" where
  "verify_artifact sha256 artifact fs =
     (case open_contained fs (sa_storage_key artifact) of
        Inl _ \<Rightarrow> \<lparr>av_valid = False, av_expected_sha256 = sa_sha256 artifact, av_actual_sha256 = None,
                 av_expected_size_bytes = sa_size_bytes artifact, av_actual_size_bytes = None\<rparr>
      | Inr content \<Rightarrow>
          \<lparr>av_valid = (sha256 content = sa_sha256 artifact \<and> int (length content) = sa_size_bytes artifact),
           av_expected_sha256 = sa_sha256 artifact, av_actual_sha256 = Some (sha256 content),
           av_expected_size_bytes = sa_size_bytes artifact, av_actual_size_bytes = Some (int (length content))\<rparr>)"

definition storage_key_of :: "string \<Rightarrow> string" where
  "storage_key_of digest = join_with slash [''sha256'', take 2 digest, take 2 (drop 2 digest), digest]"

text \<open>
  \<open>raced\<close> is what another process links at the destination between the test for its existence and
  this process's own link.
\<close>

definition store_put ::
  "(string \<Rightarrow> string) \<Rightarrow> string \<Rightarrow> uuid \<Rightarrow> string \<Rightarrow> entry option \<Rightarrow> artifact_store \<Rightarrow> StoredArtifact result \<times> artifact_store" where
  "store_put sha256 content artifact_id media_type raced fs =
     (let digest = sha256 content;
          descriptor = \<lparr>sa_artifact_id = artifact_id, sa_sha256 = digest, sa_media_type = media_type,
                        sa_size_bytes = int (length content), sa_storage_key = storage_key_of digest\<rparr>
      in case safe_path fs (sa_storage_key descriptor) False of
           Inl e \<Rightarrow> (Inl e, fs)
         | Inr destination \<Rightarrow>
             if map_of (st_files fs) destination \<notin> {None, Some (Symlink False)}
             then if \<not> av_valid (verify_artifact sha256 descriptor fs)
                  then (Inl (ArtifactIntegrityError ''existing content-addressed object does not match its SHA-256''), fs)
                  else (Inr descriptor, fs)
             else
               (let fs1 = (if map_of (st_files fs) destination = None \<and> raced \<noteq> None
                           then fs\<lparr>st_files := dict_set destination (the raced) (st_files fs)\<rparr> else fs)
                in if map_of (st_files fs1) destination = None
                   then (Inr descriptor, fs1\<lparr>st_files := dict_set destination (Regular content) (st_files fs1)\<rparr>)
                   else if \<not> av_valid (verify_artifact sha256 descriptor fs1)
                   then (Inl (ArtifactIntegrityError ''concurrent content-addressed object does not match its SHA-256''), fs1)
                   else (Inr descriptor, fs1)))"

definition read_verified :: "(string \<Rightarrow> string) \<Rightarrow> StoredArtifact \<Rightarrow> artifact_store \<Rightarrow> string result" where
  "read_verified sha256 artifact fs =
     bnd (open_contained fs (sa_storage_key artifact)) (\<lambda>content.
     bnd (guard (sha256 content = sa_sha256 artifact \<and> int (length content) = sa_size_bytes artifact)
            (ArtifactIntegrityError ''artifact SHA-256 or size mismatch'')) (\<lambda>_. Inr content))"

definition quarantine :: "StoredArtifact \<Rightarrow> artifact_store \<Rightarrow> string list result \<times> artifact_store" where
  "quarantine artifact fs =
     (case safe_path fs (sa_storage_key artifact) True of
        Inl e \<Rightarrow> (Inl e, fs)
      | Inr source \<Rightarrow>
          (let quarantine_root = [''quarantine'', st_uuid_text fs (sa_artifact_id artifact)];
               target = quarantine_root @ [sa_sha256 artifact]
           in case require_contained fs quarantine_root of
                Inl e \<Rightarrow> (Inl e, fs)
              | Inr _ \<Rightarrow>
                  (Inr target, fs\<lparr>st_files := dict_set target (the (map_of (st_files fs) source))
                                    (filter (\<lambda>(p, e). p \<noteq> source) (st_files fs))\<rparr>)))"

subsection \<open>Artifact rows\<close>

record ArtifactRef =
  rf_artifact_id :: uuid
  rf_sha256 :: string
  rf_media_type :: string
  rf_state :: ArtifactState

definition ArtifactRef_model :: "ArtifactRef \<Rightarrow> ArtifactRef result" where
  "ArtifactRef_model r =
     bnd (guard (is_sha256 (rf_sha256 r) \<and> text_ok 200 (rf_media_type r)) (ValidationError ''ArtifactRef'')) (\<lambda>_. Inr r)"

definition record_artifact ::
  "ArtifactRef \<Rightarrow> uuid \<Rightarrow> uuid \<Rightarrow> uuid \<Rightarrow> string \<Rightarrow> int \<Rightarrow> db \<Rightarrow> db result" where
  "record_artifact artifact project_id run_id task_id storage_key size_bytes s =
     bnd (guard (length (rf_sha256 artifact) = 64 \<and> 0 \<le> size_bytes) IntegrityError) (\<lambda>_.
     bnd (row_insert ar_id
            \<lparr>ar_id = rf_artifact_id artifact, ar_project_id = project_id, ar_run_id = run_id, ar_task_id = task_id,
             ar_sha256 = rf_sha256 artifact, ar_media_type = rf_media_type artifact, ar_state = rf_state artifact,
             ar_storage_key = storage_key, ar_size_bytes = size_bytes, ar_created_at = utc_now s,
             ar_verified_at = (if rf_state artifact = VALID then Some (utc_now s) else None)\<rparr> (artifacts s))
       (\<lambda>rows. Inr (s\<lparr>artifacts := rows\<rparr>)))"

definition get_artifact :: "uuid \<Rightarrow> uuid \<Rightarrow> db \<Rightarrow> ArtifactRow option" where
  "get_artifact project_id artifact_id s =
     (case row_get ar_id artifact_id (artifacts s) of
        None \<Rightarrow> None | Some row \<Rightarrow> if ar_project_id row = project_id then Some row else None)"

definition list_valid_artifacts :: "uuid \<Rightarrow> uuid \<Rightarrow> db \<Rightarrow> ArtifactRow list" where
  "list_valid_artifacts project_id task_id s =
     sort_key ar_created_at (sort_key ar_id
       (filter (\<lambda>r. ar_project_id r = project_id \<and> ar_task_id r = task_id \<and> ar_state r = VALID) (artifacts s)))"

definition mark_artifact_corrupt :: "uuid \<Rightarrow> uuid \<Rightarrow> db \<Rightarrow> db result" where
  "mark_artifact_corrupt project_id artifact_id s =
     (case get_artifact project_id artifact_id s of
        None \<Rightarrow> Inl (LookupError ''artifact does not exist in project'')
      | Some row \<Rightarrow>
          if ar_state row = CORRUPT then Inr s
          else emit ''artifact.corrupt'' ''artifact'' (ar_id row)
                 [(''artifact_id'', PId (ar_id row)), (''project_id'', PId (ar_project_id row)),
                  (''sha256'', PText (ar_sha256 row)), (''state'', PText ''CORRUPT'')]
                 (ar_run_id row) ''artifact-integrity''
                 (s\<lparr>artifacts := row_update (\<lambda>r. ar_id r = artifact_id)
                       (\<lambda>r. r\<lparr>ar_state := CORRUPT, ar_verified_at := None\<rparr>) (artifacts s)\<rparr>))"

subsection \<open>The service\<close>

text \<open>
  An operation on a session and the store. An exception does not undo what the session has done so
  far: the enclosing transaction does, if the exception leaves it. The store is never rolled back.
\<close>

definition put_artifact ::
  "(string \<Rightarrow> string) \<Rightarrow> string \<Rightarrow> string \<Rightarrow> uuid \<Rightarrow> uuid \<Rightarrow> uuid \<Rightarrow> uuid option \<Rightarrow> entry option \<Rightarrow> artifact_store \<times> db
     \<Rightarrow> StoredArtifact result \<times> artifact_store \<times> db" where
  "put_artifact sha256 content media_type project_id run_id task_id artifact_id raced = (\<lambda>(fs, s).
     let (aid, s1) = (case artifact_id of Some a \<Rightarrow> (a, s) | None \<Rightarrow> uuid4 s)
     in case store_put sha256 content aid media_type raced fs of
          (Inl e, fs') \<Rightarrow> (Inl e, fs', s1)
        | (Inr stored, fs') \<Rightarrow>
            (case bnd (ArtifactRef_model \<lparr>rf_artifact_id = sa_artifact_id stored, rf_sha256 = sa_sha256 stored,
                         rf_media_type = sa_media_type stored, rf_state = VALID\<rparr>) (\<lambda>artifact.
                    record_artifact artifact project_id run_id task_id (sa_storage_key stored) (sa_size_bytes stored) s1) of
               Inl e \<Rightarrow> (Inl e, fs', s1)
             | Inr s2 \<Rightarrow> (Inr stored, fs', s2)))"

definition stored_of :: "ArtifactRow \<Rightarrow> StoredArtifact" where
  "stored_of row = \<lparr>sa_artifact_id = ar_id row, sa_sha256 = ar_sha256 row, sa_media_type = ar_media_type row,
     sa_size_bytes = ar_size_bytes row, sa_storage_key = ar_storage_key row\<rparr>"

definition read_verified_bytes :: "(string \<Rightarrow> string) \<Rightarrow> ArtifactRow \<Rightarrow> artifact_store \<Rightarrow> string result" where
  "read_verified_bytes sha256 row fs =
     bnd (guard (ar_state row = VALID) (ArtifactIntegrityError ''artifact is not valid evidence''))
       (\<lambda>_. read_verified sha256 (stored_of row) fs)"

definition quarantine_corrupt ::
  "uuid \<Rightarrow> uuid \<Rightarrow> ArtifactRow \<Rightarrow> artifact_store \<times> db \<Rightarrow> unit result \<times> artifact_store \<times> db" where
  "quarantine_corrupt project_id artifact_id row = (\<lambda>(fs, s).
     case commit (\<lambda>s. bnd (mark_artifact_corrupt project_id artifact_id s) (\<lambda>s'. Inr ((), s'))) s of
       (Inl e, s') \<Rightarrow> (Inl e, fs, s')
     | (Inr _, s') \<Rightarrow> (Inr (), snd (quarantine (stored_of row) fs), s'))"

definition get_verified ::
  "(string \<Rightarrow> string) \<Rightarrow> uuid \<Rightarrow> uuid \<Rightarrow> artifact_store \<times> db \<Rightarrow> string result \<times> artifact_store \<times> db" where
  "get_verified sha256 project_id artifact_id = (\<lambda>(fs, s).
     case get_artifact project_id artifact_id s of
       None \<Rightarrow> (Inl (LookupError ''artifact does not exist in project''), fs, s)
     | Some row \<Rightarrow>
         if ar_state row \<noteq> VALID then (Inl (ArtifactIntegrityError ''artifact is not valid evidence''), fs, s)
         else case read_verified sha256 (stored_of row) fs of
                Inr content \<Rightarrow> (Inr content, fs, s)
              | Inl e \<Rightarrow>
                  (case mark_artifact_corrupt project_id artifact_id s of
                     Inl e' \<Rightarrow> (Inl e', fs, s)
                   | Inr s' \<Rightarrow> (Inl e, snd (quarantine (stored_of row) fs), s')))"

text \<open>\<open>FinalizationService._load_release_decision\<close>: the read leaves its transaction with the exception.\<close>

definition load_release_decision ::
  "(string \<Rightarrow> string) \<Rightarrow> uuid \<Rightarrow> uuid \<Rightarrow> artifact_store \<times> db \<Rightarrow> string option result \<times> artifact_store \<times> db" where
  "load_release_decision sha256 project_id artifact_id = (\<lambda>(fs, s).
     case row_get ar_id artifact_id (artifacts s) of
       None \<Rightarrow> (Inr None, fs, s)
     | Some row \<Rightarrow>
         (case get_verified sha256 project_id artifact_id (fs, s) of
            (Inl e, fs', s') \<Rightarrow> (Inl e, fs', s)
          | (Inr content, fs', s') \<Rightarrow> (Inr (Some content), fs', s')))"

text \<open>The download endpoint of \<open>src/apps/api/routes.py\<close>.\<close>

definition MAX_ARTIFACT_DOWNLOAD_BYTES :: int where
  "MAX_ARTIFACT_DOWNLOAD_BYTES = 16 * 1024 * 1024"

definition download_artifact ::
  "(string \<Rightarrow> string) \<Rightarrow> uuid \<Rightarrow> uuid \<Rightarrow> artifact_store \<times> db \<Rightarrow> string result \<times> artifact_store \<times> db" where
  "download_artifact sha256 project_id artifact_id = (\<lambda>(fs, s).
     case get_artifact project_id artifact_id s of
       None \<Rightarrow> (Inl (HTTPException 404), fs, s)
     | Some row \<Rightarrow>
         if MAX_ARTIFACT_DOWNLOAD_BYTES < ar_size_bytes row then (Inl (HTTPException 413), fs, s)
         else case read_verified_bytes sha256 row fs of
                Inr content \<Rightarrow> (Inr content, fs, s)
              | Inl _ \<Rightarrow>
                  (case quarantine_corrupt project_id artifact_id row (fs, s) of
                     (Inl (LookupError t), c) \<Rightarrow> (Inl (HTTPException 404), c)
                   | (Inl e, c) \<Rightarrow> (Inl e, c)
                   | (Inr _, c) \<Rightarrow> (Inl (HTTPException 409), c)))"

subsection \<open>The release review\<close>

record ReleaseReviewRequest =
  rv_project_id :: uuid
  rv_run_id :: uuid
  rv_acceptance_criteria :: "string list"
  rv_proposed_evidence :: "(string \<times> uuid list) list"
  rv_summary :: string

datatype review_failure =
    Unexpected_evidence string
  | No_evidence string
  | Invalid_artifact string uuid py_error
  | Outside_run string uuid
  | No_verified_evidence string

record ReleaseDecision =
  rd_approved :: bool
  rd_summary :: string
  rd_acceptance_evidence :: "(string \<times> uuid list) list"
  rd_failure_reasons :: "review_failure list"

text \<open>The exceptions the review and the repair treat as a failure of the evidence.\<close>

definition evidence_error :: "py_error \<Rightarrow> bool" where
  "evidence_error e = (case e of ArtifactPathError _ \<Rightarrow> True | ArtifactIntegrityError _ \<Rightarrow> True | FileNotFoundError \<Rightarrow> True
     | LookupError _ \<Rightarrow> True | KeyError \<Rightarrow> True | IndexError \<Rightarrow> True | _ \<Rightarrow> False)"

fun review_artifacts ::
  "(string \<Rightarrow> string) \<Rightarrow> ReleaseReviewRequest \<Rightarrow> string \<Rightarrow> uuid list \<Rightarrow> uuid list \<times> review_failure list \<Rightarrow> artifact_store \<times> db
     \<Rightarrow> (uuid list \<times> review_failure list) result \<times> artifact_store \<times> db" where
  "review_artifacts sha256 request criterion [] found c = (Inr found, c)"
| "review_artifacts sha256 request criterion (artifact_id # ids) (verified, failures) c =
     (case get_verified sha256 (rv_project_id request) artifact_id c of
        (Inl e, c1) \<Rightarrow>
          if evidence_error e
          then review_artifacts sha256 request criterion ids (verified, failures @ [Invalid_artifact criterion artifact_id e]) c1
          else (Inl e, c1)
      | (Inr content, c1) \<Rightarrow>
          if case row_get ar_id artifact_id (artifacts (snd c1)) of None \<Rightarrow> True
             | Some row \<Rightarrow> ar_run_id row \<noteq> rv_run_id request \<or> ar_state row \<noteq> VALID \<or> ar_verified_at row = None
          then review_artifacts sha256 request criterion ids (verified, failures @ [Outside_run criterion artifact_id]) c1
          else review_artifacts sha256 request criterion ids (verified @ [artifact_id], failures) c1)"

fun review_criteria ::
  "(string \<Rightarrow> string) \<Rightarrow> ReleaseReviewRequest \<Rightarrow> string list \<Rightarrow> (string \<times> uuid list) list \<times> review_failure list \<Rightarrow> artifact_store \<times> db
     \<Rightarrow> ((string \<times> uuid list) list \<times> review_failure list) result \<times> artifact_store \<times> db" where
  "review_criteria sha256 request [] found c = (Inr found, c)"
| "review_criteria sha256 request (criterion # criteria) (evidence, failures) c =
     (let proposed = fromkeys (case map_of (rv_proposed_evidence request) criterion of None \<Rightarrow> [] | Some ids \<Rightarrow> ids)
      in if proposed = [] then review_criteria sha256 request criteria (evidence, failures @ [No_evidence criterion]) c
         else case review_artifacts sha256 request criterion proposed ([], failures) c of
                (Inl e, c1) \<Rightarrow> (Inl e, c1)
              | (Inr (verified, failures1), c1) \<Rightarrow>
                  if verified \<noteq> []
                  then review_criteria sha256 request criteria (dict_set criterion verified evidence, failures1) c1
                  else review_criteria sha256 request criteria (evidence, failures1 @ [No_verified_evidence criterion]) c1)"

definition review ::
  "(string \<Rightarrow> string) \<Rightarrow> ReleaseReviewRequest \<Rightarrow> artifact_store \<times> db \<Rightarrow> ReleaseDecision result \<times> artifact_store \<times> db" where
  "review sha256 request = (\<lambda>(fs, s).
     let expected = set (rv_acceptance_criteria request);
         extras = sorted_list_of_set (fst ` set (rv_proposed_evidence request) - expected)
     in case review_criteria sha256 request (rv_acceptance_criteria request) ([], map Unexpected_evidence extras) (fs, s) of
          (Inl e, fs', s') \<Rightarrow> (Inl e, fs', s)
        | (Inr (evidence, failures), fs', s') \<Rightarrow>
            (let approved = (failures = [] \<and> list_all (\<lambda>c. c \<in> fst ` set evidence) (rv_acceptance_criteria request))
             in (bnd (guard (int (length failures) \<le> 100 \<and> text_ok 20000 (rv_summary request)) (ValidationError ''ReleaseDecision''))
                   (\<lambda>_. Inr \<lparr>rd_approved = approved, rd_summary = rv_summary request, rd_acceptance_evidence = evidence,
                             rd_failure_reasons = failures\<rparr>), fs', s')))"

subsection \<open>Storage keys\<close>

lemma hex_names:
  assumes "list_all is_hex_digit w" and "w \<noteq> []"
  shows "is_name w" "slash \<notin> set w" "w \<noteq> ''..''"
proof -
  have no: "\<not> is_hex_digit CHR ''.''" "\<not> is_hex_digit slash" by (simp_all add: is_hex_digit_def)
  show "is_name w" unfolding is_name_def using assms no(1) by auto
  show "slash \<notin> set w" using assms(1) no(2) by (auto simp: list_all_iff)
  show "w \<noteq> ''..''" using assms(1) no(1) by auto
qed

definition object_path :: "string \<Rightarrow> string list" where
  "object_path digest = [''sha256'', take 2 digest, take 2 (drop 2 digest), digest]"

lemma storage_key_path:
  assumes "is_sha256 digest"
  shows "path_parts (storage_key_of digest) = object_path digest" "\<not> path_is_absolute (storage_key_of digest)"
    "safe_path fs (storage_key_of digest) False =
       bnd (require_contained fs (butlast (object_path digest))) (\<lambda>_. Inr (object_path digest))"
    "safe_path fs (storage_key_of digest) True =
       (case map_of (st_files fs) (object_path digest) of
          None \<Rightarrow> Inl FileNotFoundError
        | Some (Symlink False) \<Rightarrow> Inl FileNotFoundError
        | Some e \<Rightarrow> bnd (require_contained fs (butlast (object_path digest))) (\<lambda>_.
            bnd (guard (e \<noteq> Symlink True) (ArtifactPathError ''artifact object cannot be a symlink'')) (\<lambda>_. Inr (object_path digest))))"
proof -
  have hex: "list_all is_hex_digit digest" "length digest = 64" using assms by (auto simp: is_sha256_def)
  have names: "is_name w \<and> slash \<notin> set w \<and> w \<noteq> ''..''" if "w \<in> set (object_path digest)" for w
  proof -
    have "list_all is_hex_digit (take 2 digest) \<and> list_all is_hex_digit (take 2 (drop 2 digest))"
      using hex(1) by (auto simp: list_all_iff dest: in_set_takeD in_set_dropD)
    moreover have "take 2 digest \<noteq> []" "take 2 (drop 2 digest) \<noteq> []" "digest \<noteq> []" using hex(2) by auto
    ultimately have "w = ''sha256'' \<or> list_all is_hex_digit w \<and> w \<noteq> []"
      using that hex(1) unfolding object_path_def by auto
    then show ?thesis
    proof
      assume "w = ''sha256''"
      then show ?thesis by (simp add: is_name_def)
    next
      assume "list_all is_hex_digit w \<and> w \<noteq> []"
      then show ?thesis using hex_names by blast
    qed
  qed
  have split: "split_on slash (storage_key_of digest) = object_path digest"
    unfolding storage_key_of_def object_path_def[symmetric] using names by (intro split_join) (auto simp: object_path_def)
  show relative: "\<not> path_is_absolute (storage_key_of digest)"
    by (simp add: path_root_relative storage_key_of_def)
  show parts: "path_parts (storage_key_of digest) = object_path digest"
    unfolding path_parts_relative[OF relative] split using names by (intro filter_True) simp
  have fine: "object_path digest \<noteq> []" "''..'' \<notin> set (object_path digest)" "CHR '':'' \<notin> set (hd (object_path digest))"
    using names by (auto simp: object_path_def)
  show "safe_path fs (storage_key_of digest) False =
       bnd (require_contained fs (butlast (object_path digest))) (\<lambda>_. Inr (object_path digest))"
    by (simp add: safe_path_def parts relative fine Let_def)
  show "safe_path fs (storage_key_of digest) True =
       (case map_of (st_files fs) (object_path digest) of
          None \<Rightarrow> Inl FileNotFoundError
        | Some (Symlink False) \<Rightarrow> Inl FileNotFoundError
        | Some e \<Rightarrow> bnd (require_contained fs (butlast (object_path digest))) (\<lambda>_.
            bnd (guard (e \<noteq> Symlink True) (ArtifactPathError ''artifact object cannot be a symlink'')) (\<lambda>_. Inr (object_path digest))))"
    by (simp add: safe_path_def parts relative fine Let_def)
qed

lemma open_contained_object:
  assumes "is_sha256 digest"
  shows "open_contained fs (storage_key_of digest) = Inr content \<longleftrightarrow>
    map_of (st_files fs) (object_path digest) = Some (Regular content) \<and> require_contained fs (butlast (object_path digest)) = Inr ()"
proof (cases "map_of (st_files fs) (object_path digest)")
  case None
  then show ?thesis by (simp add: open_contained_def storage_key_path[OF assms])
next
  case (Some e)
  then show ?thesis
    by (cases "require_contained fs (butlast (object_path digest))"; cases e)
      (simp_all add: open_contained_def storage_key_path[OF assms] split: bool.splits)
qed

subsection \<open>Objects stay readable\<close>

text \<open>
  The object of a valid row is in the store under the row's digest, contained, with the recorded size.
\<close>

definition intact :: "(string \<Rightarrow> string) \<Rightarrow> artifact_store \<Rightarrow> ArtifactRow \<Rightarrow> bool" where
  "intact sha256 fs row \<longleftrightarrow> is_sha256 (ar_sha256 row) \<and> ar_storage_key row = storage_key_of (ar_sha256 row) \<and>
     require_contained fs (butlast (object_path (ar_sha256 row))) = Inr () \<and>
     (\<exists>content. map_of (st_files fs) (object_path (ar_sha256 row)) = Some (Regular content) \<and>
        sha256 content = ar_sha256 row \<and> int (length content) = ar_size_bytes row)"

definition store_inv :: "(string \<Rightarrow> string) \<Rightarrow> artifact_store \<times> db \<Rightarrow> bool" where
  "store_inv sha256 c \<longleftrightarrow> keyed ar_id (artifacts (snd c)) \<and>
     (\<forall>row \<in> set (artifacts (snd c)). ar_state row = VALID \<longrightarrow> intact sha256 (fst c) row)"

lemma intact_reads:
  assumes "intact sha256 fs row"
  shows "\<exists>content. read_verified sha256 (stored_of row) fs = Inr content \<and>
    map_of (st_files fs) (object_path (ar_sha256 row)) = Some (Regular content)"
proof -
  obtain content where c: "map_of (st_files fs) (object_path (ar_sha256 row)) = Some (Regular content)"
    "sha256 content = ar_sha256 row" "int (length content) = ar_size_bytes row" using assms by (auto simp: intact_def)
  then have "open_contained fs (ar_storage_key row) = Inr content"
    using assms open_contained_object[of "ar_sha256 row" fs content] by (simp add: intact_def)
  then show ?thesis using c by (simp add: read_verified_def stored_of_def)
qed

lemma store_put_keeps:
  assumes "store_put sha256 content aid media raced fs = (r, fs')" and "is_sha256 (sha256 content)"
  shows "\<And>row. intact sha256 fs row \<Longrightarrow> intact sha256 fs' row"
    "\<And>stored. r = Inr stored \<Longrightarrow> sa_artifact_id stored = aid \<and> sa_sha256 stored = sha256 content \<and> sa_media_type stored = media \<and>
       sa_storage_key stored = storage_key_of (sha256 content) \<and> sa_size_bytes stored = int (length content) \<and>
       require_contained fs' (butlast (object_path (sha256 content))) = Inr () \<and>
       (\<exists>c'. map_of (st_files fs') (object_path (sha256 content)) = Some (Regular c') \<and> sha256 c' = sha256 content \<and>
          length c' = length content)"
proof -
  let ?d = "sha256 content" and ?p = "object_path (sha256 content)"
  let ?desc = "\<lparr>sa_artifact_id = aid, sa_sha256 = ?d, sa_media_type = media, sa_size_bytes = int (length content),
      sa_storage_key = storage_key_of ?d\<rparr>"
  note path = storage_key_path[OF assms(2)]
  have valid: "require_contained f (butlast ?p) = Inr () \<and> (\<exists>c'. map_of (st_files f) ?p = Some (Regular c') \<and> sha256 c' = ?d \<and>
      length c' = length content)" if "av_valid (verify_artifact sha256 ?desc f)" for f
    using that open_contained_object[OF assms(2), of f] by (auto simp: verify_artifact_def split: sum.splits)
  have keep: "intact sha256 (fs\<lparr>st_files := dict_set ?p e (st_files fs)\<rparr>) row"
    if "intact sha256 fs row" "map_of (st_files fs) ?p = None" for row e
    using that by (auto simp: intact_def require_contained_def)
  have "(\<forall>row. intact sha256 fs row \<longrightarrow> intact sha256 fs' row) \<and>
      (\<forall>stored. r = Inr stored \<longrightarrow> stored = ?desc \<and> require_contained fs' (butlast ?p) = Inr () \<and>
       (\<exists>c'. map_of (st_files fs') ?p = Some (Regular c') \<and> sha256 c' = ?d \<and> length c' = length content))"
  proof (cases "require_contained fs (butlast ?p)")
    case (Inl e)
    then show ?thesis using assms(1) by (auto simp: store_put_def Let_def path)
  next
    case (Inr u)
    then have ok: "require_contained fs (butlast ?p) = Inr ()" by simp
    consider (present) "map_of (st_files fs) ?p \<notin> {None, Some (Symlink False)}" | (dangling) "map_of (st_files fs) ?p = Some (Symlink False)"
      | (linked) "map_of (st_files fs) ?p = None" "raced = None" | (raced) e where "map_of (st_files fs) ?p = None" "raced = Some e"
      by (cases raced) auto
    then show ?thesis
    proof cases
      case present
      then have "fs' = fs" "r = Inr stored \<Longrightarrow> stored = ?desc \<and> av_valid (verify_artifact sha256 ?desc fs)" for stored
        using assms(1) by (auto simp: store_put_def Let_def path ok split: if_splits)
      then show ?thesis using valid[of fs] by blast
    next
      case dangling
      then have "fs' = fs" "r = Inr stored \<Longrightarrow> stored = ?desc \<and> av_valid (verify_artifact sha256 ?desc fs)" for stored
        using assms(1) by (auto simp: store_put_def Let_def path ok split: if_splits)
      then show ?thesis using valid[of fs] by blast
    next
      case linked
      then have "r = Inr ?desc" "fs' = fs\<lparr>st_files := dict_set ?p (Regular content) (st_files fs)\<rparr>"
        using assms(1) by (simp_all add: store_put_def Let_def path ok)
      then show ?thesis using keep ok linked(1) by (simp add: require_contained_def)
    next
      case (raced e)
      let ?fs = "fs\<lparr>st_files := dict_set ?p e (st_files fs)\<rparr>"
      have "fs' = ?fs" "r = Inr stored \<Longrightarrow> stored = ?desc \<and> av_valid (verify_artifact sha256 ?desc ?fs)" for stored
        using assms(1) raced by (auto simp: store_put_def Let_def path ok split: if_splits)
      then show ?thesis using keep[OF _ raced(1)] valid[of ?fs] by blast
    qed
  qed
  then show "\<And>row. intact sha256 fs row \<Longrightarrow> intact sha256 fs' row"
    "\<And>stored. r = Inr stored \<Longrightarrow> sa_artifact_id stored = aid \<and> sa_sha256 stored = ?d \<and> sa_media_type stored = media \<and>
       sa_storage_key stored = storage_key_of ?d \<and> sa_size_bytes stored = int (length content) \<and>
       require_contained fs' (butlast ?p) = Inr () \<and>
       (\<exists>c'. map_of (st_files fs') ?p = Some (Regular c') \<and> sha256 c' = ?d \<and> length c' = length content)"
    by auto
qed

text \<open>Operations on the service: storing, verified reading and reviewing, in any order.\<close>

datatype artifact_op =
    Put string string uuid uuid uuid "uuid option" "entry option"
  | Read uuid uuid
  | Review ReleaseReviewRequest

fun perform_op :: "(string \<Rightarrow> string) \<Rightarrow> artifact_op \<Rightarrow> artifact_store \<times> db \<Rightarrow> artifact_store \<times> db" where
  "perform_op sha256 (Put content media project run task aid raced) c = snd (put_artifact sha256 content media project run task aid raced c)"
| "perform_op sha256 (Read project aid) c = snd (get_verified sha256 project aid c)"
| "perform_op sha256 (Review request) c = snd (review sha256 request c)"

lemma get_verified_intact:
  assumes "store_inv sha256 c"
  shows "snd (get_verified sha256 project aid c) = c"
    "get_artifact project aid (snd c) = Some row \<Longrightarrow> ar_state row = VALID \<Longrightarrow>
      \<exists>content. get_verified sha256 project aid c = (Inr content, c) \<and>
        map_of (st_files (fst c)) (object_path (ar_sha256 row)) = Some (Regular content)"
proof -
  obtain fs s where c: "c = (fs, s)" by fastforce
  have found: "\<exists>content. get_verified sha256 project aid c = (Inr content, c) \<and>
        map_of (st_files fs) (object_path (ar_sha256 row)) = Some (Regular content)"
    if row: "get_artifact project aid s = Some row" "ar_state row = VALID" for row
  proof -
    have "row \<in> set (artifacts s)" using row(1) by (auto simp: get_artifact_def dest: row_get_SomeD split: option.splits if_splits)
    then have "intact sha256 fs row" using assms row(2) by (simp add: store_inv_def c)
    then show ?thesis using intact_reads[of sha256 fs row] row by (auto simp: get_verified_def c)
  qed
  then show "get_artifact project aid (snd c) = Some row \<Longrightarrow> ar_state row = VALID \<Longrightarrow>
      \<exists>content. get_verified sha256 project aid c = (Inr content, c) \<and>
        map_of (st_files (fst c)) (object_path (ar_sha256 row)) = Some (Regular content)" by (simp add: c)
  show "snd (get_verified sha256 project aid c) = c"
  proof (cases "get_artifact project aid s")
    case None
    then show ?thesis by (simp add: get_verified_def c)
  next
    case (Some row)
    then show ?thesis using found[OF Some] by (cases "ar_state row = VALID") (auto simp: get_verified_def c)
  qed
qed

lemma review_artifacts_intact:
  "store_inv sha256 c \<Longrightarrow> snd (review_artifacts sha256 request criterion ids found c) = c"
proof (induction sha256 request criterion ids found c rule: review_artifacts.induct)
  case (2 sha256 request criterion artifact_id ids verified failures c)
  obtain r where r: "get_verified sha256 (rv_project_id request) artifact_id c = (r, c)"
    using get_verified_intact(1)[OF 2(4)] by (metis prod.collapse)
  show ?case using 2 r by (cases r) auto
qed simp

lemma review_criteria_intact:
  "store_inv sha256 c \<Longrightarrow> snd (review_criteria sha256 request criteria found c) = c"
proof (induction criteria arbitrary: found)
  case (Cons criterion criteria)
  obtain evidence failures where found: "found = (evidence, failures)" by fastforce
  let ?ids = "fromkeys (case map_of (rv_proposed_evidence request) criterion of None \<Rightarrow> [] | Some ids \<Rightarrow> ids)"
  obtain r where r: "review_artifacts sha256 request criterion ?ids ([], failures) c = (r, c)"
    using review_artifacts_intact[OF Cons.prems, of request criterion ?ids "([], failures)"] by (metis prod.collapse)
  show ?case using Cons r by (auto simp: found Let_def split: sum.splits)
qed simp

lemma put_artifact_keeps:
  assumes "put_artifact sha256 content media project run task aid raced c = (r, c')" and "store_inv sha256 c"
    and "\<And>b. is_sha256 (sha256 b)"
  shows "store_inv sha256 c'" "\<And>row. row \<in> set (artifacts (snd c)) \<Longrightarrow> row \<in> set (artifacts (snd c'))"
    "\<And>stored. r = Inr stored \<Longrightarrow> \<exists>row \<in> set (artifacts (snd c')). ar_id row = sa_artifact_id stored \<and> ar_project_id row = project \<and>
       ar_state row = VALID \<and> ar_sha256 row = sha256 content"
proof -
  obtain fs s fs' s' where c: "c = (fs, s)" "c' = (fs', s')" by fastforce
  obtain a s1 where a: "(case aid of Some a \<Rightarrow> (a, s) | None \<Rightarrow> uuid4 s) = (a, s1)" by fastforce
  have s1: "artifacts s1 = artifacts s" using a by (auto simp: uuid4_def split: option.splits)
  obtain q where put: "store_put sha256 content a media raced fs = (q, fs')"
    using assms(1) by (auto simp: put_artifact_def c a split: prod.splits sum.splits)
  note kept = store_put_keeps[OF put assms(3)]
  have inv: "\<forall>row \<in> set (artifacts s). ar_state row = VALID \<longrightarrow> intact sha256 fs' row" "keyed ar_id (artifacts s)"
    using assms(2) kept(1) by (auto simp: store_inv_def c)
  consider (no) "artifacts s' = artifacts s" "\<And>stored. r \<noteq> Inr stored"
    | (yes) stored row where "r = Inr stored" "q = Inr stored" "artifacts s' = artifacts s @ [row]" "ar_id row \<notin> ar_id ` set (artifacts s)"
        "ar_id row = sa_artifact_id stored" "ar_project_id row = project" "ar_state row = VALID" "ar_sha256 row = sa_sha256 stored"
        "ar_storage_key row = sa_storage_key stored" "ar_size_bytes row = sa_size_bytes stored"
    using assms(1) s1
    by (auto simp: put_artifact_def c a put record_artifact_def ArtifactRef_model_def bnd_eq_Inr row_insert_Inr split: prod.splits sum.splits)
  then have "store_inv sha256 c' \<and> (\<forall>row. row \<in> set (artifacts s) \<longrightarrow> row \<in> set (artifacts s')) \<and>
      (\<forall>stored. r = Inr stored \<longrightarrow> (\<exists>row \<in> set (artifacts s'). ar_id row = sa_artifact_id stored \<and> ar_project_id row = project \<and>
         ar_state row = VALID \<and> ar_sha256 row = sha256 content))"
  proof cases
    case no
    then show ?thesis using inv by (simp add: store_inv_def c)
  next
    case (yes stored row)
    note st = kept(2)[OF yes(2)]
    have "intact sha256 fs' row" using st assms(3)[of content] yes(7-10) by (auto simp: intact_def)
    then show ?thesis using inv yes st by (auto simp: store_inv_def c keyed_def)
  qed
  then show "store_inv sha256 c'" "\<And>row. row \<in> set (artifacts (snd c)) \<Longrightarrow> row \<in> set (artifacts (snd c'))"
    "\<And>stored. r = Inr stored \<Longrightarrow> \<exists>row \<in> set (artifacts (snd c')). ar_id row = sa_artifact_id stored \<and> ar_project_id row = project \<and>
       ar_state row = VALID \<and> ar_sha256 row = sha256 content" by (auto simp: c)
qed

lemma perform_op_keeps:
  assumes "store_inv sha256 c" and "\<And>b. is_sha256 (sha256 b)"
  shows "store_inv sha256 (perform_op sha256 op c)" "row \<in> set (artifacts (snd c)) \<Longrightarrow> row \<in> set (artifacts (snd (perform_op sha256 op c)))"
proof -
  have "store_inv sha256 (perform_op sha256 op c) \<and>
      (row \<in> set (artifacts (snd c)) \<longrightarrow> row \<in> set (artifacts (snd (perform_op sha256 op c))))"
  proof (cases op)
    case (Put content media project run task aid raced)
    obtain r c' where "put_artifact sha256 content media project run task aid raced c = (r, c')" by (meson surj_pair)
    then show ?thesis using put_artifact_keeps(1,2)[OF _ assms] by (simp add: Put)
  next
    case (Read project aid)
    then show ?thesis using get_verified_intact(1)[OF assms(1)] assms(1) by simp
  next
    case (Review request)
    obtain fs s where c: "c = (fs, s)" by fastforce
    have "snd (review sha256 request c) = c"
      using review_criteria_intact[OF assms(1)]
      by (auto simp: review_def c Let_def split: prod.splits sum.splits) (metis prod.inject snd_conv)+
    then show ?thesis using assms(1) by (simp add: Review)
  qed
  then show "store_inv sha256 (perform_op sha256 op c)"
    "row \<in> set (artifacts (snd c)) \<Longrightarrow> row \<in> set (artifacts (snd (perform_op sha256 op c)))" by auto
qed

lemma perform_ops_keep:
  assumes "store_inv sha256 c" and "\<And>b. is_sha256 (sha256 b)"
  shows "store_inv sha256 (foldl (\<lambda>c op. perform_op sha256 op c) c ops)"
    "row \<in> set (artifacts (snd c)) \<Longrightarrow> row \<in> set (artifacts (snd (foldl (\<lambda>c op. perform_op sha256 op c) c ops)))"
  using assms by (induction ops arbitrary: c) (auto simp: perform_op_keeps)


subsection \<open>Corruption\<close>

lemma get_artifact_SomeD:
  "get_artifact project aid s = Some row \<Longrightarrow> row \<in> set (artifacts s) \<and> ar_id row = aid \<and> ar_project_id row = project"
  by (auto simp: get_artifact_def dest: row_get_SomeD split: option.splits if_splits)

lemma mark_artifact_corrupt_marks:
  assumes "get_artifact project aid s = Some row" and "ar_state row \<noteq> CORRUPT" and "fresh_draw s"
  obtains s' a e where "mark_artifact_corrupt project aid s = Inr s'"
    "get_artifact project aid s' = Some (row\<lparr>ar_state := CORRUPT, ar_verified_at := None\<rparr>)"
    "audit_events s' = audit_events s @ [a]" "au_event_type a = ''artifact.corrupt''" "au_aggregate_id a = aid"
    "outbox s' = outbox s @ [e]" "ob_event_id e = au_id a" "ob_topic e = ''artifact-integrity''"
proof -
  let ?s = "s\<lparr>artifacts := row_update (\<lambda>r. ar_id r = aid) (\<lambda>r. r\<lparr>ar_state := CORRUPT, ar_verified_at := None\<rparr>) (artifacts s)\<rparr>"
  let ?emit = "emit ''artifact.corrupt'' ''artifact'' (ar_id row)
      [(''artifact_id'', PId (ar_id row)), (''project_id'', PId (ar_project_id row)),
       (''sha256'', PText (ar_sha256 row)), (''state'', PText ''CORRUPT'')] (ar_run_id row) ''artifact-integrity'' ?s"
  have "fresh_draw ?s" using assms(3) by (simp add: fresh_draw_def)
  then obtain s' where run: "?emit = Inr s'" using emit_fresh by blast
  then have mark: "mark_artifact_corrupt project aid s = Inr s'" using assms(1,2) by (simp add: mark_artifact_corrupt_def)
  note row = get_artifact_SomeD[OF assms(1)]
  have "row_get ar_id aid (artifacts s) = Some row" using assms(1) by (auto simp: get_artifact_def split: option.splits if_splits)
  then have marked: "get_artifact project aid s' = Some (row\<lparr>ar_state := CORRUPT, ar_verified_at := None\<rparr>)"
    using row emit_frame(18)[OF run] by (simp add: get_artifact_def row_get_update)
  show thesis by (rule emit_cases[OF run], rule that[OF mark marked]) (auto simp: row)
qed


text \<open>
  Property C39: the reader of release decisions loses the mark. When the object of a valid release decision is
  corrupt, \<open>_load_release_decision\<close> moves the object into quarantine, but the exception leaves the
  transaction and takes the CORRUPT mark and its events with it: the database is unchanged, the row
  still says VALID, and there is no object any more.
\<close>

theorem release_decision_reader_loses_mark:
  assumes "get_artifact project aid s = Some row" and "ar_state row = VALID" and "fresh_draw s"
    and "map_of (st_files fs) (path_parts (ar_storage_key row)) = Some (Regular bytes)" and "sha256 bytes \<noteq> ar_sha256 row"
    and "safe_path fs (ar_storage_key row) True = Inr (path_parts (ar_storage_key row))"
    and "\<not> st_escapes fs [''quarantine'', st_uuid_text fs aid]"
    and "path_parts (ar_storage_key row) \<noteq> [''quarantine'', st_uuid_text fs aid, ar_sha256 row]"
  shows "\<exists>e fs'. load_release_decision sha256 project aid (fs, s) = (Inl e, fs', s) \<and>
    map_of (st_files fs') (path_parts (ar_storage_key row)) = None"
proof -
  have get: "row_get ar_id aid (artifacts s) = Some row" using assms(1) by (auto simp: get_artifact_def split: option.splits if_splits)
  have id: "ar_id row = aid" using get_artifact_SomeD[OF assms(1)] by simp
  obtain e where read: "read_verified sha256 (stored_of row) fs = Inl e"
    using assms(4-6) by (auto simp: read_verified_def stored_of_def open_contained_def)
  have "ar_state row \<noteq> CORRUPT" using assms(2) by simp
  then obtain s1 where mark: "mark_artifact_corrupt project aid s = Inr s1"
    using mark_artifact_corrupt_marks[OF assms(1) _ assms(3)] by metis
  let ?fs = "snd (quarantine (stored_of row) fs)"
  have "load_release_decision sha256 project aid (fs, s) = (Inl e, ?fs, s)"
    using get assms(1,2) read mark by (simp add: load_release_decision_def get_verified_def)
  moreover have "map_of (st_files ?fs) (path_parts (ar_storage_key row)) = None"
  proof -
    have "map_of (filter (\<lambda>(p, e). p \<noteq> k) files) k = None" for k and files :: "(string list \<times> entry) list"
      by (induction files) auto
    then show ?thesis using assms(6-8) by (simp add: quarantine_def stored_of_def Let_def require_contained_def id)
  qed
  ultimately show ?thesis by blast
qed

text \<open>
  Property C40: downloading a corrupt artifact destroys a healthy one. Objects are shared by digest. If a row is
  already CORRUPT and another, valid row has the same digest, its object intact, then a
  download of the corrupt artifact moves the shared object into quarantine, and the next verified read of the
  valid artifact fails and marks it CORRUPT too.
\<close>

theorem corrupt_download_destroys_shared_object:
  assumes "get_artifact project a s = Some bad" and "ar_state bad = CORRUPT" and "ar_size_bytes bad \<le> MAX_ARTIFACT_DOWNLOAD_BYTES"
    and "get_artifact project b s = Some good" and "ar_state good = VALID" and "intact sha256 fs good"
    and "ar_storage_key bad = ar_storage_key good" and "fresh_draw s" and "\<not> st_escapes fs [''quarantine'', st_uuid_text fs a]"
  shows "\<exists>fs1 s2 fs2. get_verified sha256 project b (fs, s) \<noteq> (Inl FileNotFoundError, fs, s) \<and>
    download_artifact sha256 project a (fs, s) = (Inl (HTTPException 409), fs1, s) \<and>
    get_verified sha256 project b (fs1, s) = (Inl FileNotFoundError, fs2, s2) \<and>
    (\<exists>row. get_artifact project b s2 = Some row \<and> ar_state row = CORRUPT)"
proof -
  let ?p = "object_path (ar_sha256 good)"
  have sha: "is_sha256 (ar_sha256 good)" "ar_storage_key good = storage_key_of (ar_sha256 good)"
    "require_contained fs (butlast ?p) = Inr ()" using assms(6) by (auto simp: intact_def)
  obtain content where here: "map_of (st_files fs) ?p = Some (Regular content)" using assms(6) by (auto simp: intact_def)
  have id: "ar_id bad = a" using get_artifact_SomeD[OF assms(1)] by simp
  let ?fs = "snd (quarantine (stored_of bad) fs)"
  have gone: "map_of (st_files ?fs) ?p = None"
  proof -
    have "map_of (filter (\<lambda>(p, e). p \<noteq> k) files) k = None" for k and files :: "(string list \<times> entry) list"
      by (induction files) auto
    moreover have "?p \<noteq> [''quarantine'', st_uuid_text fs a] @ [ar_sha256 bad]" by (simp add: object_path_def)
    ultimately show ?thesis using assms(7,9) sha here
      by (simp add: quarantine_def stored_of_def Let_def require_contained_def id storage_key_path[OF sha(1)])
  qed
  have down: "download_artifact sha256 project a (fs, s) = (Inl (HTTPException 409), ?fs, s)"
    using assms(1-3) by (simp add: download_artifact_def read_verified_bytes_def quarantine_corrupt_def commit_def mark_artifact_corrupt_def)
  have missing: "read_verified sha256 (stored_of good) ?fs = Inl FileNotFoundError"
    using gone sha by (simp add: read_verified_def stored_of_def open_contained_def storage_key_path[OF sha(1)])
  have "ar_state good \<noteq> CORRUPT" using assms(5) by simp
  then obtain s2 where mark: "mark_artifact_corrupt project b s = Inr s2"
    "get_artifact project b s2 = Some (good\<lparr>ar_state := CORRUPT, ar_verified_at := None\<rparr>)"
    using mark_artifact_corrupt_marks[OF assms(4) _ assms(8)] by metis
  have "get_verified sha256 project b (?fs, s) = (Inl FileNotFoundError, snd (quarantine (stored_of good) ?fs), s2)"
    using assms(4,5) missing mark by (simp add: get_verified_def)
  moreover have "get_verified sha256 project b (fs, s) \<noteq> (Inl FileNotFoundError, fs, s)"
    using intact_reads[OF assms(6)] assms(4,5) by (auto simp: get_verified_def)
  ultimately show ?thesis using down mark(2) by (auto intro!: exI)
qed

subsection \<open>What the release review approves\<close>

text \<open>An artifact of the reviewed run that is valid and whose object verifies.\<close>

definition evidence_ok :: "(string \<Rightarrow> string) \<Rightarrow> ReleaseReviewRequest \<Rightarrow> artifact_store \<times> db \<Rightarrow> uuid \<Rightarrow> bool" where
  "evidence_ok sha256 request c aid \<longleftrightarrow> (\<exists>row content. get_artifact (rv_project_id request) aid (snd c) = Some row \<and>
     ar_run_id row = rv_run_id request \<and> ar_state row = VALID \<and> ar_verified_at row \<noteq> None \<and>
     read_verified sha256 (stored_of row) (fst c) = Inr content)"

definition proposed_for :: "ReleaseReviewRequest \<Rightarrow> string \<Rightarrow> uuid list" where
  "proposed_for request criterion =
     fromkeys (case map_of (rv_proposed_evidence request) criterion of None \<Rightarrow> [] | Some ids \<Rightarrow> ids)"

text \<open>Every criterion has evidence, all of it good, and there is none for anything else.\<close>

definition release_ok :: "(string \<Rightarrow> string) \<Rightarrow> ReleaseReviewRequest \<Rightarrow> artifact_store \<times> db \<Rightarrow> bool" where
  "release_ok sha256 request c \<longleftrightarrow> fst ` set (rv_proposed_evidence request) \<subseteq> set (rv_acceptance_criteria request) \<and>
     (\<forall>criterion \<in> set (rv_acceptance_criteria request). proposed_for request criterion \<noteq> [] \<and>
        (\<forall>aid \<in> set (proposed_for request criterion). evidence_ok sha256 request c aid))"

lemma get_verified_Inr:
  "get_verified sha256 project aid c = (Inr content, c1) \<longleftrightarrow> c1 = c \<and>
    (\<exists>row. get_artifact project aid (snd c) = Some row \<and> ar_state row = VALID \<and> read_verified sha256 (stored_of row) (fst c) = Inr content)"
  by (cases c) (auto simp: get_verified_def split: option.splits sum.splits)

lemma review_artifacts_step:
  "evidence_ok sha256 request c aid \<Longrightarrow>
    review_artifacts sha256 request criterion (aid # ids) (verified, failures) c =
    review_artifacts sha256 request criterion ids (verified @ [aid], failures) c"
  "\<not> evidence_ok sha256 request c aid \<Longrightarrow>
    (\<exists>e c1. review_artifacts sha256 request criterion (aid # ids) (verified, failures) c = (Inl e, c1)) \<or>
    (\<exists>f c1. review_artifacts sha256 request criterion (aid # ids) (verified, failures) c =
       review_artifacts sha256 request criterion ids (verified, failures @ [f]) c1)"
proof -
  have row: "row_get ar_id aid (artifacts (snd c)) = Some row" if "get_artifact (rv_project_id request) aid (snd c) = Some row" for row
    using that by (auto simp: get_artifact_def split: option.splits if_splits)
  show "evidence_ok sha256 request c aid \<Longrightarrow> review_artifacts sha256 request criterion (aid # ids) (verified, failures) c =
      review_artifacts sha256 request criterion ids (verified @ [aid], failures) c"
  proof -
    assume "evidence_ok sha256 request c aid"
    then obtain r content where r: "get_artifact (rv_project_id request) aid (snd c) = Some r" "ar_run_id r = rv_run_id request"
      "ar_state r = VALID" "ar_verified_at r \<noteq> None" "read_verified sha256 (stored_of r) (fst c) = Inr content"
      by (auto simp: evidence_ok_def)
    then have "get_verified sha256 (rv_project_id request) aid c = (Inr content, c)" by (simp add: get_verified_Inr)
    then show ?thesis using row[OF r(1)] r by auto
  qed
  assume bad: "\<not> evidence_ok sha256 request c aid"
  obtain r c1 where got: "get_verified sha256 (rv_project_id request) aid c = (r, c1)" by (meson surj_pair)
  show "(\<exists>e c1. review_artifacts sha256 request criterion (aid # ids) (verified, failures) c = (Inl e, c1)) \<or>
    (\<exists>f c1. review_artifacts sha256 request criterion (aid # ids) (verified, failures) c =
       review_artifacts sha256 request criterion ids (verified, failures @ [f]) c1)"
  proof (cases r)
    case (Inl e)
    show ?thesis
    proof (cases "evidence_error e")
      case True
      then have "review_artifacts sha256 request criterion (aid # ids) (verified, failures) c =
          review_artifacts sha256 request criterion ids (verified, failures @ [Invalid_artifact criterion aid e]) c1"
        using got Inl by simp
      then show ?thesis by blast
    next
      case False
      then have "review_artifacts sha256 request criterion (aid # ids) (verified, failures) c = (Inl e, c1)" using got Inl by simp
      then show ?thesis by blast
    qed
  next
    case (Inr content)
    then obtain row where "c1 = c" "get_artifact (rv_project_id request) aid (snd c) = Some row" "ar_state row = VALID"
      "read_verified sha256 (stored_of row) (fst c) = Inr content" using got get_verified_Inr by blast
    then have "review_artifacts sha256 request criterion (aid # ids) (verified, failures) c =
        review_artifacts sha256 request criterion ids (verified, failures @ [Outside_run criterion aid]) c"
      using got Inr bad row[of row] by (auto simp: evidence_ok_def)
    then show ?thesis by blast
  qed
qed

lemma review_artifacts_failures:
  "review_artifacts sha256 request criterion ids (verified, failures) c = (Inr (v, f), c1) \<Longrightarrow> length failures \<le> length f"
proof (induction ids arbitrary: verified failures c)
  case (Cons aid ids)
  then show ?case
    using review_artifacts_step[of sha256 request c aid criterion ids verified failures]
    by (cases "evidence_ok sha256 request c aid") fastforce+
qed simp

lemma review_artifacts_clean:
  "review_artifacts sha256 request criterion ids (verified, failures) c = (Inr (v, failures), c1) \<longleftrightarrow>
    c1 = c \<and> v = verified @ ids \<and> (\<forall>aid \<in> set ids. evidence_ok sha256 request c aid)"
proof (induction ids arbitrary: verified)
  case (Cons aid ids)
  show ?case
  proof (cases "evidence_ok sha256 request c aid")
    case True
    then show ?thesis using Cons[of "verified @ [aid]"] review_artifacts_step(1)[OF True, of criterion ids verified failures] by auto
  next
    case False
    have "review_artifacts sha256 request criterion (aid # ids) (verified, failures) c \<noteq> (Inr (v, failures), c1)"
    proof
      assume run: "review_artifacts sha256 request criterion (aid # ids) (verified, failures) c = (Inr (v, failures), c1)"
      then obtain f c2 where "review_artifacts sha256 request criterion ids (verified, failures @ [f]) c2 = (Inr (v, failures), c1)"
        using review_artifacts_step(2)[OF False, of criterion ids verified failures] by auto
      then show False using review_artifacts_failures by fastforce
    qed
    then show ?thesis using False by simp
  qed
qed auto

lemma review_criteria_step:
  "review_criteria sha256 request (criterion # criteria) (evidence, failures) c =
    (if proposed_for request criterion = [] then review_criteria sha256 request criteria (evidence, failures @ [No_evidence criterion]) c
     else case review_artifacts sha256 request criterion (proposed_for request criterion) ([], failures) c of
            (Inl e, c1) \<Rightarrow> (Inl e, c1)
          | (Inr (verified, failures1), c1) \<Rightarrow>
              if verified \<noteq> [] then review_criteria sha256 request criteria (dict_set criterion verified evidence, failures1) c1
              else review_criteria sha256 request criteria (evidence, failures1 @ [No_verified_evidence criterion]) c1)"
  by (simp add: proposed_for_def Let_def)

lemma review_criteria_failures:
  "review_criteria sha256 request criteria (evidence, failures) c = (Inr (v, f), c1) \<Longrightarrow> length failures \<le> length f"
proof (induction criteria arbitrary: evidence failures c)
  case (Cons criterion criteria)
  show ?case
  proof (cases "proposed_for request criterion = []")
    case True
    then have "review_criteria sha256 request criteria (evidence, failures @ [No_evidence criterion]) c = (Inr (v, f), c1)"
      using Cons.prems by (simp add: review_criteria_step del: review_criteria.simps)
    from Cons.IH[OF this] show ?thesis by simp
  next
    case False
    obtain r c2 where run: "review_artifacts sha256 request criterion (proposed_for request criterion) ([], failures) c = (r, c2)"
      by (meson surj_pair)
    obtain verified failures1 where r: "r = Inr (verified, failures1)"
      using Cons.prems False run by (cases r) (auto simp: review_criteria_step simp del: review_criteria.simps)
    have "length failures \<le> length failures1" using review_artifacts_failures run r by blast
    moreover have "length failures1 \<le> length f"
    proof (cases "verified = []")
      case True
      then have "review_criteria sha256 request criteria (evidence, failures1 @ [No_verified_evidence criterion]) c2 = (Inr (v, f), c1)"
        using Cons.prems False run r by (simp add: review_criteria_step del: review_criteria.simps)
      from Cons.IH[OF this] show ?thesis by simp
    next
      case nonempty: False
      then have "review_criteria sha256 request criteria (dict_set criterion verified evidence, failures1) c2 = (Inr (v, f), c1)"
        using Cons.prems False run r by (simp add: review_criteria_step del: review_criteria.simps)
      from Cons.IH[OF this] show ?thesis .
    qed
    ultimately show ?thesis by simp
  qed
qed simp

lemma review_criteria_clean_step:
  "review_criteria sha256 request (criterion # criteria) (evidence, []) c = (Inr (v, []), c1) \<longleftrightarrow>
    proposed_for request criterion \<noteq> [] \<and> (\<forall>aid \<in> set (proposed_for request criterion). evidence_ok sha256 request c aid) \<and>
    review_criteria sha256 request criteria (dict_set criterion (proposed_for request criterion) evidence, []) c = (Inr (v, []), c1)"
proof -
  have dirty: "review_criteria sha256 request criteria (e', f) c' \<noteq> (Inr (v, []), c1)" if "f \<noteq> []" for e' f c'
    using that review_criteria_failures by fastforce
  obtain r c2 where run: "review_artifacts sha256 request criterion (proposed_for request criterion) ([], []) c = (r, c2)"
    by (meson surj_pair)
  show ?thesis
  proof (cases "r = Inr (proposed_for request criterion, []) \<and> c2 = c \<and> (\<forall>aid \<in> set (proposed_for request criterion). evidence_ok sha256 request c aid)")
    case True
    then show ?thesis using run dirty by (auto simp: review_criteria_step simp del: review_criteria.simps)
  next
    case False
    then have bad: "r \<noteq> Inr (verified, [])" for verified
      using run review_artifacts_clean[of sha256 request criterion "proposed_for request criterion" "[]" "[]" c verified c2] by auto
    moreover have "\<not> (\<forall>aid \<in> set (proposed_for request criterion). evidence_ok sha256 request c aid)"
      using bad[of "proposed_for request criterion"] run
        review_artifacts_clean[of sha256 request criterion "proposed_for request criterion" "[]" "[]" c "proposed_for request criterion" c] by auto
    moreover have "review_criteria sha256 request (criterion # criteria) (evidence, []) c \<noteq> (Inr (v, []), c1)"
    proof (cases r)
      case (Inl e)
      then show ?thesis using run dirty[of "[No_evidence criterion]"] by (simp add: review_criteria_step del: review_criteria.simps)
    next
      case (Inr found)
      obtain verified f where found: "found = (verified, f)" by fastforce
      then have "f \<noteq> []" using bad Inr by auto
      then show ?thesis using run Inr found dirty[of f] dirty[of "f @ [No_verified_evidence criterion]"] dirty[of "[No_evidence criterion]"]
        by (simp add: review_criteria_step del: review_criteria.simps)
    qed
    ultimately show ?thesis by blast
  qed
qed

lemma review_criteria_clean:
  "(\<exists>v. review_criteria sha256 request criteria (evidence, []) c = (Inr (v, []), c1)) \<longleftrightarrow> c1 = c \<and>
    (\<forall>criterion \<in> set criteria. proposed_for request criterion \<noteq> [] \<and>
      (\<forall>aid \<in> set (proposed_for request criterion). evidence_ok sha256 request c aid))"
proof (induction criteria arbitrary: evidence)
  case (Cons criterion criteria)
  then show ?case by (auto simp: review_criteria_clean_step simp del: review_criteria.simps)
qed auto

lemma review_criteria_evidence:
  "review_criteria sha256 request criteria (evidence, []) c = (Inr (v, []), c1) \<Longrightarrow>
    map_of v k = (if k \<in> set criteria then Some (proposed_for request k) else map_of evidence k)"
proof (induction criteria arbitrary: evidence)
  case (Cons criterion criteria)
  then show ?case by (auto simp: review_criteria_clean_step simp del: review_criteria.simps)
qed simp

text \<open>
  Property C8: a release is approved exactly on complete, verified evidence. The review approves a release if
  and only if every acceptance criterion has proposed evidence, nothing else has, and every
  proposed artifact is a valid artifact of this run and project whose stored bytes match their digest and size. The approved
  decision lists exactly this evidence, and an approving review changes neither the store nor the database.
\<close>

theorem release_approved_iff_evidence_verified:
  assumes "text_ok 20000 (rv_summary request)"
  shows "((\<exists>d c'. review sha256 request c = (Inr d, c') \<and> rd_approved d) \<longleftrightarrow> release_ok sha256 request c) \<and>
    (\<forall>d c'. review sha256 request c = (Inr d, c') \<and> rd_approved d \<longrightarrow> c' = c \<and> rd_failure_reasons d = [] \<and>
      (\<forall>criterion \<in> set (rv_acceptance_criteria request).
         map_of (rd_acceptance_evidence d) criterion = Some (proposed_for request criterion)))"
proof -
  obtain fs s where c: "c = (fs, s)" by fastforce
  let ?cs = "rv_acceptance_criteria request"
  let ?extras = "map Unexpected_evidence (sorted_list_of_set (fst ` set (rv_proposed_evidence request) - set ?cs))"
  obtain r c1 where run: "review_criteria sha256 request ?cs ([], ?extras) c = (r, c1)" by (meson surj_pair)
  have extras: "?extras = [] \<longleftrightarrow> fst ` set (rv_proposed_evidence request) \<subseteq> set ?cs" by auto
  have approved: "review sha256 request c = (Inr d, c') \<and> rd_approved d \<longleftrightarrow> c' = c1 \<and>
      (\<exists>v. r = Inr (v, []) \<and> set ?cs \<subseteq> fst ` set v \<and>
        d = \<lparr>rd_approved = True, rd_summary = rv_summary request, rd_acceptance_evidence = v, rd_failure_reasons = []\<rparr>)" for d c'
    using run assms by (auto simp: review_def c Let_def bnd_eq_Inr list_all_iff split: prod.splits sum.splits)
  have sound: "release_ok sha256 request c \<and> c1 = c \<and> (\<forall>k \<in> set ?cs. map_of v k = Some (proposed_for request k))"
    if r: "r = Inr (v, [])" for v
  proof -
    have none: "?extras = []" using review_criteria_failures run r by fastforce
    note run' = run[unfolded none r]
    then show ?thesis
      using none extras review_criteria_clean[of sha256 request ?cs "[]" c c1] review_criteria_evidence[OF run']
      unfolding release_ok_def by fastforce
  qed
  have complete: "\<exists>v. r = Inr (v, [])" if ok: "release_ok sha256 request c"
  proof -
    have none: "?extras = []" using ok extras by (simp add: release_ok_def)
    show ?thesis using run[unfolded none] ok review_criteria_clean[of sha256 request ?cs "[]" c c] by (auto simp: release_ok_def)
  qed
  have keys: "set ?cs \<subseteq> fst ` set v" if "\<forall>k \<in> set ?cs. map_of v k = Some (proposed_for request k)" for v
  proof
    fix k
    assume "k \<in> set ?cs"
    then have "map_of v k = Some (proposed_for request k)" using that by blast
    from map_of_SomeD[OF this] show "k \<in> fst ` set v" by (rule image_eqI[rotated]) simp
  qed
  show ?thesis
  proof (intro conjI iffI allI impI)
    assume "\<exists>d c'. review sha256 request c = (Inr d, c') \<and> rd_approved d"
    then show "release_ok sha256 request c" using approved sound by blast
  next
    assume "release_ok sha256 request c"
    then obtain v where v: "r = Inr (v, [])" using complete by blast
    then have "set ?cs \<subseteq> fst ` set v" using sound[OF v] keys by blast
    with v have "review sha256 request c = (Inr \<lparr>rd_approved = True, rd_summary = rv_summary request, rd_acceptance_evidence = v,
        rd_failure_reasons = []\<rparr>, c1)"
      using approved[of "\<lparr>rd_approved = True, rd_summary = rv_summary request, rd_acceptance_evidence = v, rd_failure_reasons = []\<rparr>" c1]
      by simp
    then show "\<exists>d c'. review sha256 request c = (Inr d, c') \<and> rd_approved d" by fastforce
  next
    fix d c'
    assume "review sha256 request c = (Inr d, c') \<and> rd_approved d"
    then obtain v where v: "c' = c1" "r = Inr (v, [])"
      "d = \<lparr>rd_approved = True, rd_summary = rv_summary request, rd_acceptance_evidence = v, rd_failure_reasons = []\<rparr>"
      using approved by blast
    with sound[OF v(2)] show "c' = c" "rd_failure_reasons d = []"
      "\<forall>criterion \<in> set ?cs. map_of (rd_acceptance_evidence d) criterion = Some (proposed_for request criterion)" by simp_all
  qed
qed

subsection \<open>Samples\<close>

text \<open>A digest in the form of SHA-256 that tells one report from everything else.\<close>

definition sample_digest :: "string \<Rightarrow> string" where
  "sample_digest bytes = replicate 64 (if bytes = ''report'' then CHR ''a'' else CHR ''b'')"

definition sample_store :: artifact_store where
  "sample_store = \<lparr>st_files = [], st_escapes = (\<lambda>_. False), st_uuid_text = (\<lambda>u. replicate u CHR ''1'')\<rparr>"

lemma sample_digest_ok: "is_sha256 (sample_digest bytes)" "sample_digest bytes = sample_digest ''report'' \<Longrightarrow> bytes = ''report''"
  by (auto simp: sample_digest_def is_sha256_def is_hex_digit_def list_all_iff split: if_splits)

lemma sample_store_inv: "store_inv sample_digest (sample_store, empty_db)"
  by (simp add: store_inv_def empty_db_def keyed_def)

definition sample_before :: "artifact_op list" where
  "sample_before = [Put ''draft'' ''text/plain'' 3 9 7 (Some 41) None]"

definition sample_after :: "artifact_op list" where
  "sample_after = [Read 3 41, Put ''report'' ''text/plain'' 3 9 7 (Some 43) (Some (Regular ''other'')), Read 3 42]"

definition sample_put :: "StoredArtifact result \<times> artifact_store \<times> db" where
  "sample_put = put_artifact sample_digest ''report'' ''text/plain'' 3 9 7 (Some 42) (Some (Regular ''report''))
     (foldl (\<lambda>c op. perform_op sample_digest op c) (sample_store, empty_db) sample_before)"

lemma sample_put_ok: "map_sum (\<lambda>_. ()) sa_artifact_id (fst sample_put) = Inr 42"
  by code_simp


definition sample_artifact :: ArtifactRow where
  "sample_artifact = \<lparr>ar_id = 42, ar_project_id = 3, ar_run_id = 9, ar_task_id = 7, ar_sha256 = replicate 64 CHR ''a'',
     ar_media_type = ''text/plain'', ar_state = VALID, ar_storage_key = storage_key_of (replicate 64 CHR ''a''),
     ar_size_bytes = 6, ar_created_at = 0, ar_verified_at = Some 0\<rparr>"

definition sample_object :: "string \<Rightarrow> artifact_store" where
  "sample_object bytes = sample_store\<lparr>st_files := [(object_path (replicate 64 CHR ''a''), Regular bytes)]\<rparr>"

definition sample_artifacts :: db where
  "sample_artifacts = empty_db\<lparr>artifacts := [sample_artifact, sample_artifact\<lparr>ar_id := 41, ar_state := CORRUPT, ar_verified_at := None\<rparr>]\<rparr>"

lemma sample_fresh: "fresh_draw sample_artifacts"
  by (simp add: sample_artifacts_def fresh_draw_def empty_db_def)

lemma sample_artifact_rows:
  "get_artifact 3 42 sample_artifacts = Some sample_artifact"
  "get_artifact 3 41 sample_artifacts = Some (sample_artifact\<lparr>ar_id := 41, ar_state := CORRUPT, ar_verified_at := None\<rparr>)"
  by (simp_all add: get_artifact_def sample_artifacts_def sample_artifact_def)

lemma sample_intact: "intact sample_digest (sample_object ''report'') sample_artifact"
  using sample_digest_ok(1)[of "''report''"]
  by (simp add: intact_def sample_artifact_def sample_object_def sample_store_def sample_digest_def require_contained_def)

lemma sample_reads:
  "get_verified sample_digest 3 42 (sample_object ''report'', sample_artifacts) = (Inr ''report'', sample_object ''report'', sample_artifacts)"
  "read_verified sample_digest (stored_of sample_artifact) (sample_object ''forged'') =
     Inl (ArtifactIntegrityError ''artifact SHA-256 or size mismatch'')"
proof -
  have "read_verified sample_digest (stored_of sample_artifact) (sample_object ''report'') = Inr ''report''"
    by code_simp
  then show "get_verified sample_digest 3 42 (sample_object ''report'', sample_artifacts) =
      (Inr ''report'', sample_object ''report'', sample_artifacts)"
    by (simp add: get_verified_def sample_artifact_rows) (simp add: sample_artifact_def)
  show "read_verified sample_digest (stored_of sample_artifact) (sample_object ''forged'') =
     Inl (ArtifactIntegrityError ''artifact SHA-256 or size mismatch'')"
    by code_simp
qed


lemma sample_path: "path_parts (ar_storage_key sample_artifact) = object_path (replicate 64 CHR ''a'')"
  "safe_path (sample_object bytes) (ar_storage_key sample_artifact) True = Inr (object_path (replicate 64 CHR ''a''))"
  using storage_key_path[OF sample_digest_ok(1)[of "''report''"]]
  by (simp_all add: sample_artifact_def sample_digest_def sample_object_def sample_store_def require_contained_def)

theorem release_decision_reader_loses_mark_witness:
  "\<exists>e fs'. load_release_decision sample_digest 3 42 (sample_object ''forged'', sample_artifacts) = (Inl e, fs', sample_artifacts) \<and>
     map_of (st_files fs') (path_parts (ar_storage_key sample_artifact)) = None"
proof (rule release_decision_reader_loses_mark[OF sample_artifact_rows(1) _ sample_fresh])
  show "map_of (st_files (sample_object ''forged'')) (path_parts (ar_storage_key sample_artifact)) = Some (Regular ''forged'')"
    by (simp only: sample_path) (simp add: sample_object_def)
  show "safe_path (sample_object ''forged'') (ar_storage_key sample_artifact) True = Inr (path_parts (ar_storage_key sample_artifact))"
    by (simp only: sample_path)
  show "path_parts (ar_storage_key sample_artifact) \<noteq> [''quarantine'', st_uuid_text (sample_object ''forged'') 42, ar_sha256 sample_artifact]"
    by (simp only: sample_path) (simp add: object_path_def)
qed (simp_all add: sample_artifact_def sample_digest_def sample_object_def sample_store_def)

theorem corrupt_download_destroys_shared_object_witness:
  "\<exists>fs1 s2 fs2. download_artifact sample_digest 3 41 (sample_object ''report'', sample_artifacts) = (Inl (HTTPException 409), fs1, sample_artifacts) \<and>
     get_verified sample_digest 3 42 (fs1, sample_artifacts) = (Inl FileNotFoundError, fs2, s2)"
proof -
  have "ar_size_bytes (sample_artifact\<lparr>ar_id := 41, ar_state := CORRUPT, ar_verified_at := None\<rparr>) \<le> MAX_ARTIFACT_DOWNLOAD_BYTES"
    by (simp add: sample_artifact_def MAX_ARTIFACT_DOWNLOAD_BYTES_def)
  then show ?thesis
    using corrupt_download_destroys_shared_object[OF sample_artifact_rows(2) _ _ sample_artifact_rows(1) _ sample_intact _ sample_fresh]
    by (auto simp: sample_artifact_def sample_object_def sample_store_def)
qed

definition sample_review :: ReleaseReviewRequest where
  "sample_review = \<lparr>rv_project_id = 3, rv_run_id = 9, rv_acceptance_criteria = [''tests pass''],
     rv_proposed_evidence = [(''tests pass'', [42, 42])], rv_summary = ''done''\<rparr>"

theorem release_approved_iff_evidence_verified_witness:
  "release_ok sample_digest sample_review (sample_object ''report'', sample_artifacts) \<and>
   (\<exists>d. review sample_digest sample_review (sample_object ''report'', sample_artifacts) = (Inr d, sample_object ''report'', sample_artifacts) \<and>
      rd_approved d \<and> map_of (rd_acceptance_evidence d) ''tests pass'' = Some [42])"
proof -
  have proposed: "proposed_for sample_review ''tests pass'' = [42]" by code_simp
  have "evidence_ok sample_digest sample_review (sample_object ''report'', sample_artifacts) 42"
    using sample_reads(1) by (auto simp: evidence_ok_def get_verified_Inr sample_artifact_rows sample_review_def) (simp_all add: sample_artifact_def)
  then have ok: "release_ok sample_digest sample_review (sample_object ''report'', sample_artifacts)"
    by (simp add: release_ok_def proposed[unfolded sample_review_def] sample_review_def)
  have "text_ok 20000 (rv_summary sample_review)" by (simp add: text_ok_def sample_review_def)
  note both = release_approved_iff_evidence_verified[OF this, of sample_digest "(sample_object ''report'', sample_artifacts)"]
  then obtain d c' where "review sample_digest sample_review (sample_object ''report'', sample_artifacts) = (Inr d, c')" "rd_approved d"
    using ok by blast
  moreover from this have "c' = (sample_object ''report'', sample_artifacts)"
    "\<forall>k \<in> set (rv_acceptance_criteria sample_review). map_of (rd_acceptance_evidence d) k = Some (proposed_for sample_review k)"
    using both by blast+
  moreover have "''tests pass'' \<in> set (rv_acceptance_criteria sample_review)" by (simp add: sample_review_def)
  ultimately show ?thesis using ok proposed by fastforce
qed

end
