(* ===== verification/Spec2Isabelle.thy ===== *)
theory Spec2Isabelle
  imports Plan_Validator Attempt_Ceiling Reconciliation_Contracts Consumer Gateway_Contracts Workflow Artifacts
begin

text \<open>
  A verification library for the autonomous software-engineering platform under \<open>src/\<close>.

  \<^bold>\<open>The program.\<close> A run asks agents to change a repository. A planner proposes a plan of tasks, which a
  validator accepts or rejects (\<open>planning/validator.py\<close>). Accepted tasks become rows of a PostgreSQL
  database; the scheduler leases ready tasks to workers under concurrency and attempt ceilings
  (\<open>execution/scheduler/service.py\<close>). A worker runs the task's workflow graph (\<open>workflows/\<close>), whose
  nodes call tools only through the tool gateway (\<open>tools/\<close>), which validates, rates, claims, has approved
  and executes each call once. Every state change leaves an audit event and an outbox event in the same
  transaction; the outbox publishes them to streams and consumers apply them once
  (\<open>messaging/outbox.py\<close>, \<open>consumer.py\<close>). The scheduler's task row and the workflow's graph row can
  diverge when processes die: the reconciler repairs that (\<open>execution/scheduler/reconciliation.py\<close>).
  Results are stored as content-addressed artifacts, on which the release review rests
  (\<open>persistence/artifacts.py\<close>, \<open>workflows/review.py\<close>).

  \<^bold>\<open>Conventions.\<close> Python exceptions are values of \<open>py_error\<close>; a fallible function returns a sum. A
  pydantic model or a table row is a record whose fields carry a short prefix. A table is the list of its
  rows; \<open>db\<close> is all tables with the clock, the \<open>uuid4\<close> stream and the digest a transaction observes. A
  transaction keeps its effect when it returns and discards it when it raises; a method of several
  transactions returns the database also when it raises. Transactions are serial, so row and
  advisory locks have no counterpart. Identifiers are their 128-bit integers, times integers,
  amounts of dollars rationals. Code outside \<open>src/\<close> is a parameter: the stream transport,
  event handlers, tool executors, node executors and task runners, the digests, \<open>uuid5\<close>, the
  random jitter, what the file system resolves, and what concurrent processes do in between.

  \<^bold>\<open>Theories.\<close>
  \<^item> \<open>Prelude\<close>: types, results, tables as lists of rows with their laws, dictionaries, and the locales
    \<open>status_machine\<close>, \<open>step_invariant\<close> and \<open>replay_reducer\<close>.
  \<^item> \<open>Domain\<close>: \<open>domain/enums.py\<close>, \<open>events.py\<close>, \<open>task_policy.py\<close>. The three transition tables are
    interpreted as status machines: terminal states are absorbing, every other state has a way on.
  \<^item> \<open>Posix_Paths\<close>, \<open>Risk_Policy\<close>: the path functions of the validator and the registry, and
    \<open>policies/risk/policy_engine.py\<close>. An accepted path never leaves the repository, normalization is
    canonical, and no spelling of a protected location is rated below HIGH.
  \<^item> \<open>Redactor\<close>: \<open>policies/guardrails/secret_redactor.py\<close>, with the regular expressions as data and a
    backtracking matcher. A redacted value contains no token of the covered forms.
  \<^item> \<open>Plan_Model\<close>, \<open>Plan_Graph\<close>, \<open>Plan_Validator\<close>: \<open>domain/models.py\<close> and \<open>planning/validator.py\<close>. The
    heap is an interpretation of \<open>min_queue\<close>. The order is topological, and complete exactly for acyclic
    plans; the depth is the longest chain; the sink test means what its message says; \<open>validate\<close> accepts
    exactly the plans that satisfy \<open>plan_ok\<close>; accepted mutations extend a plan and are bounded in number.
  \<^item> \<open>Store\<close>: \<open>persistence/tables.py\<close>, \<open>repositories.py\<close>, \<open>database.py\<close>. Transitions are legal, versioned and
    audited.
  \<^item> \<open>Scheduler\<close>, \<open>Reconciliation\<close>: the two services. \<open>Scheduler_Safety\<close>: the invariant they keep
    together along \<open>sched_step\<close>, any interleaving of their operations: in-flight tasks are exactly the leased
    tasks, and they stay within the ceilings. \<open>Attempt_Ceiling\<close>: attempts never exceed their limit.
    \<open>Scheduler_Contracts\<close>, \<open>Reconciliation_Contracts\<close>: single operations (promotion, fencing, reclaiming,
    observed usage, totality and convergence of a repair) and the places where they fall short.
  \<^item> \<open>Outbox\<close>, \<open>Consumer\<close>: a publishing round refines the lifecycle of an event, claims are exclusive, an
    effect is applied at most once per group, a poisoned event is parked after finitely many deliveries.
  \<^item> \<open>Tool_Registry\<close>, \<open>Tool_Approval\<close>, \<open>Tool_Gateway\<close>, \<open>Gateway_Contracts\<close>: \<open>tools/registry.py\<close>,
    \<open>approval.py\<close>, \<open>gateway.py\<close>. A call has at most one owner, an executor runs only when the call is
    authorized and, where demanded, approved, at most \<open>max_attempts\<close> times, and a finished call is replayed.
  \<^item> \<open>Workflow\<close>: \<open>workflows/state.py\<close>, \<open>task_subgraphs.py\<close>, \<open>feature.py\<close>. The channel reducers are
    interpreted as replay-safe; a task graph completes its nodes in order, a run completes only when its
    admitted tasks are gathered and its approval is granted, however nodes are replayed.
  \<^item> \<open>Artifacts\<close>: \<open>persistence/artifacts.py\<close>, the artifact methods of the repository, \<open>workflows/review.py\<close>, the
    download endpoint and the reader of release decisions. Artifacts read back as stored, corrupt bytes are
    never returned, and a release is approved exactly on complete verified evidence.

  \<^bold>\<open>Bounds and fuel.\<close> No model is cut off by fuel of its own. Loops of the graph algorithms and the matcher
  terminate by proved measures. The remaining limits
  are the code's own: the attempts of a tool call, the rounds of dependency promotion (an argument) and of
  cascading cancellation (16), and the polls a waiting caller makes before its deadline, a parameter.

  \<^bold>\<open>Not modelled.\<close> Agents and model providers, the planning service, the stage machine of run finalization,
  the repair controller, the worker and dispatcher processes, sandboxing with Docker and Git, the memory
  service, retention, most HTTP endpoints, the web interface, logging, metrics, configuration and
  migrations: they drive external programs or connect the parts above. LangGraph, Redis and PostgreSQL
  are not part of the repository. Of the modelled files, the wait graphs and the stand-alone dispatch
  graphs of \<open>workflows/feature.py\<close> and the agent-message bus of \<open>messaging/outbox.py\<close> are left out. Floating-point
  rounding, text outside Latin-1, file modes and interpolated values of messages are abstracted away.
\<close>

end
